(* ===== verification/SidebandPrelude.thy ===== *)
theory SidebandPrelude
  imports Main "HOL-Library.Word"
begin

text \<open>
  Shared vocabulary of the development: the machine types the C++ code uses, the ways a call can
  fail to return, sequencing of fallible calls, and the list lemmas about reading and overwriting a
  piece of memory that every transport needs.
\<close>

section \<open>Machine types\<close>

text \<open>
  \<open>uint8_t\<close>, \<open>int32_t\<close> and \<open>int64_t\<close> keep their width. A signed 64-bit value is read with
  \<^const>\<open>sint\<close> where the code compares it and with \<^const>\<open>unat\<close> where it is converted to
  \<open>size_t\<close> (the length argument of \<open>memcpy\<close>, \<open>mmap\<close>, \<open>std::vector\<close>).
\<close>

type_synonym byte = "8 word"
type_synonym int32 = "32 word"
type_synonym int64 = "64 word"

section \<open>Calls that do not return\<close>

text \<open>
  A call of the library returns a value, or it stops: an \<open>assert\<close> fails, a null pointer is
  followed, memory outside the buffers of the program is touched, a C++ exception escapes, or
  the call waits for ever in a kernel call, a condition variable or a loop.
\<close>

datatype stop = AssertionFailed | NullPointer | BadAccess | Throws string | Blocks

definition andThen :: "stop + 'a \<Rightarrow> ('a \<Rightarrow> stop + 'b) \<Rightarrow> stop + 'b" where
  "andThen m f = (case m of Inl e \<Rightarrow> Inl e | Inr x \<Rightarrow> f x)"

named_theorems memory_simps "reading and overwriting pieces of byte lists"

lemma andThen_Inl [simp]: "andThen (Inl e) f = Inl e"
  by (simp add: andThen_def)

lemma andThen_Inr [simp]: "andThen (Inr x) f = f x"
  by (simp add: andThen_def)

lemma andThen_eq_Inr_iff: "andThen m f = Inr y \<longleftrightarrow> (\<exists>x. m = Inr x \<and> f x = Inr y)"
  by (cases m) auto

lemma andThen_eq_Inl_iff:
  "andThen m f = Inl e \<longleftrightarrow> m = Inl e \<or> (\<exists>x. m = Inr x \<and> f x = Inl e)"
  by (cases m) auto

lemma andThen_cong [fundef_cong]:
  "m = m' \<Longrightarrow> (\<And>x. m' = Inr x \<Longrightarrow> f x = f' x) \<Longrightarrow> andThen m f = andThen m' f'"
  by (cases m') auto

section \<open>Pieces of memory\<close>

text \<open>
  A buffer is the list of its bytes; \<open>mem_read off n bs\<close> is what \<open>memcpy\<close> reads from it and
  \<open>mem_write off new bs\<close> what it leaves after writing \<open>new\<close> at \<open>off\<close>.
\<close>

definition mem_read :: "nat \<Rightarrow> nat \<Rightarrow> 'a list \<Rightarrow> 'a list" where
  "mem_read off n bs = take n (drop off bs)"

definition mem_write :: "nat \<Rightarrow> 'a list \<Rightarrow> 'a list \<Rightarrow> 'a list" where
  "mem_write off new bs = take off bs @ new @ drop (off + length new) bs"

lemma length_mem_read [memory_simps]: "off + n \<le> length bs \<Longrightarrow> length (mem_read off n bs) = n"
  by (simp add: mem_read_def)

lemma length_mem_write [memory_simps]:
  "off + length new \<le> length bs \<Longrightarrow> length (mem_write off new bs) = length bs"
  by (simp add: mem_write_def)

lemma read_write_same [memory_simps]:
  "off + length new \<le> length bs \<Longrightarrow> mem_read off (length new) (mem_write off new bs) = new"
  by (simp add: mem_read_def mem_write_def)

lemma nth_mem_write:
  assumes "off + length new \<le> length bs" and "i < length bs"
  shows "mem_write off new bs ! i =
    (if off \<le> i \<and> i < off + length new then new ! (i - off) else bs ! i)"
  using assms by (auto simp: mem_write_def nth_append min_def)

lemma read_write_other [memory_simps]:
  assumes "off + length new \<le> length bs" and "i + n \<le> length bs"
    and "i + n \<le> off \<or> off + length new \<le> i"
  shows "mem_read i n (mem_write off new bs) = mem_read i n bs"
proof (rule nth_equalityI)
  show "length (mem_read i n (mem_write off new bs)) = length (mem_read i n bs)"
    using assms by (simp add: memory_simps)
next
  fix k assume "k < length (mem_read i n (mem_write off new bs))"
  then have k: "k < n" using assms by (simp add: memory_simps)
  have "mem_read i n (mem_write off new bs) ! k = mem_write off new bs ! (i + k)"
    using k assms by (simp add: mem_read_def memory_simps)
  also have "\<dots> = bs ! (i + k)"
    using k assms by (auto simp: nth_mem_write)
  finally show "mem_read i n (mem_write off new bs) ! k = mem_read i n bs ! k"
    using k assms by (simp add: mem_read_def)
qed

lemma mem_write_all: "length new = length bs \<Longrightarrow> mem_write 0 new bs = new"
  by (simp add: mem_write_def)

lemma mem_write_adjacent:
  assumes "off + length xs + length ys \<le> length bs"
  shows "mem_write (off + length xs) ys (mem_write off xs bs) = mem_write off (xs @ ys) bs"
  using assms by (simp add: mem_write_def ac_simps)

lemma mem_read_append_left [simp]: "n = length xs \<Longrightarrow> mem_read 0 n (xs @ ys) = xs"
  by (simp add: mem_read_def)

lemma mem_read_append_right: "off = length xs \<Longrightarrow> mem_read off n (xs @ ys) = take n ys"
  by (simp add: mem_read_def)

section \<open>Words as counts\<close>

lemma sint_nonneg_unat:
  assumes "0 \<le> sint (w :: int64)"
  shows "sint w = int (unat w)"
proof -
  have "sint w < 2 ^ 63" using sint_lt [of w] by simp
  with assms have "take_bit 64 (sint w) = sint w" by (simp add: take_bit_int_eq_self)
  then have "uint w = sint w" by (simp add: uint_sint)
  then show ?thesis by simp
qed

lemma unat_nonneg_less:
  assumes "0 \<le> sint (w :: int64)"
  shows "unat w < 2 ^ 63"
proof -
  have "unat w = nat (sint w)" using sint_nonneg_unat [OF assms] by (metis nat_int)
  moreover have "sint w < 2 ^ 63" using sint_lt [of w] by simp
  ultimately show ?thesis by (simp add: nat_less_iff)
qed

lemma unat_byte_less: "unat (b :: byte) < 256"
  using unsigned_less [of b, where 'a = nat] by simp

lemma unat_int64_less: "unat (w :: int64) < 2 ^ 64"
  using unsigned_less [of w, where 'a = nat] by simp

lemma unat_int64_of_nat [simp]: "n < 2 ^ 63 \<Longrightarrow> unat (of_nat n :: int64) = n"
  by (simp add: unat_of_nat take_bit_nat_eq_self)

lemma int64_of_nat_nonzero:
  assumes "n < 2 ^ 31" and "0 < n"
  shows "(of_nat n :: int64) \<noteq> 0"
proof -
  have "unat (of_nat n :: int64) = n" using assms(1) by (intro unat_int64_of_nat) simp
  with assms(2) show ?thesis by (metis less_irrefl unsigned_0)
qed

lemma sint_int64_of_nat [simp]: "n < 2 ^ 63 \<Longrightarrow> sint (of_nat n :: int64) = int n"
proof -
  assume n: "n < 2 ^ 63"
  have "sint (of_nat n :: int64) = sint (word_of_int (int n) :: int64)" by simp
  also have "\<dots> = signed_take_bit 63 (int n)" by (subst sint_sbintrunc') simp
  also have "\<dots> = int n" using n by (intro signed_take_bit_int_eq_self) auto
  finally show ?thesis .
qed

lemma sint_nonneg_iff: "0 \<le> sint (w :: int64) \<longleftrightarrow> unat w < 2 ^ 63"
  using unat_nonneg_less sint_int64_of_nat [of "unat w"] by auto

end
