(* ===== verification/ByteRegion.thy ===== *)
theory ByteRegion
  imports SidebandPrelude
begin

text \<open>
  The int64 length prefix as bytes in memory (\<open>*reinterpret_cast<int64_t*>(ptr)\<close> on a little-endian
  machine), and the interface \<open>byte_region\<close>: a piece of memory that can be read and written at
  an offset. Inside it stands, once, the argument that a length-prefixed message written as
  "eight bytes of length at 0, payload at 8" is read back as it was written. The buffers of the
  program provide the interface: the plain heap buffer here, the mapped shared memory in
  \<^verbatim>\<open>PosixShm\<close>.
\<close>

section \<open>The int64 length prefix\<close>

fun le_bytes_nat :: "nat \<Rightarrow> nat \<Rightarrow> byte list" where
  "le_bytes_nat 0 n = []"
| "le_bytes_nat (Suc k) n = of_nat n # le_bytes_nat k (n div 256)"

fun le_nat :: "byte list \<Rightarrow> nat" where
  "le_nat [] = 0"
| "le_nat (b # bs) = unat b + 256 * le_nat bs"

definition int64_bytes :: "int64 \<Rightarrow> byte list" where
  "int64_bytes w = le_bytes_nat 8 (unat w)"

definition bytes_int64 :: "byte list \<Rightarrow> int64" where
  "bytes_int64 bs = of_nat (le_nat bs)"

text \<open>\<open>sizeof(int64_t)\<close>\<close>

definition sizeof_int64 :: nat where
  "sizeof_int64 = 8"

section \<open>Memory that can be read and written at an offset\<close>

locale byte_region =
  fixes rd :: "'m \<Rightarrow> nat \<Rightarrow> nat \<Rightarrow> stop + byte list"
    and wr :: "'m \<Rightarrow> nat \<Rightarrow> byte list \<Rightarrow> stop + 'm"
    and sz :: "'m \<Rightarrow> nat"
  assumes wr_ok: "off + length bs \<le> sz m \<Longrightarrow> \<exists>m'. wr m off bs = Inr m'"
    and wr_sz: "wr m off bs = Inr m' \<Longrightarrow> sz m' = sz m"
    and wr_bound: "wr m off bs = Inr m' \<Longrightarrow> off + length bs \<le> sz m"
    and rd_written: "wr m off bs = Inr m' \<Longrightarrow> rd m' off (length bs) = Inr bs"
    and rd_elsewhere: "wr m off bs = Inr m' \<Longrightarrow> i + n \<le> off \<or> off + length bs \<le> i \<Longrightarrow>
      i + n \<le> sz m \<Longrightarrow> rd m' i n = rd m i n"
begin

text \<open>Two adjacent writes: both pieces are there afterwards.\<close>

lemma rd_two_writes:
  assumes w1: "wr m off xs = Inr m1" and w2: "wr m1 (off + length xs) ys = Inr m2"
  shows "rd m2 off (length xs) = Inr xs" and "rd m2 (off + length xs) (length ys) = Inr ys"
proof -
  have "rd m2 off (length xs) = rd m1 off (length xs)"
    using rd_elsewhere [OF w2, of off "length xs"] wr_bound [OF w1] wr_sz [OF w1] by simp
  then show "rd m2 off (length xs) = Inr xs" using rd_written [OF w1] by simp
  show "rd m2 (off + length xs) (length ys) = Inr ys" by (rule rd_written [OF w2])
qed

end

section \<open>The codec\<close>

lemma length_le_bytes_nat [simp]: "length (le_bytes_nat k n) = k"
  by (induction k arbitrary: n) auto

lemma le_nat_le_bytes_nat: "le_nat (le_bytes_nat k n) = n mod 256 ^ k"
proof (induction k arbitrary: n)
  case 0
  then show ?case by simp
next
  case (Suc k)
  have "unat (of_nat n :: byte) = n mod 256"
    by (simp add: unat_of_nat take_bit_eq_mod)
  then show ?case
    by (simp add: Suc.IH mod_mult2_eq)
qed

lemma le_nat_less: "le_nat bs < 256 ^ length bs"
proof (induction bs)
  case Nil
  then show ?case by simp
next
  case (Cons b bs)
  have "unat b < 256" by (rule unat_byte_less)
  with Cons show ?case by simp
qed

lemma le_bytes_nat_le_nat: "le_bytes_nat (length bs) (le_nat bs) = bs"
proof (induction bs)
  case Nil
  then show ?case by simp
next
  case (Cons b bs)
  have b: "unat b < 256" by (rule unat_byte_less)
  then have "(unat b + 256 * le_nat bs) div 256 = le_nat bs" by simp
  moreover have "(of_nat (unat b + 256 * le_nat bs) :: byte) = b"
  proof -
    have "(of_nat (unat b + 256 * le_nat bs) :: byte) = of_nat (unat b)"
      by (simp only: word_of_nat_eq_iff) (simp add: take_bit_eq_mod)
    then show ?thesis by simp
  qed
  ultimately show ?case using Cons.IH by (simp del: of_nat_add of_nat_mult)
qed

lemma length_int64_bytes [simp]: "length (int64_bytes w) = sizeof_int64"
  by (simp add: int64_bytes_def sizeof_int64_def)

lemma bytes_int64_inverse [simp]: "bytes_int64 (int64_bytes w) = w"
proof -
  have "unat w < 2 ^ 64" by (rule unat_int64_less)
  then have "unat w mod 256 ^ 8 = unat w" by simp
  then show ?thesis
    by (simp add: bytes_int64_def int64_bytes_def le_nat_le_bytes_nat)
qed

lemma int64_bytes_inverse:
  assumes "length bs = sizeof_int64"
  shows "int64_bytes (bytes_int64 bs) = bs"
proof -
  have l: "length bs = 8" using assms by (simp add: sizeof_int64_def)
  then have "le_nat bs < 2 ^ 64" using le_nat_less [of bs] by simp
  then have "unat (bytes_int64 bs) = le_nat bs"
    by (simp add: bytes_int64_def unat_of_nat take_bit_nat_eq_self)
  then show ?thesis
    using le_bytes_nat_le_nat [of bs] l by (simp add: int64_bytes_def)
qed

lemma int64_bytes_inj: "int64_bytes v = int64_bytes w \<Longrightarrow> v = w"
  by (metis bytes_int64_inverse)

section \<open>A heap buffer is a byte region\<close>

text \<open>
  The storage of a \<open>std::vector<uint8_t>\<close> or of a region handed out by a library: reading or
  writing outside it is undefined behaviour, which the model reports as \<^const>\<open>BadAccess\<close>.
\<close>

definition buf_read :: "byte list \<Rightarrow> nat \<Rightarrow> nat \<Rightarrow> stop + byte list" where
  "buf_read m off n = (if off + n \<le> length m then Inr (mem_read off n m) else Inl BadAccess)"

definition buf_write :: "byte list \<Rightarrow> nat \<Rightarrow> byte list \<Rightarrow> stop + byte list" where
  "buf_write m off bs =
     (if off + length bs \<le> length m then Inr (mem_write off bs m) else Inl BadAccess)"

interpretation heap_buffer: byte_region buf_read buf_write length
proof unfold_locales
qed (auto simp: buf_read_def buf_write_def memory_simps split: if_splits)

lemma buf_write_InrD:
  "buf_write m off bs = Inr m' \<Longrightarrow> m' = mem_write off bs m \<and> off + length bs \<le> length m"
  by (simp add: buf_write_def split: if_splits)

end
