(* ===== verification/PosixShm.thy ===== *)
theory PosixShm
  imports ByteRegion
begin

text \<open>
  The POSIX calls that \<^verbatim>\<open>src/sideband_shared_memory.cc\<close> makes on Linux (\<open>shm_open\<close>,
  \<open>ftruncate\<close>, \<open>mmap\<close>, \<open>munmap\<close>, \<open>shm_unlink\<close>) and memory accesses through the pointers
  they return. The state is shared by all processes of the machine: names refer to objects,
  descriptors and mappings refer to objects, and an object outlives its name while it is mapped.
  Every call can fail: descriptors, object sizes and address space are limited.
\<close>

section \<open>State\<close>

text \<open>
  A pointer is a raw address that nothing is mapped at (\<open>nullptr\<close>, \<open>MAP_FAILED\<close>, or either plus a
  small offset), or an offset into a mapping.
\<close>

datatype ptr = PRaw int64 | PMap nat nat

abbreviation nullptr :: ptr where
  "nullptr \<equiv> PRaw 0"

abbreviation MAP_FAILED :: ptr where
  "MAP_FAILED \<equiv> PRaw (- 1)"

fun ptr_plus :: "ptr \<Rightarrow> nat \<Rightarrow> ptr" where
  "ptr_plus (PRaw a) k = PRaw (a + of_nat k)"
| "ptr_plus (PMap m off) k = PMap m (off + k)"

record shm_mapping =
  mp_obj :: nat
  mp_first :: nat \<comment> \<open>first byte that is still mapped\<close>
  mp_len :: nat

record posix_shm =
  px_names :: "string \<rightharpoonup> nat"
  px_objs :: "nat \<rightharpoonup> byte list"
  px_fds :: "int \<rightharpoonup> nat"
  px_maps :: "nat \<rightharpoonup> shm_mapping"
  px_fresh :: nat
  px_next_fd :: nat
  px_fd_limit :: nat
  px_size_limit :: nat
  px_vm_limit :: nat

definition posix_init :: "nat \<Rightarrow> nat \<Rightarrow> nat \<Rightarrow> posix_shm" where
  "posix_init fds sizes vm = \<lparr>px_names = Map.empty, px_objs = Map.empty, px_fds = Map.empty,
     px_maps = Map.empty, px_fresh = 0, px_next_fd = 3, px_fd_limit = fds, px_size_limit = sizes,
     px_vm_limit = vm\<rparr>"

section \<open>Calls\<close>

text \<open>A name has one leading slash, no other, and at most 255 further characters.\<close>

definition valid_shm_name :: "string \<Rightarrow> bool" where
  "valid_shm_name name \<longleftrightarrow> (case name of [] \<Rightarrow> False
     | c # cs \<Rightarrow> c = CHR ''/'' \<and> cs \<noteq> [] \<and> CHR ''/'' \<notin> set cs \<and> length cs \<le> 255)"

text \<open>\<open>shm_open(name, O_CREAT | O_RDWR, \<dots>)\<close>\<close>

definition shm_open :: "string \<Rightarrow> posix_shm \<Rightarrow> int \<times> posix_shm" where
  "shm_open name px =
     (if \<not> valid_shm_name name \<or> px_fd_limit px \<le> px_next_fd px then (- 1, px)
      else let fd = int (px_next_fd px) in
        case px_names px name of
          Some ob \<Rightarrow> (fd, px\<lparr>px_fds := (px_fds px)(fd \<mapsto> ob), px_next_fd := Suc (px_next_fd px)\<rparr>)
        | None \<Rightarrow>
            (fd, px\<lparr>px_names := (px_names px)(name \<mapsto> px_fresh px),
               px_objs := (px_objs px)(px_fresh px \<mapsto> []),
               px_fds := (px_fds px)(fd \<mapsto> px_fresh px),
               px_fresh := Suc (px_fresh px), px_next_fd := Suc (px_next_fd px)\<rparr>))"

definition resize :: "nat \<Rightarrow> byte list \<Rightarrow> byte list" where
  "resize n bs = take n bs @ replicate (n - length bs) 0"

definition ftruncate :: "int \<Rightarrow> int64 \<Rightarrow> posix_shm \<Rightarrow> int \<times> posix_shm" where
  "ftruncate fd len px =
     (case px_fds px fd of
        None \<Rightarrow> (- 1, px)
      | Some ob \<Rightarrow>
          (case px_objs px ob of
             None \<Rightarrow> (- 1, px)
           | Some bs \<Rightarrow>
               if sint len < 0 \<or> int (px_size_limit px) < sint len then (- 1, px)
               else (0, px\<lparr>px_objs := (px_objs px)(ob \<mapsto> resize (unat len) bs)\<rparr>)))"

text \<open>\<open>mmap(NULL, len, PROT_READ | PROT_WRITE, MAP_SHARED, fd, 0)\<close>\<close>

definition mmap :: "int64 \<Rightarrow> int \<Rightarrow> posix_shm \<Rightarrow> ptr \<times> posix_shm" where
  "mmap len fd px =
     (case px_fds px fd of
        None \<Rightarrow> (MAP_FAILED, px)
      | Some ob \<Rightarrow>
          if len = 0 \<or> px_vm_limit px < unat len then (MAP_FAILED, px)
          else (PMap (px_fresh px) 0,
                px\<lparr>px_maps := (px_maps px)(px_fresh px \<mapsto>
                     \<lparr>mp_obj = ob, mp_first = 0, mp_len = unat len\<rparr>),
                   px_fresh := Suc (px_fresh px)\<rparr>))"

definition page_size :: nat where
  "page_size = 4096"

text \<open>Whole pages are unmapped: those that the \<open>n\<close> bytes touch.\<close>

definition munmap :: "ptr \<Rightarrow> nat \<Rightarrow> posix_shm \<Rightarrow> posix_shm" where
  "munmap p n px =
     (case p of
        PMap m 0 \<Rightarrow>
          (case px_maps px m of
             None \<Rightarrow> px
           | Some mp \<Rightarrow>
               let unmapped = page_size * ((n + page_size - 1) div page_size) in
               if mp_len mp \<le> unmapped then px\<lparr>px_maps := (px_maps px)(m := None)\<rparr>
               else px\<lparr>px_maps := (px_maps px)(m \<mapsto> mp\<lparr>mp_first := max (mp_first mp) unmapped\<rparr>)\<rparr>)
      | _ \<Rightarrow> px)"

definition shm_unlink :: "string \<Rightarrow> posix_shm \<Rightarrow> posix_shm" where
  "shm_unlink name px = px\<lparr>px_names := (px_names px)(name := None)\<rparr>"

section \<open>Access through pointers\<close>

text \<open>
  How many bytes from its start a mapping gives access to: not beyond its length and not beyond the
  end of the object, which another process may have made shorter. A partly unmapped mapping gives
  access to nothing.
\<close>

definition region_size :: "nat \<Rightarrow> posix_shm \<Rightarrow> nat" where
  "region_size m px =
     (case px_maps px m of
        None \<Rightarrow> 0
      | Some mp \<Rightarrow>
          (case px_objs px (mp_obj mp) of
             None \<Rightarrow> 0
           | Some bs \<Rightarrow> if mp_first mp = 0 then min (mp_len mp) (length bs) else 0))"

definition region_bytes :: "nat \<Rightarrow> posix_shm \<Rightarrow> byte list" where
  "region_bytes m px =
     (case px_maps px m of
        None \<Rightarrow> []
      | Some mp \<Rightarrow> (case px_objs px (mp_obj mp) of None \<Rightarrow> [] | Some bs \<Rightarrow> bs))"

definition shm_read :: "nat \<Rightarrow> posix_shm \<Rightarrow> nat \<Rightarrow> nat \<Rightarrow> stop + byte list" where
  "shm_read m px off n =
     (if off + n \<le> region_size m px then Inr (mem_read off n (region_bytes m px))
      else Inl BadAccess)"

definition shm_write :: "nat \<Rightarrow> posix_shm \<Rightarrow> nat \<Rightarrow> byte list \<Rightarrow> stop + posix_shm" where
  "shm_write m px off bs =
     (if off + length bs \<le> region_size m px
      then case px_maps px m of
             None \<Rightarrow> Inr px
           | Some mp \<Rightarrow> Inr (px\<lparr>px_objs := (px_objs px)
               (mp_obj mp \<mapsto> mem_write off bs (region_bytes m px))\<rparr>)
      else Inl BadAccess)"

definition ptr_read :: "posix_shm \<Rightarrow> ptr \<Rightarrow> nat \<Rightarrow> stop + byte list" where
  "ptr_read px p n =
     (case p of
        PRaw a \<Rightarrow> Inl (if a = 0 then NullPointer else BadAccess)
      | PMap m off \<Rightarrow> shm_read m px off n)"

definition ptr_write :: "posix_shm \<Rightarrow> ptr \<Rightarrow> byte list \<Rightarrow> stop + posix_shm" where
  "ptr_write px p bs =
     (case p of
        PRaw a \<Rightarrow> Inl (if a = 0 then NullPointer else BadAccess)
      | PMap m off \<Rightarrow> shm_write m px off bs)"

text \<open>
  \<open>memcpy\<close> into and out of mapped memory; the other side is a buffer of the caller, given by the
  bytes it holds. The count is the signed 64-bit count of the caller converted to \<open>size_t\<close>.
\<close>

definition memcpy_to :: "posix_shm \<Rightarrow> ptr \<Rightarrow> byte list \<Rightarrow> int64 \<Rightarrow> stop + posix_shm" where
  "memcpy_to px p src n =
     (if length src < unat n then Inl BadAccess else ptr_write px p (take (unat n) src))"

definition memcpy_from :: "posix_shm \<Rightarrow> byte list \<Rightarrow> ptr \<Rightarrow> int64 \<Rightarrow> stop + byte list" where
  "memcpy_from px dst p n =
     (if length dst < unat n then Inl BadAccess
      else andThen (ptr_read px p (unat n)) (\<lambda>bs. Inr (mem_write 0 bs dst)))"

section \<open>A mapping is a byte region\<close>

lemma region_size_le: "region_size m px \<le> length (region_bytes m px)"
  by (simp add: region_size_def region_bytes_def split: option.splits)

lemma shm_write_objs:
  assumes "shm_write m px off bs = Inr px'" and "px_maps px m = Some mp"
    and "px_objs px (mp_obj mp) = Some old"
  shows "px' = px\<lparr>px_objs := (px_objs px)(mp_obj mp \<mapsto> mem_write off bs old)\<rparr>"
  using assms by (auto simp: shm_write_def region_bytes_def split: if_splits)

lemma shm_write_maps: "shm_write m px off bs = Inr px' \<Longrightarrow> px_maps px' = px_maps px"
  by (auto simp: shm_write_def split: if_splits option.splits)

lemma shm_write_frame:
  assumes "shm_write m px off bs = Inr px'"
  shows "px_maps px' = px_maps px \<and> px_names px' = px_names px \<and> px_fds px' = px_fds px \<and>
    px_fresh px' = px_fresh px \<and> px_next_fd px' = px_next_fd px \<and>
    px_fd_limit px' = px_fd_limit px \<and> px_size_limit px' = px_size_limit px \<and>
    px_vm_limit px' = px_vm_limit px"
  using assms by (auto simp: shm_write_def split: if_splits option.splits)

lemma shm_write_region:
  assumes "shm_write m px off bs = Inr px'"
  shows "region_size m px' = region_size m px"
    and "off + length bs \<le> region_size m px"
    and "px_maps px m \<noteq> None \<Longrightarrow> region_bytes m px' = mem_write off bs (region_bytes m px)"
proof -
  show b: "off + length bs \<le> region_size m px"
    using assms by (simp add: shm_write_def split: if_splits)
  then have "off + length bs \<le> length (region_bytes m px)"
    using region_size_le [of m px] by simp
  then show "region_size m px' = region_size m px"
    using assms b
    by (auto simp: shm_write_def region_size_def region_bytes_def memory_simps split: option.splits)
  show "px_maps px m \<noteq> None \<Longrightarrow> region_bytes m px' = mem_write off bs (region_bytes m px)"
    using assms b by (auto simp: shm_write_def region_bytes_def)
qed

interpretation mapping: byte_region "shm_read m" "shm_write m" "region_size m" for m
proof unfold_locales
  fix off px and bs :: "byte list"
  assume "off + length bs \<le> region_size m px"
  then show "\<exists>px'. shm_write m px off bs = Inr px'"
    by (auto simp: shm_write_def split: option.splits)
next
  fix px off bs px'
  assume w: "shm_write m px off bs = Inr px'"
  note same = shm_write_region(1) [OF w] and bound = shm_write_region(2) [OF w]
  show "region_size m px' = region_size m px" by (rule same)
  show "off + length bs \<le> region_size m px" by (rule bound)
  have len: "off + length bs \<le> length (region_bytes m px)"
    using bound region_size_le [of m px] by simp
  show "shm_read m px' off (length bs) = Inr bs"
  proof (cases "px_maps px m")
    case None
    then have "bs = []" and "off = 0" using bound by (simp_all add: region_size_def)
    then show ?thesis by (simp add: shm_read_def mem_read_def)
  next
    case (Some mp)
    then show ?thesis
      using shm_write_region(3) [OF w] same bound len by (simp add: shm_read_def memory_simps)
  qed
  fix i n
  assume apart: "i + n \<le> off \<or> off + length bs \<le> i" and inside: "i + n \<le> region_size m px"
  show "shm_read m px' i n = shm_read m px i n"
  proof (cases "px_maps px m")
    case None
    then show ?thesis using w by (auto simp: shm_write_def split: if_splits)
  next
    case (Some mp)
    have "i + n \<le> length (region_bytes m px)" using inside region_size_le [of m px] by simp
    then show ?thesis
      using Some shm_write_region(3) [OF w] same inside len apart
      by (simp add: shm_read_def memory_simps)
  qed
qed

section \<open>Well-formed machines\<close>

text \<open>
  Every name, descriptor and mapping refers to an object that exists, no object has two names, and identifiers and
  descriptors that are handed out next are not in use.
\<close>

definition wf_posix :: "posix_shm \<Rightarrow> bool" where
  "wf_posix px \<longleftrightarrow>
     (\<forall>name ob. px_names px name = Some ob \<longrightarrow> ob \<in> dom (px_objs px)) \<and>
     (\<forall>n1 n2 ob. px_names px n1 = Some ob \<longrightarrow> px_names px n2 = Some ob \<longrightarrow> n1 = n2) \<and>
     (\<forall>fd ob. px_fds px fd = Some ob \<longrightarrow> ob \<in> dom (px_objs px)) \<and>
     (\<forall>m mp. px_maps px m = Some mp \<longrightarrow> mp_obj mp \<in> dom (px_objs px)) \<and>
     (\<forall>ob. ob \<in> dom (px_objs px) \<longrightarrow> ob < px_fresh px) \<and>
     (\<forall>m. m \<in> dom (px_maps px) \<longrightarrow> m < px_fresh px) \<and>
     (\<forall>fd. fd \<in> dom (px_fds px) \<longrightarrow> fd < int (px_next_fd px))"

lemma wf_posix_names:
  assumes "wf_posix px"
  shows "px_names px n = Some ob \<Longrightarrow> \<exists>bs. px_objs px ob = Some bs"
    and "px_names px n = Some ob \<Longrightarrow> ob < px_fresh px"
    and "px_names px n \<noteq> Some (px_fresh px)"
    and "px_names px n = Some ob \<Longrightarrow> px_names px n' = Some ob \<Longrightarrow> n = n'"
proof -
  have dom: "\<forall>n ob. px_names px n = Some ob \<longrightarrow> ob \<in> dom (px_objs px)"
    and less: "\<forall>ob. ob \<in> dom (px_objs px) \<longrightarrow> ob < px_fresh px"
    and inj: "\<forall>n1 n2 ob. px_names px n1 = Some ob \<longrightarrow> px_names px n2 = Some ob \<longrightarrow> n1 = n2"
    using assms unfolding wf_posix_def by auto
  show "px_names px n = Some ob \<Longrightarrow> \<exists>bs. px_objs px ob = Some bs" using dom by blast
  show "px_names px n = Some ob \<Longrightarrow> ob < px_fresh px" using dom less by metis
  then show "px_names px n \<noteq> Some (px_fresh px)" using dom less by (metis less_irrefl)
  show "px_names px n = Some ob \<Longrightarrow> px_names px n' = Some ob \<Longrightarrow> n = n'" using inj by metis
qed

lemma wf_posix_maps:
  assumes "wf_posix px"
  shows "px_maps px m = Some mp \<Longrightarrow> m < px_fresh px"
    and "px_maps px m = Some mp \<Longrightarrow> \<exists>bs. px_objs px (mp_obj mp) = Some bs"
    and "px_objs px ob = Some bs \<Longrightarrow> ob < px_fresh px"
proof -
  have d: "\<forall>m. m \<in> dom (px_maps px) \<longrightarrow> m < px_fresh px"
    and o: "\<forall>m mp. px_maps px m = Some mp \<longrightarrow> mp_obj mp \<in> dom (px_objs px)"
    and f: "\<forall>ob. ob \<in> dom (px_objs px) \<longrightarrow> ob < px_fresh px"
    using assms unfolding wf_posix_def by auto
  show "px_maps px m = Some mp \<Longrightarrow> m < px_fresh px" using d by blast
  show "px_maps px m = Some mp \<Longrightarrow> \<exists>bs. px_objs px (mp_obj mp) = Some bs" using o by blast
  show "px_objs px ob = Some bs \<Longrightarrow> ob < px_fresh px" using f by blast
qed

named_theorems wf_posix_intros "calls keep the machine well formed"

lemma wf_posix_init [wf_posix_intros]: "wf_posix (posix_init fds sizes vm)"
  by (simp add: wf_posix_def posix_init_def)

lemma wf_shm_open [wf_posix_intros]: "wf_posix px \<Longrightarrow> wf_posix (snd (shm_open name px))"
proof -
  assume wf: "wf_posix px"
  note unused = wf_posix_names(3) [OF wf]
  show ?thesis
  proof (cases "px_names px name")
    case None
    with wf show ?thesis
      unfolding wf_posix_def shm_open_def
      by (simp add: Let_def) (auto simp: less_Suc_eq unused)
  next
    case (Some ob)
    with wf show ?thesis
      unfolding wf_posix_def shm_open_def by (simp add: Let_def) (auto simp: less_Suc_eq)
  qed
qed

lemma wf_ftruncate [wf_posix_intros]: "wf_posix px \<Longrightarrow> wf_posix (snd (ftruncate fd len px))"
  unfolding wf_posix_def ftruncate_def by (auto split: option.splits if_splits)

lemma wf_mmap [wf_posix_intros]: "wf_posix px \<Longrightarrow> wf_posix (snd (mmap len fd px))"
  unfolding wf_posix_def mmap_def
  by (auto simp: less_Suc_eq split: option.splits if_splits)

lemma wf_munmap [wf_posix_intros]: "wf_posix px \<Longrightarrow> wf_posix (munmap p n px)"
  unfolding wf_posix_def munmap_def
  by (auto simp: Let_def split: ptr.splits nat.splits option.splits if_splits)

lemma wf_shm_unlink [wf_posix_intros]: "wf_posix px \<Longrightarrow> wf_posix (shm_unlink name px)"
  unfolding wf_posix_def shm_unlink_def by (auto split: if_splits)

lemma wf_shm_write [wf_posix_intros]:
  "shm_write m px off bs = Inr px' \<Longrightarrow> wf_posix px \<Longrightarrow> wf_posix px'"
proof -
  assume w: "shm_write m px off bs = Inr px'" and wf: "wf_posix px"
  have "mp_obj mp \<in> dom (px_objs px)" if "px_maps px m = Some mp" for mp
    using wf that unfolding wf_posix_def by blast
  then have "dom (px_objs px') = dom (px_objs px)"
    using w by (auto simp: shm_write_def split: option.splits if_splits)
  then show ?thesis using wf shm_write_frame [OF w] unfolding wf_posix_def by simp
qed

lemma wf_ptr_write [wf_posix_intros]:
  "ptr_write px p bs = Inr px' \<Longrightarrow> wf_posix px \<Longrightarrow> wf_posix px'"
  by (auto simp: ptr_write_def split: ptr.splits if_splits intro: wf_shm_write)

lemma wf_memcpy_to [wf_posix_intros]:
  "memcpy_to px p src n = Inr px' \<Longrightarrow> wf_posix px \<Longrightarrow> wf_posix px'"
  by (auto simp: memcpy_to_def split: if_splits intro: wf_ptr_write)

section \<open>Bytes by name\<close>

text \<open>
  The contents that a name leads to; a name that does not exist yet leads to an empty object. One
  successful \<open>shm_open\<close>, \<open>ftruncate\<close>, \<open>mmap\<close> sequence gives a mapping of the named object at
  the wanted size and leaves every other object, name and mapping alone.
\<close>

definition named_bytes :: "posix_shm \<Rightarrow> string \<Rightarrow> byte list" where
  "named_bytes px name =
     (case px_names px name of
        None \<Rightarrow> []
      | Some ob \<Rightarrow> (case px_objs px ob of None \<Rightarrow> [] | Some bs \<Rightarrow> bs))"

lemma length_resize [simp]: "length (resize n bs) = n"
  by (simp add: resize_def)

lemma resize_id [simp]: "length bs = n \<Longrightarrow> resize n bs = bs"
  by (simp add: resize_def)

lemma region_size_intact:
  assumes "px_maps px m = Some \<lparr>mp_obj = ob, mp_first = 0, mp_len = n\<rparr>"
    and "px_objs px ob = Some bs" and "length bs = n"
  shows "region_size m px = n" and "region_bytes m px = bs"
  using assms by (simp_all add: region_size_def region_bytes_def)

section \<open>Two mappings of one object\<close>

text \<open>
  What one process writes through its mapping is what the other process reads through its own,
  as far as both reach.
\<close>

lemma shm_read_alias:
  assumes "px_maps px m = Some mp" and "px_maps px m' = Some mp'" and "mp_obj mp = mp_obj mp'"
    and "shm_read m px off n = Inr bs" and "off + n \<le> region_size m' px"
  shows "shm_read m' px off n = Inr bs"
  using assms by (simp add: shm_read_def region_bytes_def split: if_splits)

lemma shm_write_region_other:
  assumes w: "shm_write m px off bs = Inr px'"
  shows "region_size m' px' = region_size m' px"
proof -
  have "off + length bs \<le> length (region_bytes m px)"
    using shm_write_region(2) [OF w] region_size_le [of m px] by simp
  then show ?thesis
    using w by (auto simp: shm_write_def region_size_def region_bytes_def memory_simps
        split: if_splits option.splits)
qed

lemma shm_read_other_object:
  assumes "shm_write m px off bs = Inr px'" and "px_maps px m = Some mp"
    and "px_maps px m' = Some mp'" and "mp_obj mp \<noteq> mp_obj mp'"
  shows "shm_read m' px' i n = shm_read m' px i n"
proof -
  have "region_bytes m' px' = region_bytes m' px"
    using assms by (auto simp: shm_write_def region_bytes_def split: if_splits)
  then show ?thesis
    using shm_write_region_other [OF assms(1), of m'] by (simp add: shm_read_def)
qed

end
