(* ===== verification/SidebandBase.thy ===== *)
theory SidebandBase
  imports SidebandPrelude
begin

text \<open>
  The base class \<open>SidebandData\<close> (\<^verbatim>\<open>src/sideband_internal.h\<close>, \<^verbatim>\<open>src/sideband_data.cc\<close>):
  the fields every transport inherits, as an extensible record that the transports extend the way
  the C++ classes do, the lazily allocated serialisation buffer, and the enumeration of
  strategies.
\<close>

datatype SidebandStrategy =
  UNKNOWN | GRPC | SHARED_MEMORY | DOUBLE_BUFFERED_SHARED_MEMORY | SOCKETS
| SOCKETS_LOW_LATENCY | HYPERVISOR_SOCKETS | RDMA | RDMA_LOW_LATENCY

record SidebandData =
  sd_bufferSize :: int64
  sd_serializeBuffer :: "byte list"

text \<open>The constructor; the vector starts empty.\<close>

definition SidebandData_new :: "int64 \<Rightarrow> SidebandData" where
  "SidebandData_new bufferSize = \<lparr>sd_bufferSize = bufferSize, sd_serializeBuffer = []\<rparr>"

text \<open>
  \<open>std::vector<uint8_t>(n)\<close>: \<open>n\<close> zero bytes; more than \<open>max_size()\<close> elements, which is what a
  negative size becomes as a \<open>size_t\<close>, is a \<open>length_error\<close>.
\<close>

definition vector_max_size :: nat where
  "vector_max_size = 2 ^ 63 - 1"

definition new_vector :: "int64 \<Rightarrow> stop + byte list" where
  "new_vector n =
     (if vector_max_size < unat n then Inl (Throws ''length_error'')
      else Inr (replicate (unat n) 0))"

definition SerializeBuffer :: "'a SidebandData_scheme \<Rightarrow> stop + 'a SidebandData_scheme" where
  "SerializeBuffer sd =
     (if length (sd_serializeBuffer sd) = 0
      then andThen (new_vector (sd_bufferSize sd)) (\<lambda>v. Inr (sd\<lparr>sd_serializeBuffer := v\<rparr>))
      else Inr sd)"

section \<open>The serialisation buffer\<close>

text \<open>The buffer is allocated at most once, at the size the object was made with.\<close>

definition buffer_allocated :: "'a SidebandData_scheme \<Rightarrow> bool" where
  "buffer_allocated sd \<longleftrightarrow>
     sd_serializeBuffer sd = [] \<or> length (sd_serializeBuffer sd) = unat (sd_bufferSize sd)"

lemma new_vector_cases:
  "new_vector n = Inr v \<longleftrightarrow> 0 \<le> sint n \<and> v = replicate (unat n) 0"
  by (auto simp: new_vector_def vector_max_size_def sint_nonneg_iff)

lemma SerializeBuffer_ok:
  assumes "buffer_allocated sd" and "0 \<le> sint (sd_bufferSize sd)"
  shows "\<exists>sd'. SerializeBuffer sd = Inr sd' \<and> buffer_allocated sd' \<and>
    length (sd_serializeBuffer sd') = unat (sd_bufferSize sd) \<and>
    sd_bufferSize sd' = sd_bufferSize sd"
proof -
  have "new_vector (sd_bufferSize sd) = Inr (replicate (unat (sd_bufferSize sd)) 0)"
    using assms(2) by (simp add: new_vector_cases)
  then show ?thesis
    using assms(1) by (auto simp: SerializeBuffer_def buffer_allocated_def)
qed

end
