(* ===== verification/SharedMemory.thy ===== *)
theory SharedMemory
  imports PosixShm SidebandBase
begin

text \<open>
  \<open>SharedMemorySidebandData\<close> (\<^verbatim>\<open>src/sideband_shared_memory.cc\<close>, Linux branch): one named
  shared-memory object, opened and mapped when a buffer is first needed. Every operation takes the
  object and the state of the machine and returns them changed. Out-parameters are passed in with
  their old value and returned; \<^const>\<open>Inl\<close> is undefined behaviour.
\<close>

section \<open>The class\<close>

record SharedMemorySidebandData = SidebandData +
  shm_mapFD :: int
  shm_fileName :: string
  shm_buffer :: ptr
  shm_id :: string
  shm_usageId :: string
  shm_bufferSize :: int64

definition Shm_new :: "string \<Rightarrow> int64 \<Rightarrow> SharedMemorySidebandData" where
  "Shm_new id0 bufferSize = \<lparr>sd_bufferSize = bufferSize, sd_serializeBuffer = [],
     shm_mapFD = - 1, shm_fileName = '''', shm_buffer = nullptr,
     shm_id = ''TESTBUFFER_'' @ id0, shm_usageId = id0, shm_bufferSize = bufferSize\<rparr>"

definition Shm_delete :: "SharedMemorySidebandData \<Rightarrow> posix_shm \<Rightarrow> posix_shm" where
  "Shm_delete this px =
     (if shm_buffer this \<noteq> nullptr
      then shm_unlink (shm_fileName this) (munmap (shm_buffer this) 8 px)
      else px)"

definition Shm_InitNew :: "int64 \<Rightarrow> SharedMemorySidebandData" where
  "Shm_InitNew bufferSize = Shm_new ''TestBuffer'' bufferSize"

definition Shm_UsageId :: "SharedMemorySidebandData \<Rightarrow> string" where
  "Shm_UsageId this = shm_usageId this"

definition Shm_Init ::
  "SharedMemorySidebandData \<Rightarrow> posix_shm \<Rightarrow> SharedMemorySidebandData \<times> posix_shm" where
  "Shm_Init this px =
     (let fileName = ''/'' @ shm_id this;
          this = this\<lparr>shm_fileName := fileName\<rparr>;
          (fd, px) = shm_open fileName px;
          this = this\<lparr>shm_mapFD := fd\<rparr>
      in if fd = - 1 then (this, px)
         else let (r, px) = ftruncate fd (shm_bufferSize this) px in
           if r = - 1 then (this, shm_unlink fileName px)
           else let (p, px) = mmap (shm_bufferSize this) fd px;
                    this = this\<lparr>shm_buffer := p\<rparr>
                in if p = MAP_FAILED then (this, shm_unlink fileName px) else (this, px))"

definition Shm_GetBuffer ::
  "SharedMemorySidebandData \<Rightarrow> posix_shm \<Rightarrow> ptr \<times> SharedMemorySidebandData \<times> posix_shm" where
  "Shm_GetBuffer this px =
     (let (this, px) = (if shm_buffer this = nullptr then Shm_Init this px else (this, px))
      in (shm_buffer this, this, px))"

section \<open>Reading and writing\<close>

definition Shm_Write :: "SharedMemorySidebandData \<Rightarrow> byte list \<Rightarrow> int64 \<Rightarrow> posix_shm \<Rightarrow>
    stop + (bool \<times> SharedMemorySidebandData \<times> posix_shm)" where
  "Shm_Write this bytes bytecount px =
     (case Shm_GetBuffer this px of (p, this, px) \<Rightarrow>
        if p = nullptr then Inr (False, this, px)
        else andThen (memcpy_to px p bytes bytecount) (\<lambda>px. Inr (True, this, px)))"

definition Shm_Read :: "SharedMemorySidebandData \<Rightarrow> byte list \<Rightarrow> int64 \<Rightarrow> int64 \<Rightarrow> posix_shm \<Rightarrow>
    stop + (bool \<times> byte list \<times> int64 \<times> SharedMemorySidebandData \<times> posix_shm)" where
  "Shm_Read this bytes bufferSize numBytesRead px =
     (case Shm_GetBuffer this px of (p, this, px) \<Rightarrow>
        if p = nullptr then Inr (False, bytes, numBytesRead, this, px)
        else andThen (memcpy_from px bytes p bufferSize)
               (\<lambda>bytes. Inr (True, bytes, numBytesRead, this, px)))"

definition Shm_WriteLengthPrefixed :: "SharedMemorySidebandData \<Rightarrow> byte list \<Rightarrow> int64 \<Rightarrow>
    posix_shm \<Rightarrow> stop + (bool \<times> SharedMemorySidebandData \<times> posix_shm)" where
  "Shm_WriteLengthPrefixed this bytes byteCount px =
     (case Shm_GetBuffer this px of (p, this, px) \<Rightarrow>
        if p = nullptr then Inr (False, this, px)
        else andThen (ptr_write px p (int64_bytes byteCount)) (\<lambda>px.
             andThen (memcpy_to px (ptr_plus p sizeof_int64) bytes byteCount) (\<lambda>px.
             Inr (True, this, px))))"

definition Shm_ReadFromLengthPrefixed :: "SharedMemorySidebandData \<Rightarrow> byte list \<Rightarrow> int64 \<Rightarrow>
    int64 \<Rightarrow> posix_shm \<Rightarrow>
    stop + (bool \<times> byte list \<times> int64 \<times> SharedMemorySidebandData \<times> posix_shm)" where
  "Shm_ReadFromLengthPrefixed this bytes bufferSize numBytesRead px =
     (case Shm_GetBuffer this px of (q, this, px) \<Rightarrow>
        let p = ptr_plus q sizeof_int64 in
        if p = nullptr then Inr (False, bytes, numBytesRead, this, px)
        else andThen (memcpy_from px bytes p bufferSize)
               (\<lambda>bytes. Inr (True, bytes, numBytesRead, this, px)))"

definition Shm_ReadLengthPrefix :: "SharedMemorySidebandData \<Rightarrow> posix_shm \<Rightarrow>
    stop + (int64 \<times> SharedMemorySidebandData \<times> posix_shm)" where
  "Shm_ReadLengthPrefix this px =
     (case Shm_GetBuffer this px of (p, this, px) \<Rightarrow>
        andThen (ptr_read px p sizeof_int64) (\<lambda>bs. Inr (bytes_int64 bs, this, px)))"

section \<open>Direct access\<close>

definition Shm_SupportsDirectReadWrite :: bool where
  "Shm_SupportsDirectReadWrite = True"

definition Shm_BeginDirectRead :: "SharedMemorySidebandData \<Rightarrow> int64 \<Rightarrow> posix_shm \<Rightarrow>
    ptr \<times> SharedMemorySidebandData \<times> posix_shm" where
  "Shm_BeginDirectRead this byteCount px = Shm_GetBuffer this px"

definition Shm_BeginDirectReadLengthPrefixed :: "SharedMemorySidebandData \<Rightarrow> int64 \<Rightarrow>
    posix_shm \<Rightarrow> stop + (ptr \<times> int64 \<times> SharedMemorySidebandData \<times> posix_shm)" where
  "Shm_BeginDirectReadLengthPrefixed this bufferSize px =
     (case Shm_GetBuffer this px of (p, this, px) \<Rightarrow>
        if p = nullptr then Inr (nullptr, bufferSize, this, px)
        else andThen (ptr_read px p sizeof_int64) (\<lambda>bs.
             Inr (ptr_plus p sizeof_int64, bytes_int64 bs, this, px)))"

definition Shm_FinishDirectRead :: "SharedMemorySidebandData \<Rightarrow> bool" where
  "Shm_FinishDirectRead this = True"

definition Shm_BeginDirectWrite :: "SharedMemorySidebandData \<Rightarrow> posix_shm \<Rightarrow>
    ptr \<times> SharedMemorySidebandData \<times> posix_shm" where
  "Shm_BeginDirectWrite this px = Shm_GetBuffer this px"

definition Shm_FinishDirectWrite :: "SharedMemorySidebandData \<Rightarrow> int64 \<Rightarrow> bool" where
  "Shm_FinishDirectWrite this byteCount = True"

section \<open>The object as a view of named bytes\<close>

definition Shm_path :: "SharedMemorySidebandData \<Rightarrow> string" where
  "Shm_path this = ''/'' @ shm_id this"

abbreviation Shm_len :: "SharedMemorySidebandData \<Rightarrow> nat" where
  "Shm_len this \<equiv> unat (shm_bufferSize this)"

text \<open>
  What the object stands for: the bytes of the shared-memory object of its name, at its size. Two
  objects made with the same name and size, in whatever process, have the same view.
\<close>

definition Shm_view :: "SharedMemorySidebandData \<Rightarrow> posix_shm \<Rightarrow> byte list" where
  "Shm_view this px = resize (Shm_len this) (named_bytes px (Shm_path this))"

definition Shm_attached :: "SharedMemorySidebandData \<Rightarrow> posix_shm \<Rightarrow> bool" where
  "Shm_attached this px \<longleftrightarrow>
     (\<exists>m ob bs. shm_buffer this = PMap m 0 \<and> shm_fileName this = Shm_path this \<and>
        px_names px (Shm_path this) = Some ob \<and>
        px_maps px m = Some \<lparr>mp_obj = ob, mp_first = 0, mp_len = Shm_len this\<rparr> \<and>
        px_objs px ob = Some bs \<and> length bs = Shm_len this)"

text \<open>
  An object is ready when it is attached, or not yet mapped while the machine has what mapping it
  takes (\<open>k\<close> is the number of descriptors still to be had).
\<close>

definition Shm_openable :: "nat \<Rightarrow> SharedMemorySidebandData \<Rightarrow> posix_shm \<Rightarrow> bool" where
  "Shm_openable k this px \<longleftrightarrow> valid_shm_name (Shm_path this) \<and>
     px_next_fd px + k \<le> px_fd_limit px \<and> 0 < Shm_len this \<and> Shm_len this < 2 ^ 63 \<and>
     Shm_len this \<le> px_size_limit px \<and> Shm_len this \<le> px_vm_limit px"

definition Shm_ready :: "nat \<Rightarrow> SharedMemorySidebandData \<Rightarrow> posix_shm \<Rightarrow> bool" where
  "Shm_ready k this px \<longleftrightarrow>
     Shm_attached this px \<or> shm_buffer this = nullptr \<and> Shm_openable k this px"

text \<open>What a call on another object, or none, may change without disturbing this one.\<close>

definition posix_grows :: "nat \<Rightarrow> posix_shm \<Rightarrow> posix_shm \<Rightarrow> bool" where
  "posix_grows k px px' \<longleftrightarrow> px_next_fd px' \<le> px_next_fd px + k \<and>
     px_fd_limit px' = px_fd_limit px \<and> px_size_limit px' = px_size_limit px \<and>
     px_vm_limit px' = px_vm_limit px \<and>
     (\<forall>m mp. px_maps px m = Some mp \<longrightarrow> px_maps px' m = Some mp) \<and>
     (\<forall>n ob. px_names px n = Some ob \<longrightarrow> px_names px' n = Some ob)"

lemma posix_grows_refl [simp]: "posix_grows k px px"
  by (simp add: posix_grows_def)

lemma posix_grows_trans:
  "posix_grows i px px' \<Longrightarrow> posix_grows j px' px'' \<Longrightarrow> posix_grows (i + j) px px''"
  unfolding posix_grows_def by fastforce

lemma Shm_view_attached: "Shm_attached this px \<Longrightarrow> Shm_view this px = named_bytes px (Shm_path this)"
  by (auto simp: Shm_attached_def Shm_view_def named_bytes_def)

lemma length_Shm_view [simp]: "length (Shm_view this px) = Shm_len this"
  by (simp add: Shm_view_def)

lemma Shm_GetBuffer_mapped:
  "shm_buffer this \<noteq> nullptr \<Longrightarrow> Shm_GetBuffer this px = (shm_buffer this, this, px)"
  by (simp add: Shm_GetBuffer_def)

lemma Shm_GetBuffer_opens:
  assumes wf: "wf_posix px" and null: "shm_buffer this = nullptr" and ok: "Shm_openable (Suc k) this px"
  shows "\<exists>m fd px'. Shm_GetBuffer this px = (PMap m 0,
      this\<lparr>shm_fileName := Shm_path this, shm_mapFD := fd, shm_buffer := PMap m 0\<rparr>, px') \<and>
    posix_grows 1 px px' \<and> m \<notin> dom (px_maps px) \<and>
    (\<exists>ob. px_names px' (Shm_path this) = Some ob \<and>
      px_maps px' m = Some \<lparr>mp_obj = ob, mp_first = 0, mp_len = Shm_len this\<rparr> \<and>
      px_objs px' ob = Some (Shm_view this px) \<and>
      (\<forall>ob'. ob' \<noteq> ob \<longrightarrow> px_objs px' ob' = px_objs px ob') \<and>
      (\<forall>n. n \<noteq> Shm_path this \<longrightarrow> px_names px' n = px_names px n))"
proof -
  have len: "sint (shm_bufferSize this) = int (Shm_len this)"
    using ok by (intro sint_nonneg_unat) (simp add: Shm_openable_def sint_nonneg_iff)
  have size: "\<not> sint (shm_bufferSize this) < 0" "shm_bufferSize this \<noteq> 0"
    "\<not> int (px_size_limit px) < sint (shm_bufferSize this)"
    unfolding len using ok by (auto simp: Shm_openable_def simp del: of_nat_unat)
  have open_ok: "valid_shm_name (CHR ''/'' # shm_id this)" "\<not> px_fd_limit px \<le> px_next_fd px"
    "\<not> px_vm_limit px < Shm_len this"
    using ok by (auto simp: Shm_openable_def Shm_path_def)
  have fresh: "m \<in> dom (px_maps px) \<Longrightarrow> m < px_fresh px" for m
    using wf_posix_maps(1) [OF wf] by blast
  have exists: "px_names px n = Some ob \<Longrightarrow> \<exists>bs. px_objs px ob = Some bs" for n ob
    using wf_posix_names(1) [OF wf] .
  note defs = Shm_GetBuffer_def Shm_Init_def Let_def shm_open_def ftruncate_def mmap_def
  show ?thesis
  proof (cases "px_names px (Shm_path this)")
    case None
    then have name: "px_names px (CHR ''/'' # shm_id this) = None" by (simp add: Shm_path_def)
    let ?m = "Suc (px_fresh px)" and ?fd = "int (px_next_fd px)"
    let ?px = "px\<lparr>px_names := (px_names px)(Shm_path this \<mapsto> px_fresh px),
          px_objs := (px_objs px)(px_fresh px \<mapsto> Shm_view this px),
          px_fds := (px_fds px)(?fd \<mapsto> px_fresh px),
          px_maps := (px_maps px)(?m \<mapsto> \<lparr>mp_obj = px_fresh px, mp_first = 0, mp_len = Shm_len this\<rparr>),
          px_fresh := Suc ?m, px_next_fd := Suc (px_next_fd px)\<rparr>"
    have 1: "Shm_GetBuffer this px = (PMap ?m 0,
        this\<lparr>shm_fileName := Shm_path this, shm_mapFD := ?fd, shm_buffer := PMap ?m 0\<rparr>, ?px)"
      using null open_ok size name by (simp add: defs Shm_path_def Shm_view_def named_bytes_def)
    have new: "?m \<notin> dom (px_maps px)" using fresh by (meson Suc_n_not_le_n less_imp_le)
    have 2: "posix_grows 1 px ?px \<and> ?m \<notin> dom (px_maps px) \<and>
      (\<exists>ob. px_names ?px (Shm_path this) = Some ob \<and>
        px_maps ?px ?m = Some \<lparr>mp_obj = ob, mp_first = 0, mp_len = Shm_len this\<rparr> \<and>
        px_objs ?px ob = Some (Shm_view this px) \<and>
        (\<forall>ob'. ob' \<noteq> ob \<longrightarrow> px_objs ?px ob' = px_objs px ob') \<and>
        (\<forall>n. n \<noteq> Shm_path this \<longrightarrow> px_names ?px n = px_names px n))"
      using None new by (auto simp: posix_grows_def)
    show ?thesis by (rule exI)+ (rule conjI [OF 1 2])
  next
    case (Some ob)
    then have name: "px_names px (CHR ''/'' # shm_id this) = Some ob" by (simp add: Shm_path_def)
    let ?m = "px_fresh px" and ?fd = "int (px_next_fd px)"
    let ?px = "px\<lparr>px_objs := (px_objs px)(ob \<mapsto> Shm_view this px),
          px_fds := (px_fds px)(?fd \<mapsto> ob),
          px_maps := (px_maps px)(?m \<mapsto> \<lparr>mp_obj = ob, mp_first = 0, mp_len = Shm_len this\<rparr>),
          px_fresh := Suc ?m, px_next_fd := Suc (px_next_fd px)\<rparr>"
    have 1: "Shm_GetBuffer this px = (PMap ?m 0,
        this\<lparr>shm_fileName := Shm_path this, shm_mapFD := ?fd, shm_buffer := PMap ?m 0\<rparr>, ?px)"
      using null open_ok size name exists [OF Some] by (auto simp: defs Shm_path_def Shm_view_def named_bytes_def)
    have new: "?m \<notin> dom (px_maps px)" using fresh by (meson less_irrefl)
    have 2: "posix_grows 1 px ?px \<and> ?m \<notin> dom (px_maps px) \<and>
      (\<exists>ob. px_names ?px (Shm_path this) = Some ob \<and>
        px_maps ?px ?m = Some \<lparr>mp_obj = ob, mp_first = 0, mp_len = Shm_len this\<rparr> \<and>
        px_objs ?px ob = Some (Shm_view this px) \<and>
        (\<forall>ob'. ob' \<noteq> ob \<longrightarrow> px_objs ?px ob' = px_objs px ob') \<and>
        (\<forall>n. n \<noteq> Shm_path this \<longrightarrow> px_names ?px n = px_names px n))"
      using Some new by (auto simp: posix_grows_def)
    show ?thesis by (rule exI)+ (rule conjI [OF 1 2])
  qed
qed

section \<open>Getting the buffer of a ready object\<close>

lemma wf_Shm_Init:
  assumes wf: "wf_posix px"
  shows "wf_posix (snd (Shm_Init this px))"
proof -
  let ?name = "CHR ''/'' # shm_id this"
  obtain fd px1 where 1: "shm_open ?name px = (fd, px1)" by fastforce
  obtain r px2 where 2: "ftruncate fd (shm_bufferSize this) px1 = (r, px2)" by fastforce
  obtain p px3 where 3: "mmap (shm_bufferSize this) fd px2 = (p, px3)" by fastforce
  have "wf_posix px1" "wf_posix px2" "wf_posix px3"
    using wf wf_shm_open [of px ?name] wf_ftruncate [of px1 fd "shm_bufferSize this"]
      wf_mmap [of px2 "shm_bufferSize this" fd] by (simp_all add: 1 2 3)
  then show ?thesis
    using 1 2 3 by (simp add: Shm_Init_def Let_def wf_shm_unlink)
qed

lemma wf_Shm_GetBuffer [wf_posix_intros]:
  "Shm_GetBuffer this px = (p, this', px') \<Longrightarrow> wf_posix px \<Longrightarrow> wf_posix px'"
  using wf_Shm_Init [of px this]
  by (auto simp: Shm_GetBuffer_def Let_def split: prod.splits if_splits)

text \<open>Objects that share a name agree on its size.\<close>

definition Shm_compatible :: "SharedMemorySidebandData \<Rightarrow> SharedMemorySidebandData \<Rightarrow> bool" where
  "Shm_compatible a b \<longleftrightarrow> (Shm_path a = Shm_path b \<longrightarrow> shm_bufferSize a = shm_bufferSize b)"

lemma Shm_openable_grows:
  "Shm_openable (i + k) this px \<Longrightarrow> posix_grows i px px' \<Longrightarrow> Shm_openable k this px'"
  by (auto simp: Shm_openable_def posix_grows_def)

text \<open>
  What an operation does, seen through views: \<open>f\<close> is applied to the bytes of the name, every
  other name is untouched, at most \<open>k\<close> descriptors are used, and objects that were ready stay so.
\<close>

definition Shm_effect :: "nat \<Rightarrow> (byte list \<Rightarrow> byte list) \<Rightarrow> SharedMemorySidebandData \<Rightarrow> posix_shm \<Rightarrow>
    SharedMemorySidebandData \<Rightarrow> posix_shm \<Rightarrow> bool" where
  "Shm_effect k f this px this' px' \<longleftrightarrow> wf_posix px' \<and> Shm_attached this' px' \<and>
     Shm_path this' = Shm_path this \<and> shm_bufferSize this' = shm_bufferSize this \<and>
     (\<forall>b. Shm_compatible this b \<longrightarrow>
       Shm_view b px' = (if Shm_path b = Shm_path this then f (Shm_view b px) else Shm_view b px) \<and>
       (\<forall>j. Shm_ready (j + k) b px \<longrightarrow> Shm_ready j b px'))"

lemma Shm_view_same:
  "Shm_path a = Shm_path b \<Longrightarrow> shm_bufferSize a = shm_bufferSize b \<Longrightarrow> Shm_view a px = Shm_view b px"
  by (simp add: Shm_view_def)

lemma Shm_effect_view:
  assumes "Shm_effect k f this px this' px'"
  shows "Shm_view this' px' = f (Shm_view this px)"
proof -
  have "Shm_compatible this this" by (simp add: Shm_compatible_def)
  then have "Shm_view this px' = f (Shm_view this px)"
    using assms unfolding Shm_effect_def by (metis (full_types))
  then show ?thesis
    using assms Shm_view_same [of this' this px'] by (simp add: Shm_effect_def)
qed

lemma Shm_effect_other:
  assumes "Shm_effect k f this px this' px'" and "Shm_compatible this b"
  shows "Shm_view b px' = (if Shm_path b = Shm_path this then f (Shm_view b px) else Shm_view b px)"
    and "Shm_ready (j + k) b px \<Longrightarrow> Shm_ready j b px'"
    and "Shm_compatible this' b"
  using assms unfolding Shm_effect_def Shm_compatible_def by simp_all

lemma Shm_effect_basic:
  assumes "Shm_effect k f this px this' px'"
  shows "wf_posix px'" and "Shm_attached this' px'" and "Shm_ready j this' px'"
    and "Shm_path this' = Shm_path this" and "shm_bufferSize this' = shm_bufferSize this"
  using assms by (auto simp: Shm_effect_def Shm_ready_def)

lemma Shm_effect_trans:
  assumes 1: "Shm_effect i f a px b px1" and 2: "Shm_effect j g b px1 c px2"
  shows "Shm_effect (j + i) (\<lambda>v. g (f v)) a px c px2"
proof -
  have "Shm_view x px2 = (if Shm_path x = Shm_path a then g (f (Shm_view x px)) else Shm_view x px) \<and>
      (\<forall>k. Shm_ready (k + (j + i)) x px \<longrightarrow> Shm_ready k x px2)" if x: "Shm_compatible a x" for x
    using Shm_effect_other [OF 1 x] Shm_effect_other [OF 2 Shm_effect_other(3) [OF 1 x]]
      Shm_effect_basic(4) [OF 1] by (simp add: add.assoc [symmetric])
  then show ?thesis
    using Shm_effect_basic(1,2,4,5) [OF 2] Shm_effect_basic(4,5) [OF 1] by (simp add: Shm_effect_def)
qed

lemma Shm_ready_mono: "Shm_ready k b px \<Longrightarrow> j \<le> k \<Longrightarrow> Shm_ready j b px"
  by (auto simp: Shm_ready_def Shm_openable_def)

lemma Shm_effect_mono: "Shm_effect i f a px b px' \<Longrightarrow> i \<le> j \<Longrightarrow> Shm_effect j f a px b px'"
  unfolding Shm_effect_def by (meson Shm_ready_mono add_left_mono)

text \<open>Descriptors an operation uses: one to map the object, none once it is mapped.\<close>

definition Shm_cost :: "SharedMemorySidebandData \<Rightarrow> nat" where
  "Shm_cost this = (if shm_buffer this = nullptr then 1 else 0)"

lemma Shm_cost_le [simp]: "Shm_cost this \<le> 1"
  by (simp add: Shm_cost_def)

lemma Shm_effect_one: "Shm_effect (Shm_cost a) f a px b px' \<Longrightarrow> Shm_effect (Suc 0) f a px b px'"
  using Shm_effect_mono [OF _ Shm_cost_le] by simp

lemma Shm_cost_attached: "Shm_attached this px \<Longrightarrow> Shm_cost this = 0"
  by (auto simp: Shm_attached_def Shm_cost_def)

lemma Shm_ready_GetBuffer:
  assumes wf: "wf_posix px" and ready: "Shm_ready (Suc k) this px"
  shows "\<exists>m this' px'. Shm_GetBuffer this px = (PMap m 0, this', px') \<and>
    shm_buffer this' = PMap m 0 \<and> Shm_effect (Shm_cost this) (\<lambda>v. v) this px this' px'"
proof (cases "Shm_attached this px")
  case True
  then obtain m where m: "shm_buffer this = PMap m 0" by (auto simp: Shm_attached_def)
  have "Shm_ready j b px" if "Shm_ready (Suc j) b px" for j b
    using that by (auto simp: Shm_ready_def Shm_openable_def)
  then show ?thesis
    using True wf m by (auto simp: Shm_GetBuffer_mapped Shm_effect_def Shm_cost_def)
next
  case False
  with ready have null: "shm_buffer this = nullptr" and ok: "Shm_openable (Suc k) this px"
    by (auto simp: Shm_ready_def)
  obtain m fd px' ob where get: "Shm_GetBuffer this px = (PMap m 0,
      this\<lparr>shm_fileName := Shm_path this, shm_mapFD := fd, shm_buffer := PMap m 0\<rparr>, px')"
    and grows: "posix_grows 1 px px'"
    and ob: "px_names px' (Shm_path this) = Some ob"
      "px_maps px' m = Some \<lparr>mp_obj = ob, mp_first = 0, mp_len = Shm_len this\<rparr>"
      "px_objs px' ob = Some (Shm_view this px)"
    and frame: "\<And>ob'. ob' \<noteq> ob \<Longrightarrow> px_objs px' ob' = px_objs px ob'"
      "\<And>n. n \<noteq> Shm_path this \<Longrightarrow> px_names px' n = px_names px n"
    using Shm_GetBuffer_opens [OF wf null ok] by blast
  let ?this' = "this\<lparr>shm_fileName := Shm_path this, shm_mapFD := fd, shm_buffer := PMap m 0\<rparr>"
  have wf': "wf_posix px'" using get wf by (rule wf_Shm_GetBuffer)
  have others: "Shm_view b px' = Shm_view b px \<and> (\<forall>j. Shm_ready (Suc j) b px \<longrightarrow> Shm_ready j b px')"
    if b: "Shm_compatible this b" for b
  proof (cases "Shm_path b = Shm_path this")
    case True
    then have size: "shm_bufferSize b = shm_bufferSize this"
      using b by (simp add: Shm_compatible_def)
    then have view: "Shm_view b px = Shm_view this px" using True by (simp add: Shm_view_def)
    have "Shm_view b px' = Shm_view b px"
      using True size ob view by (simp add: Shm_view_def [of b px'] named_bytes_def)
    moreover have "Shm_attached b px'" if "Shm_attached b px"
      using that True size ob grows by (auto simp: Shm_attached_def posix_grows_def)
    ultimately show ?thesis
      using Shm_openable_grows [OF _ grows] by (auto simp: Shm_ready_def)
  next
    case False
    then have name: "px_names px' (Shm_path b) = px_names px (Shm_path b)" by (rule frame(2))
    have "ob' \<noteq> ob" if "px_names px (Shm_path b) = Some ob'" for ob'
      using that wf_posix_names(4) [OF wf' ob(1)] name False by metis
    then have objs: "px_objs px' ob' = px_objs px ob'" if "px_names px (Shm_path b) = Some ob'" for ob'
      using that frame(1) by blast
    have "Shm_view b px' = Shm_view b px"
      using objs by (auto simp: Shm_view_def named_bytes_def name split: option.splits)
    moreover have "Shm_attached b px'" if "Shm_attached b px"
      using that objs grows by (auto simp: Shm_attached_def posix_grows_def name)
    ultimately show ?thesis
      using Shm_openable_grows [OF _ grows] by (auto simp: Shm_ready_def)
  qed
  have path: "Shm_path ?this' = Shm_path this" by (simp add: Shm_path_def)
  have att: "Shm_attached ?this' px'" using ob by (simp add: Shm_attached_def path)
  show ?thesis using get att path wf' others null by (auto simp: Shm_effect_def Shm_cost_def)
qed

section \<open>What each operation does to a ready object\<close>

lemma Shm_attached_region:
  assumes "Shm_attached this px" and "shm_buffer this = PMap m 0"
  shows "region_size m px = Shm_len this" and "region_bytes m px = Shm_view this px"
  using assms by (auto simp: Shm_attached_def Shm_view_def named_bytes_def region_size_intact)

lemma Shm_attached_read:
  assumes "Shm_attached this px" and "shm_buffer this = PMap m 0" and "off + n \<le> Shm_len this"
  shows "shm_read m px off n = Inr (mem_read off n (Shm_view this px))"
  using Shm_attached_region [OF assms(1,2)] assms(3) by (simp add: shm_read_def)

lemma Shm_attached_write:
  assumes wf: "wf_posix px" and att: "Shm_attached this px" and buf: "shm_buffer this = PMap m 0"
    and fits: "off + length bs \<le> Shm_len this"
  shows "\<exists>px'. shm_write m px off bs = Inr px' \<and> Shm_effect 0 (mem_write off bs) this px this px'"
proof -
  obtain ob old where ob: "shm_fileName this = Shm_path this" "px_names px (Shm_path this) = Some ob"
      "px_maps px m = Some \<lparr>mp_obj = ob, mp_first = 0, mp_len = Shm_len this\<rparr>"
      "px_objs px ob = Some old" "length old = Shm_len this"
    using att buf by (auto simp: Shm_attached_def)
  obtain px' where w: "shm_write m px off bs = Inr px'"
    using mapping.wr_ok [of off bs m px] Shm_attached_region(1) [OF att buf] fits by auto
  have px': "px' = px\<lparr>px_objs := (px_objs px)(ob \<mapsto> mem_write off bs old)\<rparr>"
    using shm_write_objs [OF w ob(3)] ob(4) by simp
  have wf': "wf_posix px'" using w wf by (rule wf_shm_write)
  have len: "length (mem_write off bs old) = Shm_len this"
    using ob(5) fits by (simp add: memory_simps)
  have "Shm_view b px' = (if Shm_path b = Shm_path this then mem_write off bs (Shm_view b px)
        else Shm_view b px) \<and> (\<forall>j. Shm_ready j b px \<longrightarrow> Shm_ready j b px')"
    if b: "Shm_compatible this b" for b
  proof (cases "Shm_path b = Shm_path this")
    case True
    then have "shm_bufferSize b = shm_bufferSize this" using b by (simp add: Shm_compatible_def)
    then show ?thesis
      using True ob len
      by (auto simp: px' Shm_view_def named_bytes_def Shm_ready_def Shm_attached_def Shm_openable_def)
  next
    case False
    then have "px_names px (Shm_path b) \<noteq> Some ob"
      using wf_posix_names(4) [OF wf ob(2)] by metis
    then show ?thesis
      using False
      by (auto simp: px' Shm_view_def named_bytes_def Shm_ready_def Shm_attached_def Shm_openable_def
          split: option.splits)
  qed
  moreover have "Shm_attached this px'"
    using ob buf len by (auto simp: px' Shm_attached_def)
  ultimately show ?thesis using w wf' by (auto simp: Shm_effect_def)
qed

lemma Shm_Write_ready:
  assumes "wf_posix px" and "Shm_ready (Suc k) this px"
    and "unat n \<le> length bytes" and "unat n \<le> Shm_len this"
  shows "\<exists>this' px'. Shm_Write this bytes n px = Inr (True, this', px') \<and>
    Shm_effect (Shm_cost this) (mem_write 0 (take (unat n) bytes)) this px this' px'"
proof -
  obtain m this1 px1 where get: "Shm_GetBuffer this px = (PMap m 0, this1, px1)"
    and buf: "shm_buffer this1 = PMap m 0" and e1: "Shm_effect (Shm_cost this) (\<lambda>v. v) this px this1 px1"
    using Shm_ready_GetBuffer [OF assms(1,2)] by blast
  note b1 = Shm_effect_basic [OF e1]
  obtain px2 where w: "shm_write m px1 0 (take (unat n) bytes) = Inr px2"
    and e2: "Shm_effect 0 (mem_write 0 (take (unat n) bytes)) this1 px1 this1 px2"
    using Shm_attached_write [OF b1(1,2) buf, of 0 "take (unat n) bytes"] b1(5) assms(3,4) by auto
  have "Shm_Write this bytes n px = Inr (True, this1, px2)"
    using assms(3) by (simp add: Shm_Write_def get memcpy_to_def ptr_write_def w)
  then show ?thesis using Shm_effect_trans [OF e1 e2] by auto
qed

text \<open>The effect of a length-prefixed write on the view.\<close>

definition put_prefixed :: "int64 \<Rightarrow> byte list \<Rightarrow> byte list \<Rightarrow> byte list" where
  "put_prefixed n bytes v =
     mem_write sizeof_int64 (take (unat n) bytes) (mem_write 0 (int64_bytes n) v)"

lemma put_prefixed_read:
  assumes "sizeof_int64 + unat n \<le> length v" and "unat n \<le> length bytes"
  shows "length (put_prefixed n bytes v) = length v"
    and "mem_read 0 sizeof_int64 (put_prefixed n bytes v) = int64_bytes n"
    and "mem_read sizeof_int64 (unat n) (put_prefixed n bytes v) = take (unat n) bytes"
proof -
  let ?m = "mem_write 0 (int64_bytes n) v"
  have m: "length ?m = length v" using assms by (simp add: memory_simps)
  have head: "mem_read 0 sizeof_int64 ?m = int64_bytes n"
    using read_write_same [of 0 "int64_bytes n" v] assms by simp
  show "length (put_prefixed n bytes v) = length v"
    using assms m by (simp add: put_prefixed_def memory_simps)
  show "mem_read 0 sizeof_int64 (put_prefixed n bytes v) = int64_bytes n"
    using assms m head by (simp add: put_prefixed_def memory_simps)
  show "mem_read sizeof_int64 (unat n) (put_prefixed n bytes v) = take (unat n) bytes"
    using read_write_same [of sizeof_int64 "take (unat n) bytes" ?m] assms m
    by (simp add: put_prefixed_def)
qed

lemma Shm_WriteLengthPrefixed_ready:
  assumes "wf_posix px" and "Shm_ready (Suc k) this px"
    and "unat n \<le> length bytes" and "sizeof_int64 + unat n \<le> Shm_len this"
  shows "\<exists>this' px'. Shm_WriteLengthPrefixed this bytes n px = Inr (True, this', px') \<and>
    Shm_effect (Shm_cost this) (put_prefixed n bytes) this px this' px'"
proof -
  obtain m this1 px1 where get: "Shm_GetBuffer this px = (PMap m 0, this1, px1)"
    and buf: "shm_buffer this1 = PMap m 0" and e1: "Shm_effect (Shm_cost this) (\<lambda>v. v) this px this1 px1"
    using Shm_ready_GetBuffer [OF assms(1,2)] by blast
  note b1 = Shm_effect_basic [OF e1]
  obtain px2 where w2: "shm_write m px1 0 (int64_bytes n) = Inr px2"
    and e2: "Shm_effect 0 (mem_write 0 (int64_bytes n)) this1 px1 this1 px2"
    using Shm_attached_write [OF b1(1,2) buf, of 0 "int64_bytes n"] b1(5) assms(4) by auto
  note b2 = Shm_effect_basic [OF e2]
  obtain px3 where w3: "shm_write m px2 sizeof_int64 (take (unat n) bytes) = Inr px3"
    and e3: "Shm_effect 0 (mem_write sizeof_int64 (take (unat n) bytes)) this1 px2 this1 px3"
    using Shm_attached_write [OF b2(1,2) buf, of sizeof_int64 "take (unat n) bytes"]
      b1(5) assms(3,4) by auto
  have "Shm_WriteLengthPrefixed this bytes n px = Inr (True, this1, px3)"
    using assms(3) by (simp add: Shm_WriteLengthPrefixed_def get memcpy_to_def ptr_write_def w2 w3)
  moreover have "Shm_effect (Shm_cost this) (put_prefixed n bytes) this px this1 px3"
    using Shm_effect_trans [OF e1 Shm_effect_trans [OF e2 e3]] by (simp add: put_prefixed_def [abs_def])
  ultimately show ?thesis by blast
qed

lemma Shm_Read_ready:
  assumes "wf_posix px" and "Shm_ready (Suc k) this px"
    and "unat n \<le> length dst" and "unat n \<le> Shm_len this"
  shows "\<exists>this' px'. Shm_Read this dst n nread px =
      Inr (True, mem_write 0 (mem_read 0 (unat n) (Shm_view this px)) dst, nread, this', px') \<and>
    Shm_effect (Shm_cost this) (\<lambda>v. v) this px this' px'"
proof -
  obtain m this1 px1 where get: "Shm_GetBuffer this px = (PMap m 0, this1, px1)"
    and buf: "shm_buffer this1 = PMap m 0" and e1: "Shm_effect (Shm_cost this) (\<lambda>v. v) this px this1 px1"
    using Shm_ready_GetBuffer [OF assms(1,2)] by blast
  note b1 = Shm_effect_basic [OF e1]
  have "shm_read m px1 0 (unat n) = Inr (mem_read 0 (unat n) (Shm_view this px))"
    using Shm_attached_read [OF b1(2) buf, of 0 "unat n"] b1(5) assms(4) Shm_effect_view [OF e1] by simp
  then show ?thesis
    using assms(3) e1 by (simp add: Shm_Read_def get memcpy_from_def ptr_read_def not_less)
qed

lemma Shm_ReadLengthPrefix_ready:
  assumes "wf_posix px" and "Shm_ready (Suc k) this px" and "sizeof_int64 \<le> Shm_len this"
  shows "\<exists>this' px'. Shm_ReadLengthPrefix this px =
      Inr (bytes_int64 (mem_read 0 sizeof_int64 (Shm_view this px)), this', px') \<and>
    Shm_effect (Shm_cost this) (\<lambda>v. v) this px this' px'"
proof -
  obtain m this1 px1 where get: "Shm_GetBuffer this px = (PMap m 0, this1, px1)"
    and buf: "shm_buffer this1 = PMap m 0" and e1: "Shm_effect (Shm_cost this) (\<lambda>v. v) this px this1 px1"
    using Shm_ready_GetBuffer [OF assms(1,2)] by blast
  note b1 = Shm_effect_basic [OF e1]
  have "shm_read m px1 0 sizeof_int64 = Inr (mem_read 0 sizeof_int64 (Shm_view this px))"
    using Shm_attached_read [OF b1(2) buf, of 0 sizeof_int64] b1(5) assms(3) Shm_effect_view [OF e1]
    by simp
  then show ?thesis using e1 by (simp add: Shm_ReadLengthPrefix_def get ptr_read_def)
qed

lemma Shm_ReadFromLengthPrefixed_ready:
  assumes "wf_posix px" and "Shm_ready (Suc k) this px"
    and "unat n \<le> length dst" and "sizeof_int64 + unat n \<le> Shm_len this"
  shows "\<exists>this' px'. Shm_ReadFromLengthPrefixed this dst n nread px =
      Inr (True, mem_write 0 (mem_read sizeof_int64 (unat n) (Shm_view this px)) dst, nread,
        this', px') \<and>
    Shm_effect (Shm_cost this) (\<lambda>v. v) this px this' px'"
proof -
  obtain m this1 px1 where get: "Shm_GetBuffer this px = (PMap m 0, this1, px1)"
    and buf: "shm_buffer this1 = PMap m 0" and e1: "Shm_effect (Shm_cost this) (\<lambda>v. v) this px this1 px1"
    using Shm_ready_GetBuffer [OF assms(1,2)] by blast
  note b1 = Shm_effect_basic [OF e1]
  have "shm_read m px1 sizeof_int64 (unat n) = Inr (mem_read sizeof_int64 (unat n) (Shm_view this px))"
    using Shm_attached_read [OF b1(2) buf, of sizeof_int64 "unat n"] b1(5) assms(4)
      Shm_effect_view [OF e1] by simp
  then show ?thesis
    using assms(3) e1
    by (simp add: Shm_ReadFromLengthPrefixed_def Let_def get memcpy_from_def ptr_read_def not_less)
qed

section \<open>Failing calls\<close>

lemma Shm_GetBuffer_open_fails:
  assumes "shm_buffer this = nullptr" and "px_fd_limit px \<le> px_next_fd px"
  shows "Shm_GetBuffer this px =
    (nullptr, this\<lparr>shm_fileName := Shm_path this, shm_mapFD := - 1\<rparr>, px)"
  using assms by (simp add: Shm_GetBuffer_def Shm_Init_def Let_def shm_open_def Shm_path_def)

lemma Shm_GetBuffer_mmap_fails:
  assumes wf: "wf_posix px" and null: "shm_buffer this = nullptr"
    and open_ok: "valid_shm_name (Shm_path this)" "px_next_fd px < px_fd_limit px"
    and size: "0 \<le> sint (shm_bufferSize this)" "sint (shm_bufferSize this) \<le> int (px_size_limit px)"
    and fails: "shm_bufferSize this = 0 \<or> px_vm_limit px < Shm_len this"
  shows "fst (Shm_GetBuffer this px) = MAP_FAILED"
proof (cases "px_names px (Shm_path this)")
  case None
  then have "px_names px (CHR ''/'' # shm_id this) = None" by (simp add: Shm_path_def)
  then show ?thesis
    using null open_ok size fails
    by (auto simp: Shm_GetBuffer_def Shm_Init_def Let_def shm_open_def ftruncate_def mmap_def
        Shm_path_def)
next
  case (Some ob)
  then have "px_names px (CHR ''/'' # shm_id this) = Some ob" by (simp add: Shm_path_def)
  then show ?thesis
    using null open_ok size fails wf_posix_names(1) [OF wf Some]
    by (auto simp: Shm_GetBuffer_def Shm_Init_def Let_def shm_open_def ftruncate_def mmap_def
        Shm_path_def)
qed

lemma Shm_attached_write_beyond:
  assumes "Shm_attached this px" and "shm_buffer this = PMap m 0" and "Shm_len this < off + length bs"
  shows "shm_write m px off bs = Inl BadAccess"
  using Shm_attached_region(1) [OF assms(1,2)] assms(3) by (simp add: shm_write_def)

section \<open>Properties of the transport\<close>

text \<open>
  C17. Two objects made for the same name and size (the owner's and the client's, in different
  processes), each mapped already or still to be mapped: a length-prefixed message written through
  one is read through the other, length first, then payload. The read leaves
  \<open>*numBytesRead\<close> as it was.
\<close>

theorem shm_message_roundtrip:
  assumes "wf_posix px" and "Shm_ready 2 w px" and "Shm_ready 2 r px"
    and "shm_id w = shm_id r" and "shm_bufferSize w = shm_bufferSize r"
    and "unat n \<le> length bytes" and "sizeof_int64 + unat n \<le> Shm_len w" and "unat n \<le> length dst"
  shows "\<exists>w' px1 r1 px2 r2 px3. Shm_WriteLengthPrefixed w bytes n px = Inr (True, w', px1) \<and>
    Shm_ReadLengthPrefix r px1 = Inr (n, r1, px2) \<and>
    Shm_ReadFromLengthPrefixed r1 dst n nread px2 =
      Inr (True, mem_write 0 (take (unat n) bytes) dst, nread, r2, px3)"
proof -
  have len: "Shm_len r = Shm_len w" and path: "Shm_path r = Shm_path w"
    and compat: "Shm_compatible w r" using assms(4,5) by (simp_all add: Shm_path_def Shm_compatible_def)
  have ready2: "Shm_ready (Suc 1) w px" using assms(2) by (simp add: numeral_2_eq_2)
  obtain w' px1 where w: "Shm_WriteLengthPrefixed w bytes n px = Inr (True, w', px1)"
    and e1: "Shm_effect 1 (put_prefixed n bytes) w px w' px1"
    using Shm_WriteLengthPrefixed_ready [OF assms(1) ready2 assms(6,7)]
    by (meson Shm_effect_mono Shm_cost_le)
  have ready: "Shm_ready (Suc 0) r px1"
    using Shm_effect_other(2) [OF e1 compat, of "Suc 0"] assms(3) by (simp add: numeral_2_eq_2)
  have view: "Shm_view r px1 = put_prefixed n bytes (Shm_view r px)"
    using Shm_effect_other(1) [OF e1 compat] path by simp
  have fits: "sizeof_int64 + unat n \<le> length (Shm_view r px)" using assms(7) len by simp
  note put = put_prefixed_read [OF fits assms(6)]
  obtain r1 px2 where r1: "Shm_ReadLengthPrefix r px1 = Inr (n, r1, px2)"
    and e2: "Shm_effect 1 (\<lambda>v. v) r px1 r1 px2"
    using Shm_ReadLengthPrefix_ready [OF Shm_effect_basic(1) [OF e1] ready] assms(7) len view put(2)
    by (auto intro: Shm_effect_one)
  note b2 = Shm_effect_basic [OF e2]
  have view2: "Shm_view r1 px2 = put_prefixed n bytes (Shm_view r px)"
    using Shm_effect_view [OF e2] view by simp
  obtain r2 px3 where "Shm_ReadFromLengthPrefixed r1 dst n nread px2 =
      Inr (True, mem_write 0 (take (unat n) bytes) dst, nread, r2, px3)"
    using Shm_ReadFromLengthPrefixed_ready [OF b2(1) b2(3) [of "Suc 0"] assms(8), of nread]
      assms(7) len b2(5) view2 put(3) by auto
  then show ?thesis using w r1 by blast
qed

theorem shm_message_roundtrip_witness:
  "\<exists>w' px1 r1 px2 r2 px3.
    Shm_WriteLengthPrefixed (Shm_new ''X'' 64) [1, 2, 3] 3 (posix_init 16 4096 4096) =
      Inr (True, w', px1) \<and>
    Shm_ReadLengthPrefix (Shm_new ''X'' 64) px1 = Inr (3, r1, px2) \<and>
    Shm_ReadFromLengthPrefixed r1 [0, 0, 0, 9] 3 7 px2 =
      Inr (True, mem_write 0 (take (unat (3 :: int64)) [1, 2, 3]) [0, 0, 0, 9], 7, r2, px3)"
  by (rule shm_message_roundtrip [OF wf_posix_init])
    (simp_all add: Shm_ready_def Shm_openable_def Shm_new_def posix_init_def
      valid_shm_name_def Shm_path_def sizeof_int64_def)

text \<open>
  C30. Nothing checks that a message fits: a length-prefixed write into a ready object returns exactly
  when prefix and payload fit into the mapping, and touches memory outside it otherwise.
\<close>

theorem shm_prefixed_write_bounds:
  assumes "wf_posix px" and "Shm_ready 1 this px" and "unat n \<le> length bytes"
  shows "if sizeof_int64 + unat n \<le> Shm_len this
    then \<exists>this' px'. Shm_WriteLengthPrefixed this bytes n px = Inr (True, this', px')
    else Shm_WriteLengthPrefixed this bytes n px = Inl BadAccess"
proof -
  have ready: "Shm_ready (Suc 0) this px" using assms(2) by simp
  obtain m this1 px1 where get: "Shm_GetBuffer this px = (PMap m 0, this1, px1)"
    and buf: "shm_buffer this1 = PMap m 0" and e1: "Shm_effect 1 (\<lambda>v. v) this px this1 px1"
    using Shm_ready_GetBuffer [OF assms(1) ready] by (meson Shm_effect_mono Shm_cost_le)
  note b1 = Shm_effect_basic [OF e1]
  have over: "Shm_WriteLengthPrefixed this bytes n px = Inl BadAccess"
    if big: "Shm_len this < sizeof_int64 + unat n"
  proof (cases "sizeof_int64 \<le> Shm_len this")
    case False
    then show ?thesis
      using Shm_attached_write_beyond [OF b1(2) buf, of 0 "int64_bytes n"] b1(5)
      by (simp add: Shm_WriteLengthPrefixed_def get ptr_write_def)
  next
    case True
    then obtain px2 where w2: "shm_write m px1 0 (int64_bytes n) = Inr px2"
      and e2: "Shm_effect 0 (mem_write 0 (int64_bytes n)) this1 px1 this1 px2"
      using Shm_attached_write [OF b1(1,2) buf, of 0 "int64_bytes n"] b1(5) by auto
    have "shm_write m px2 sizeof_int64 (take (unat n) bytes) = Inl BadAccess"
      using Shm_attached_write_beyond [OF Shm_effect_basic(2) [OF e2] buf] b1(5) big assms(3) by simp
    then show ?thesis
      using assms(3)
      by (simp add: Shm_WriteLengthPrefixed_def get memcpy_to_def ptr_write_def w2 not_less)
  qed
  show ?thesis
    using over Shm_WriteLengthPrefixed_ready [OF assms(1) ready assms(3)] by (auto simp: not_le)
qed

theorem shm_prefixed_write_bounds_witness:
  "if sizeof_int64 + unat (60 :: int64) \<le> Shm_len (Shm_new ''X'' 64)
    then \<exists>this' px'. Shm_WriteLengthPrefixed (Shm_new ''X'' 64) (replicate 60 1) 60
      (posix_init 16 4096 4096) = Inr (True, this', px')
    else Shm_WriteLengthPrefixed (Shm_new ''X'' 64) (replicate 60 1) 60
      (posix_init 16 4096 4096) = Inl BadAccess"
  by (rule shm_prefixed_write_bounds [OF wf_posix_init])
    (simp_all add: Shm_ready_def Shm_openable_def Shm_new_def posix_init_def valid_shm_name_def
      Shm_path_def)

text \<open>
  When the object cannot be opened, \<open>Write\<close> reports failure, but the length-prefixed read path
  follows the null pointer: \<open>ReadLengthPrefix\<close> does not test it and \<open>ReadFromLengthPrefixed\<close> tests
  it only after adding 8 to it.
\<close>

theorem shm_open_failure:
  assumes "shm_buffer this = nullptr" and "px_fd_limit px \<le> px_next_fd px" and "unat n \<le> length dst"
  shows "(\<exists>this'. Shm_Write this bytes n px = Inr (False, this', px)) \<and>
    (\<exists>this'. Shm_Read this dst n nread px = Inr (False, dst, nread, this', px)) \<and>
    Shm_ReadLengthPrefix this px = Inl NullPointer \<and>
    Shm_ReadFromLengthPrefixed this dst n nread px = Inl BadAccess"
  using assms
  by (simp add: Shm_Write_def Shm_Read_def Shm_ReadLengthPrefix_def Shm_ReadFromLengthPrefixed_def
      Shm_GetBuffer_open_fails memcpy_from_def ptr_read_def sizeof_int64_def Let_def)

theorem shm_open_failure_witness:
  "(\<exists>this'. Shm_Write (Shm_new ''X'' 64) [1, 2] 2 (posix_init 3 4096 4096) =
      Inr (False, this', posix_init 3 4096 4096)) \<and>
    (\<exists>this'. Shm_Read (Shm_new ''X'' 64) [0, 0] 2 0 (posix_init 3 4096 4096) =
      Inr (False, [0, 0], 0, this', posix_init 3 4096 4096)) \<and>
    Shm_ReadLengthPrefix (Shm_new ''X'' 64) (posix_init 3 4096 4096) = Inl NullPointer \<and>
    Shm_ReadFromLengthPrefixed (Shm_new ''X'' 64) [0, 0] 2 0 (posix_init 3 4096 4096) = Inl BadAccess"
  by (rule shm_open_failure) (simp_all add: Shm_new_def posix_init_def)

text \<open>
  When mapping fails, \<open>_buffer\<close> keeps \<open>MAP_FAILED\<close>, which the null tests of the callers let
  through: every write, also of no bytes, touches address -1. A buffer size of 0 is one way to get
  there.
\<close>

theorem shm_mmap_failure_crashes:
  assumes "wf_posix px" and "shm_buffer this = nullptr" and "valid_shm_name (Shm_path this)"
    and "px_next_fd px < px_fd_limit px" and "0 \<le> sint (shm_bufferSize this)"
    and "sint (shm_bufferSize this) \<le> int (px_size_limit px)"
    and "shm_bufferSize this = 0 \<or> px_vm_limit px < Shm_len this"
  shows "Shm_Write this bytes n px = Inl BadAccess \<and>
    Shm_Read this dst n nread px = Inl BadAccess \<and>
    Shm_WriteLengthPrefixed this bytes n px = Inl BadAccess"
  using Shm_GetBuffer_mmap_fails [OF assms]
  by (auto simp: Shm_Write_def Shm_Read_def Shm_WriteLengthPrefixed_def memcpy_to_def memcpy_from_def
      ptr_write_def ptr_read_def split: prod.splits)

theorem shm_mmap_failure_crashes_witness:
  "Shm_Write (Shm_new ''X'' 0) [] 0 (posix_init 16 4096 4096) = Inl BadAccess \<and>
    Shm_Read (Shm_new ''X'' 0) [] 0 0 (posix_init 16 4096 4096) = Inl BadAccess \<and>
    Shm_WriteLengthPrefixed (Shm_new ''X'' 0) [] 0 (posix_init 16 4096 4096) = Inl BadAccess"
  by (rule shm_mmap_failure_crashes [OF wf_posix_init])
    (simp_all add: Shm_new_def posix_init_def valid_shm_name_def Shm_path_def)

text \<open>
  The destructor of either side removes the name. A client that maps the object only after
  the owner has closed it gets a new object full of zeros: the message is gone, its length reads 0.
\<close>

theorem shm_close_loses_message:
  assumes "wf_posix px" and "Shm_attached w px" and "shm_id r = shm_id w"
    and "shm_buffer r = nullptr" and "Shm_openable 1 r px" and "sizeof_int64 \<le> Shm_len r"
  shows "\<exists>r' px'. Shm_ReadLengthPrefix r (Shm_delete w px) = Inr (0, r', px')"
proof -
  let ?px = "Shm_delete w px"
  obtain m where buf: "shm_buffer w = PMap m 0" and name: "shm_fileName w = Shm_path w"
    using assms(2) by (auto simp: Shm_attached_def)
  have del: "?px = shm_unlink (Shm_path w) (munmap (PMap m 0) 8 px)"
    by (simp add: Shm_delete_def buf name)
  have "wf_posix ?px" by (simp add: del wf_posix_intros assms(1))
  have same: "px_next_fd (munmap p k px) = px_next_fd px \<and> px_fd_limit (munmap p k px) = px_fd_limit px \<and>
      px_size_limit (munmap p k px) = px_size_limit px \<and> px_vm_limit (munmap p k px) = px_vm_limit px"
    for p k by (auto simp: munmap_def Let_def split: ptr.splits nat.splits option.splits)
  have "Shm_ready (Suc 0) r ?px"
    using assms(4,5) same by (simp add: Shm_ready_def Shm_openable_def del shm_unlink_def)
  moreover have "Shm_view r ?px = replicate (Shm_len r) 0"
    using assms(3) by (simp add: Shm_view_def named_bytes_def del shm_unlink_def Shm_path_def resize_def)
  moreover have "bytes_int64 (mem_read 0 sizeof_int64 (replicate (Shm_len r) 0)) = 0"
    using assms(6) by (simp add: mem_read_def min_def sizeof_int64_def bytes_int64_def numeral_eq_Suc)
  ultimately show ?thesis
    using Shm_ReadLengthPrefix_ready [OF \<open>wf_posix ?px\<close> _ assms(6), of 0] by auto
qed

lemma Shm_example_attached:
  assumes "valid_shm_name (''/TESTBUFFER_'' @ name)" and "0 < unat n" and "unat n < 2 ^ 63"
    and "unat n \<le> lim" and "4 \<le> fds"
  shows "\<exists>m this px. Shm_GetBuffer (Shm_new name n) (posix_init fds lim lim) = (PMap m 0, this, px) \<and>
    shm_buffer this = PMap m 0 \<and> Shm_effect 1 (\<lambda>v. v) (Shm_new name n) (posix_init fds lim lim) this px"
proof -
  have "Shm_ready (Suc 0) (Shm_new name n) (posix_init fds lim lim)"
    using assms by (simp add: Shm_ready_def Shm_openable_def Shm_new_def posix_init_def Shm_path_def)
  from Shm_ready_GetBuffer [OF wf_posix_init this] show ?thesis
    by (meson Shm_effect_mono Shm_cost_le)
qed

theorem shm_close_loses_message_witness:
  "case Shm_GetBuffer (Shm_new ''X'' 64) (posix_init 16 4096 4096) of (p, w, px) \<Rightarrow>
    \<exists>r' px'. Shm_ReadLengthPrefix (Shm_new ''X'' 64) (Shm_delete w px) = Inr (0, r', px')"
proof -
  obtain m w px where get: "Shm_GetBuffer (Shm_new ''X'' 64) (posix_init 16 4096 4096) = (PMap m 0, w, px)"
    and e: "Shm_effect 1 (\<lambda>v. v) (Shm_new ''X'' 64) (posix_init 16 4096 4096) w px"
    using Shm_example_attached [of "''X''" 64 4096 16] by (auto simp: valid_shm_name_def)
  note b = Shm_effect_basic [OF e]
  have id: "shm_id w = shm_id (Shm_new ''X'' 64)" using b(4) by (simp add: Shm_path_def)
  have grows: "posix_grows 1 (posix_init 16 4096 4096) px"
    using get Shm_GetBuffer_opens [OF wf_posix_init, of "Shm_new ''X'' 64" 0 16 4096 4096]
    by (auto simp: Shm_new_def Shm_openable_def posix_init_def valid_shm_name_def Shm_path_def)
  have "Shm_openable 1 (Shm_new ''X'' 64) px"
    by (rule Shm_openable_grows [OF _ grows])
      (simp add: Shm_openable_def Shm_new_def posix_init_def valid_shm_name_def Shm_path_def)
  then have "\<exists>r' px'. Shm_ReadLengthPrefix (Shm_new ''X'' 64) (Shm_delete w px) = Inr (0, r', px')"
    using shm_close_loses_message [OF b(1,2), of "Shm_new ''X'' 64"] id
    by (simp add: Shm_new_def sizeof_int64_def)
  then show ?thesis by (simp add: get)
qed

text \<open>
  The destructor unmaps eight bytes, not the buffer: a mapping longer than a page stays mapped
  behind its first page, and the descriptor stays open.
\<close>

theorem shm_delete_leaks:
  assumes "Shm_attached this px" and "shm_buffer this = PMap m 0" and "page_size < Shm_len this"
  shows "\<exists>ob. px_maps (Shm_delete this px) m =
      Some \<lparr>mp_obj = ob, mp_first = page_size, mp_len = Shm_len this\<rparr> \<and>
    px_fds (Shm_delete this px) = px_fds px \<and> px_names (Shm_delete this px) (Shm_path this) = None"
  using assms
  by (auto simp: Shm_attached_def Shm_delete_def munmap_def shm_unlink_def page_size_def)

theorem shm_delete_leaks_witness:
  "case Shm_GetBuffer (Shm_new ''X'' 8192) (posix_init 16 9000 9000) of (p, w, px) \<Rightarrow>
    \<exists>m ob. px_maps (Shm_delete w px) m = Some \<lparr>mp_obj = ob, mp_first = page_size, mp_len = 8192\<rparr> \<and>
      px_fds (Shm_delete w px) = px_fds px \<and> px_names (Shm_delete w px) (Shm_path w) = None"
proof -
  obtain m w px where get: "Shm_GetBuffer (Shm_new ''X'' 8192) (posix_init 16 9000 9000) = (PMap m 0, w, px)"
    and buf: "shm_buffer w = PMap m 0"
    and e: "Shm_effect 1 (\<lambda>v. v) (Shm_new ''X'' 8192) (posix_init 16 9000 9000) w px"
    using Shm_example_attached [of "''X''" 8192 9000 16] by (auto simp: valid_shm_name_def)
  note b = Shm_effect_basic [OF e]
  have len: "Shm_len w = 8192" using b(5) by (simp add: Shm_new_def)
  show ?thesis
    using shm_delete_leaks [OF b(2) buf] by (auto simp: get len page_size_def)
qed

end
