(* ===== verification/DoubleBuffer.thy ===== *)
theory DoubleBuffer
  imports SharedMemory
begin

text \<open>
  \<open>DoubleBufferedSharedMemorySidebandData\<close> (\<^verbatim>\<open>src/sideband_shared_memory.cc\<close>): two
  shared-memory buffers used in turn. Each side keeps its own turn; the pointer \<open>_current\<close> is the
  name of the buffer it points to. The lemmas show what the two turns give together: a reader gets
  the messages in order as long as the writer is at most two ahead.
\<close>

section \<open>The class\<close>

datatype which = BufA | BufB

record DoubleBufferedSharedMemorySidebandData = SidebandData +
  db_id :: string
  db_current :: which
  db_bufferA :: SharedMemorySidebandData
  db_bufferB :: SharedMemorySidebandData

definition Dbl_new :: "string \<Rightarrow> int64 \<Rightarrow> DoubleBufferedSharedMemorySidebandData" where
  "Dbl_new id0 bufferSize = \<lparr>sd_bufferSize = bufferSize, sd_serializeBuffer = [], db_id = id0,
     db_current = BufA, db_bufferA = Shm_new (id0 @ ''_A'') bufferSize,
     db_bufferB = Shm_new (id0 @ ''_B'') bufferSize\<rparr>"

definition Dbl_InitNew :: "int64 \<Rightarrow> DoubleBufferedSharedMemorySidebandData" where
  "Dbl_InitNew bufferSize = Dbl_new ''TestBuffer'' bufferSize"

text \<open>The destructor's body is empty; the members are destroyed, the last declared first.\<close>

definition Dbl_delete :: "DoubleBufferedSharedMemorySidebandData \<Rightarrow> posix_shm \<Rightarrow> posix_shm" where
  "Dbl_delete this px = Shm_delete (db_bufferA this) (Shm_delete (db_bufferB this) px)"

definition Dbl_UsageId :: "DoubleBufferedSharedMemorySidebandData \<Rightarrow> string" where
  "Dbl_UsageId this = db_id this"

fun Dbl_buf :: "which \<Rightarrow> DoubleBufferedSharedMemorySidebandData \<Rightarrow> SharedMemorySidebandData" where
  "Dbl_buf BufA this = db_bufferA this"
| "Dbl_buf BufB this = db_bufferB this"

fun Dbl_set_buf :: "which \<Rightarrow> SharedMemorySidebandData \<Rightarrow>
    DoubleBufferedSharedMemorySidebandData \<Rightarrow> DoubleBufferedSharedMemorySidebandData" where
  "Dbl_set_buf BufA b this = this\<lparr>db_bufferA := b\<rparr>"
| "Dbl_set_buf BufB b this = this\<lparr>db_bufferB := b\<rparr>"

text \<open>\<open>*_current\<close>, as a value and as a place to store the changed object back to.\<close>

definition Dbl_cur :: "DoubleBufferedSharedMemorySidebandData \<Rightarrow> SharedMemorySidebandData" where
  "Dbl_cur this = Dbl_buf (db_current this) this"

definition Dbl_set_cur :: "SharedMemorySidebandData \<Rightarrow> DoubleBufferedSharedMemorySidebandData \<Rightarrow>
    DoubleBufferedSharedMemorySidebandData" where
  "Dbl_set_cur b this = Dbl_set_buf (db_current this) b this"

text \<open>\<open>_current = _current == &_bufferA ? &_bufferB : &_bufferA\<close>\<close>

definition Dbl_swap ::
  "DoubleBufferedSharedMemorySidebandData \<Rightarrow> DoubleBufferedSharedMemorySidebandData" where
  "Dbl_swap this = this\<lparr>db_current := (if db_current this = BufA then BufB else BufA)\<rparr>"

section \<open>Reading and writing\<close>

definition Dbl_Write :: "DoubleBufferedSharedMemorySidebandData \<Rightarrow> byte list \<Rightarrow> int64 \<Rightarrow> posix_shm \<Rightarrow>
    stop + (bool \<times> DoubleBufferedSharedMemorySidebandData \<times> posix_shm)" where
  "Dbl_Write this bytes byteCount px =
     andThen (Shm_Write (Dbl_cur this) bytes byteCount px) (\<lambda>(result, b, px).
     Inr (result, Dbl_swap (Dbl_set_cur b this), px))"

definition Dbl_Read :: "DoubleBufferedSharedMemorySidebandData \<Rightarrow> byte list \<Rightarrow> int64 \<Rightarrow> int64 \<Rightarrow>
    posix_shm \<Rightarrow>
    stop + (bool \<times> byte list \<times> int64 \<times> DoubleBufferedSharedMemorySidebandData \<times> posix_shm)" where
  "Dbl_Read this bytes bufferSize numBytesRead px =
     andThen (Shm_Read (Dbl_cur this) bytes bufferSize numBytesRead px)
       (\<lambda>(result, bytes, numBytesRead, b, px).
     Inr (result, bytes, numBytesRead, Dbl_swap (Dbl_set_cur b this), px))"

definition Dbl_WriteLengthPrefixed :: "DoubleBufferedSharedMemorySidebandData \<Rightarrow> byte list \<Rightarrow> int64 \<Rightarrow>
    posix_shm \<Rightarrow> stop + (bool \<times> DoubleBufferedSharedMemorySidebandData \<times> posix_shm)" where
  "Dbl_WriteLengthPrefixed this bytes byteCount px =
     andThen (Shm_Write (Dbl_cur this) (int64_bytes byteCount) 8 px) (\<lambda>(result, b, px).
       let this = Dbl_set_cur b this in
       if \<not> result then Inr (False, this, px)
       else andThen (Shm_Write (Dbl_cur this) bytes byteCount px) (\<lambda>(result, b, px).
         let this = Dbl_set_cur b this in
         if \<not> result then Inr (False, this, px)
         else Inr (True, Dbl_swap this, px)))"

definition Dbl_ReadFromLengthPrefixed :: "DoubleBufferedSharedMemorySidebandData \<Rightarrow> byte list \<Rightarrow>
    int64 \<Rightarrow> int64 \<Rightarrow> posix_shm \<Rightarrow>
    stop + (bool \<times> byte list \<times> int64 \<times> DoubleBufferedSharedMemorySidebandData \<times> posix_shm)" where
  "Dbl_ReadFromLengthPrefixed this bytes bufferSize numBytesRead px =
     andThen (Shm_ReadFromLengthPrefixed (Dbl_cur this) bytes bufferSize numBytesRead px)
       (\<lambda>(result, bytes, numBytesRead, b, px).
     Inr (result, bytes, numBytesRead, Dbl_swap (Dbl_set_cur b this), px))"

definition Dbl_ReadLengthPrefix :: "DoubleBufferedSharedMemorySidebandData \<Rightarrow> posix_shm \<Rightarrow>
    stop + (int64 \<times> DoubleBufferedSharedMemorySidebandData \<times> posix_shm)" where
  "Dbl_ReadLengthPrefix this px =
     andThen (Shm_ReadLengthPrefix (Dbl_cur this) px) (\<lambda>(n, b, px).
     Inr (n, Dbl_set_cur b this, px))"

section \<open>Direct access\<close>

definition Dbl_SupportsDirectReadWrite :: bool where
  "Dbl_SupportsDirectReadWrite = True"

definition Dbl_BeginDirectRead :: "DoubleBufferedSharedMemorySidebandData \<Rightarrow> int64 \<Rightarrow> posix_shm \<Rightarrow>
    ptr \<times> DoubleBufferedSharedMemorySidebandData \<times> posix_shm" where
  "Dbl_BeginDirectRead this byteCount px =
     (case Shm_BeginDirectRead (Dbl_cur this) byteCount px of (p, b, px) \<Rightarrow>
        (p, Dbl_set_cur b this, px))"

definition Dbl_BeginDirectReadLengthPrefixed :: "DoubleBufferedSharedMemorySidebandData \<Rightarrow> int64 \<Rightarrow>
    posix_shm \<Rightarrow> stop + (ptr \<times> int64 \<times> DoubleBufferedSharedMemorySidebandData \<times> posix_shm)" where
  "Dbl_BeginDirectReadLengthPrefixed this bufferSize px =
     andThen (Shm_BeginDirectReadLengthPrefixed (Dbl_cur this) bufferSize px)
       (\<lambda>(p, bufferSize, b, px). Inr (p, bufferSize, Dbl_set_cur b this, px))"

definition Dbl_FinishDirectRead :: "DoubleBufferedSharedMemorySidebandData \<Rightarrow>
    bool \<times> DoubleBufferedSharedMemorySidebandData" where
  "Dbl_FinishDirectRead this = (True, Dbl_swap this)"

definition Dbl_BeginDirectWrite :: "DoubleBufferedSharedMemorySidebandData \<Rightarrow> posix_shm \<Rightarrow>
    ptr \<times> DoubleBufferedSharedMemorySidebandData \<times> posix_shm" where
  "Dbl_BeginDirectWrite this px =
     (case Shm_BeginDirectWrite (Dbl_cur this) px of (p, b, px) \<Rightarrow> (p, Dbl_set_cur b this, px))"

definition Dbl_FinishDirectWrite :: "DoubleBufferedSharedMemorySidebandData \<Rightarrow> int64 \<Rightarrow>
    bool \<times> DoubleBufferedSharedMemorySidebandData" where
  "Dbl_FinishDirectWrite this byteCount = (True, Dbl_swap this)"

section \<open>Sessions of a writer and a reader\<close>

text \<open>
  The owner writes messages of \<open>n\<close> bytes, the client reads them, in any order of calls. The last
  two arguments record the messages written so far and the number of reads.
\<close>

definition slot :: "nat \<Rightarrow> which" where
  "slot k = (if even k then BufA else BufB)"

inductive Dbl_session :: "nat \<Rightarrow> DoubleBufferedSharedMemorySidebandData \<Rightarrow>
    DoubleBufferedSharedMemorySidebandData \<Rightarrow> posix_shm \<Rightarrow> byte list list \<Rightarrow> nat \<Rightarrow> bool"
  for n :: nat where
  start: "wf_posix px \<Longrightarrow> n \<le> unat len \<Longrightarrow>
    Shm_openable 4 (Shm_new (id0 @ ''_A'') len) px \<Longrightarrow> Shm_openable 4 (Shm_new (id0 @ ''_B'') len) px \<Longrightarrow>
    Dbl_session n (Dbl_new id0 len) (Dbl_new id0 len) px [] 0"
| wrote: "Dbl_session n w r px ws k \<Longrightarrow> length bytes = n \<Longrightarrow>
    Dbl_Write w bytes (of_nat n) px = Inr (True, w', px') \<Longrightarrow>
    Dbl_session n w' r px' (ws @ [bytes]) k"
| took: "Dbl_session n w r px ws k \<Longrightarrow> length dst = n \<Longrightarrow>
    Dbl_Read r dst (of_nat n) nread px = Inr (True, dst', nread', r', px') \<Longrightarrow>
    Dbl_session n w r' px' ws (Suc k)"

definition Dbl_cost :: "DoubleBufferedSharedMemorySidebandData \<Rightarrow> nat" where
  "Dbl_cost this = Shm_cost (db_bufferA this) + Shm_cost (db_bufferB this)"

text \<open>Both buffers of an object can be used, with \<open>k\<close> descriptors still to be had.\<close>

definition Dbl_ready :: "nat \<Rightarrow> DoubleBufferedSharedMemorySidebandData \<Rightarrow> posix_shm \<Rightarrow> bool" where
  "Dbl_ready k this px \<longleftrightarrow> Shm_ready k (db_bufferA this) px \<and> Shm_ready k (db_bufferB this) px"

definition Dbl_twins :: "DoubleBufferedSharedMemorySidebandData \<Rightarrow>
    DoubleBufferedSharedMemorySidebandData \<Rightarrow> bool" where
  "Dbl_twins a b \<longleftrightarrow>
     (\<forall>c d. (Shm_path (Dbl_buf c a) = Shm_path (Dbl_buf d b) \<longleftrightarrow> c = d) \<and>
       shm_bufferSize (Dbl_buf c a) = shm_bufferSize (Dbl_buf d b))"

definition Dbl_inv :: "nat \<Rightarrow> DoubleBufferedSharedMemorySidebandData \<Rightarrow>
    DoubleBufferedSharedMemorySidebandData \<Rightarrow> posix_shm \<Rightarrow> byte list list \<Rightarrow> nat \<Rightarrow> bool" where
  "Dbl_inv n w r px ws k \<longleftrightarrow> wf_posix px \<and> Dbl_twins w r \<and>
     n < 2 ^ 63 \<and> n \<le> Shm_len (db_bufferA r) \<and>
     Dbl_ready (Dbl_cost w + Dbl_cost r) w px \<and> Dbl_ready (Dbl_cost w + Dbl_cost r) r px \<and>
     db_current w = slot (length ws) \<and> db_current r = slot k \<and>
     (\<forall>j < length ws. length (ws ! j) = n) \<and>
     (\<forall>j < length ws. length ws \<le> j + 2 \<longrightarrow>
       mem_read 0 n (Shm_view (Dbl_buf (slot j) r) px) = ws ! j)"

lemma slot_simps [simp]: "slot (Suc k) = (if slot k = BufA then BufB else BufA)"
  by (simp add: slot_def)

lemma Dbl_buf_set [simp]:
  "Dbl_buf c (Dbl_set_buf d b this) = (if c = d then b else Dbl_buf c this)"
  by (cases c; cases d) simp_all

lemma Dbl_buf_swap [simp]: "Dbl_buf c (Dbl_swap this) = Dbl_buf c this"
  by (cases c) (simp_all add: Dbl_swap_def)

lemma Dbl_current_swap [simp]:
  "db_current (Dbl_swap this) = (if db_current this = BufA then BufB else BufA)"
  by (simp add: Dbl_swap_def)

lemma Dbl_current_set [simp]: "db_current (Dbl_set_buf d b this) = db_current this"
  by (cases d) simp_all

lemma Dbl_ready_buf: "Dbl_ready k this px \<longleftrightarrow> (\<forall>c. Shm_ready k (Dbl_buf c this) px)"
  by (metis Dbl_buf.elims Dbl_buf.simps Dbl_ready_def)

lemma Dbl_cost_buf:
  "Dbl_cost this = Shm_cost (Dbl_buf c this) + Shm_cost (Dbl_buf (if c = BufA then BufB else BufA) this)"
  by (cases c) (simp_all add: Dbl_cost_def)

lemma Dbl_twins_sym: "Dbl_twins a b \<longleftrightarrow> Dbl_twins b a"
  unfolding Dbl_twins_def by metis

lemma Dbl_twins_buf:
  assumes "Dbl_twins a b"
  shows "Shm_compatible (Dbl_buf c a) (Dbl_buf d b)" and "Shm_compatible (Dbl_buf c a) (Dbl_buf d a)"
    and "Shm_path (Dbl_buf c a) = Shm_path (Dbl_buf d b) \<longleftrightarrow> c = d"
    and "shm_bufferSize (Dbl_buf c a) = shm_bufferSize (Dbl_buf d b)"
  using assms unfolding Dbl_twins_def Shm_compatible_def by metis+

text \<open>One operation on the current buffer of one of two twins leaves both usable.\<close>

lemma Dbl_step_ready:
  assumes tw: "Dbl_twins a b" and a: "Dbl_ready (Dbl_cost a + Dbl_cost b) a px"
    and b: "Dbl_ready (Dbl_cost a + Dbl_cost b) b px"
    and e: "Shm_effect (Shm_cost (Dbl_buf c a)) f (Dbl_buf c a) px x px'"
  defines "a' \<equiv> Dbl_swap (Dbl_set_buf c x a)"
  shows "Dbl_twins a' b" and "Dbl_ready (Dbl_cost a' + Dbl_cost b) a' px'"
    and "Dbl_ready (Dbl_cost a' + Dbl_cost b) b px'"
proof -
  note basic = Shm_effect_basic [OF e]
  show "Dbl_twins a' b"
    using tw basic(4,5) by (simp add: a'_def Dbl_twins_def)
  have cost: "Dbl_cost a = Dbl_cost a' + Shm_cost (Dbl_buf c a)"
    using Shm_cost_attached [OF basic(2)] by (cases c) (simp_all add: a'_def Dbl_cost_def Dbl_swap_def)
  then have sum: "Dbl_cost a + Dbl_cost b = (Dbl_cost a' + Dbl_cost b) + Shm_cost (Dbl_buf c a)" by simp
  show "Dbl_ready (Dbl_cost a' + Dbl_cost b) a' px'"
    using a basic(3) Shm_effect_other(2) [OF e Dbl_twins_buf(2) [OF tw]]
    by (auto simp: Dbl_ready_buf a'_def sum)
  show "Dbl_ready (Dbl_cost a' + Dbl_cost b) b px'"
    using b Shm_effect_other(2) [OF e Dbl_twins_buf(1) [OF tw]] by (auto simp: Dbl_ready_buf sum)
qed

section \<open>The invariant of a session\<close>

lemma Shm_ready_usable: "Shm_ready k b px \<Longrightarrow> Shm_cost b \<le> k \<Longrightarrow> Shm_ready (Suc 0) b px"
  by (auto simp: Shm_ready_def Shm_cost_def Shm_openable_def split: if_splits)

lemma Dbl_cur_usable:
  "Dbl_ready (Dbl_cost a + j) a px \<Longrightarrow> Shm_ready (Suc 0) (Dbl_cur a) px"
  using Shm_ready_usable [of "Dbl_cost a + j" "Dbl_cur a" px]
  by (simp add: Dbl_ready_buf Dbl_cur_def Dbl_cost_buf [of a "db_current a"])

lemma Dbl_inv_start:
  assumes "wf_posix px" and "n \<le> unat len"
    and "Shm_openable 4 (Shm_new (id0 @ ''_A'') len) px" and "Shm_openable 4 (Shm_new (id0 @ ''_B'') len) px"
  shows "Dbl_inv n (Dbl_new id0 len) (Dbl_new id0 len) px [] 0"
proof -
  have buf: "Dbl_buf c (Dbl_new id0 len) = Shm_new (id0 @ (if c = BufA then ''_A'' else ''_B'')) len" for c
    by (cases c) (simp_all add: Dbl_new_def)
  have tw: "Dbl_twins (Dbl_new id0 len) (Dbl_new id0 len)"
  proof -
    have "Shm_path (Dbl_buf c (Dbl_new id0 len)) = Shm_path (Dbl_buf d (Dbl_new id0 len)) \<longleftrightarrow> c = d"
      for c d by (cases c; cases d) (simp_all add: buf Shm_path_def Shm_new_def)
    moreover have "shm_bufferSize (Dbl_buf c (Dbl_new id0 len)) = len" for c
      by (simp add: buf Shm_new_def)
    ultimately show ?thesis by (simp add: Dbl_twins_def)
  qed
  have "Dbl_cost (Dbl_new id0 len) = 2" by (simp add: Dbl_cost_def Dbl_new_def Shm_cost_def Shm_new_def)
  moreover have "Dbl_ready 4 (Dbl_new id0 len) px"
    using assms(3,4) by (simp add: Dbl_ready_buf buf Shm_ready_def) (simp add: Shm_new_def)
  moreover have "n < 2 ^ 63" using assms(2,3) by (simp add: Shm_openable_def Shm_new_def)
  ultimately show ?thesis
    using assms tw by (simp add: Dbl_inv_def slot_def) (simp add: Dbl_new_def Shm_new_def)
qed

lemma Dbl_inv_wrote:
  assumes inv: "Dbl_inv n w r px ws k" and len: "length bytes = n"
    and call: "Dbl_Write w bytes (of_nat n) px = Inr (True, w', px')"
  shows "Dbl_inv n w' r px' (ws @ [bytes]) k"
proof -
  have wf: "wf_posix px" and tw: "Dbl_twins w r" and n: "n < 2 ^ 63" "n \<le> Shm_len (db_bufferA r)"
    and rw: "Dbl_ready (Dbl_cost w + Dbl_cost r) w px" and rr: "Dbl_ready (Dbl_cost w + Dbl_cost r) r px"
    and cur: "db_current w = slot (length ws)"
    and held: "\<And>j. j < length ws \<Longrightarrow> length ws \<le> j + 2 \<Longrightarrow>
      mem_read 0 n (Shm_view (Dbl_buf (slot j) r) px) = ws ! j"
    using inv by (simp_all add: Dbl_inv_def)
  let ?c = "db_current w"
  have size: "shm_bufferSize (Dbl_buf c r) = shm_bufferSize (db_bufferA r)" for c
    using tw unfolding Dbl_twins_def by (metis Dbl_buf.simps(1))
  have size_w: "Shm_len (Dbl_cur w) = Shm_len (db_bufferA r)"
    using Dbl_twins_buf(4) [OF tw, of ?c BufA] by (simp add: Dbl_cur_def)
  obtain x px2 where w: "Shm_Write (Dbl_cur w) bytes (of_nat n) px = Inr (True, x, px2)"
    and e: "Shm_effect (Shm_cost (Dbl_cur w)) (mem_write 0 bytes) (Dbl_cur w) px x px2"
    using Shm_Write_ready [OF wf Dbl_cur_usable [OF rw], of "of_nat n" bytes] len n size_w by auto
  have w': "w' = Dbl_swap (Dbl_set_buf ?c x w)" and px': "px' = px2"
    using call by (simp_all add: Dbl_Write_def w Dbl_set_cur_def)
  note e' = e [unfolded Dbl_cur_def]
  have view: "Shm_view (Dbl_buf c r) px2 =
      (if c = ?c then mem_write 0 bytes (Shm_view (Dbl_buf c r) px) else Shm_view (Dbl_buf c r) px)" for c
  proof -
    have "Shm_path (Dbl_buf c r) = Shm_path (Dbl_buf ?c w) \<longleftrightarrow> c = ?c"
      using Dbl_twins_buf(3) [OF tw, of ?c c] by metis
    then show ?thesis using Shm_effect_other(1) [OF e' Dbl_twins_buf(1) [OF tw, of ?c c]] by simp
  qed
  have new: "mem_read 0 n (Shm_view (Dbl_buf ?c r) px2) = bytes"
    using read_write_same [of 0 bytes "Shm_view (Dbl_buf ?c r) px"] len n size [of ?c] by (simp add: view)
  have "mem_read 0 n (Shm_view (Dbl_buf (slot j) r) px2) = (ws @ [bytes]) ! j"
    if j: "j < Suc (length ws)" "Suc (length ws) \<le> j + 2" for j
  proof (cases "j = length ws")
    case True
    then show ?thesis using new cur by simp
  next
    case False
    then have "length ws = Suc j" using j by simp
    then have "slot j \<noteq> ?c" using cur by (simp split: if_splits)
    then show ?thesis using held [of j] \<open>length ws = Suc j\<close> by (simp add: view nth_append)
  qed
  then show ?thesis
    using Dbl_step_ready [OF tw rw rr e'] Shm_effect_basic(1) [OF e] inv len cur
    by (simp add: Dbl_inv_def w' px' nth_append less_Suc_eq)
qed

lemma Dbl_Read_inv:
  assumes inv: "Dbl_inv n w r px ws k" and len: "length dst = n"
  shows "\<exists>x px'. Dbl_Read r dst (of_nat n) nread px =
      Inr (True, mem_read 0 n (Shm_view (Dbl_buf (slot k) r) px), nread,
        Dbl_swap (Dbl_set_buf (slot k) x r), px') \<and>
    Dbl_inv n w (Dbl_swap (Dbl_set_buf (slot k) x r)) px' ws (Suc k)"
proof -
  have wf: "wf_posix px" and tw: "Dbl_twins r w" and n: "n < 2 ^ 63" "n \<le> Shm_len (db_bufferA r)"
    and rw: "Dbl_ready (Dbl_cost r + Dbl_cost w) w px" and rr: "Dbl_ready (Dbl_cost r + Dbl_cost w) r px"
    and cur: "db_current r = slot k"
    using inv by (simp_all add: Dbl_inv_def Dbl_twins_sym add.commute)
  have size: "Shm_len (Dbl_buf c r) = Shm_len (db_bufferA r)" for c
    using tw unfolding Dbl_twins_def by (metis Dbl_buf.simps(1))
  obtain x px' where r: "Shm_Read (Dbl_cur r) dst (of_nat n) nread px =
      Inr (True, mem_write 0 (mem_read 0 n (Shm_view (Dbl_cur r) px)) dst, nread, x, px')"
    and e: "Shm_effect (Shm_cost (Dbl_cur r)) (\<lambda>v. v) (Dbl_cur r) px x px'"
    using Shm_Read_ready [OF wf Dbl_cur_usable [OF rr], of "of_nat n" dst nread] len n size
    by (auto simp: Dbl_cur_def)
  note e' = e [unfolded Dbl_cur_def cur]
  let ?r = "Dbl_swap (Dbl_set_buf (slot k) x r)"
  have all: "mem_write 0 (mem_read 0 n (Shm_view (Dbl_cur r) px)) dst =
      mem_read 0 n (Shm_view (Dbl_buf (slot k) r) px)"
    using len n size by (simp add: Dbl_cur_def cur mem_write_all memory_simps)
  have view: "Shm_view (Dbl_buf c ?r) px' = Shm_view (Dbl_buf c r) px" for c
    using Shm_effect_view [OF e'] Shm_effect_other(1) [OF e' Dbl_twins_buf(2) [OF tw], of c] by simp
  have held: "\<forall>j < length ws. length ws \<le> j + 2 \<longrightarrow>
      mem_read 0 n (Shm_view (Dbl_buf (slot j) ?r) px') = ws ! j"
    unfolding view using inv by (simp add: Dbl_inv_def)
  have size': "Shm_len (db_bufferA ?r) = Shm_len (db_bufferA r)"
    using Shm_effect_basic(5) [OF e'] size by (metis Dbl_buf.simps(1) Dbl_buf_set Dbl_buf_swap)
  have "Dbl_inv n w ?r px' ws (Suc k)"
    using Dbl_step_ready [OF tw rr rw e'] Shm_effect_basic(1) [OF e] inv cur held
    by (simp add: Dbl_inv_def size' Dbl_twins_sym [of w] add.commute [of "Dbl_cost w"])
  moreover have "Dbl_Read r dst (of_nat n) nread px =
      Inr (True, mem_read 0 n (Shm_view (Dbl_buf (slot k) r) px), nread, ?r, px')"
    by (simp add: Dbl_Read_def r all Dbl_set_cur_def cur)
  ultimately show ?thesis by blast
qed

lemma Dbl_session_inv: "Dbl_session n w r px ws k \<Longrightarrow> Dbl_inv n w r px ws k"
proof (induction rule: Dbl_session.induct)
  case (start px len id0)
  then show ?case by (rule Dbl_inv_start)
next
  case (wrote w r px ws k bytes w' px')
  then show ?case using Dbl_inv_wrote by blast
next
  case (took w r px ws k dst nread dst' nread' r' px')
  then show ?case using Dbl_Read_inv [OF took.IH took.hyps(2), of nread] by auto
qed

section \<open>Properties of the transport\<close>

text \<open>
  C18. In every interleaving of a writer and a reader, a read returns the next message in order as
  long as it has been written and the writer is at most two messages ahead.
\<close>

theorem dbl_reads_in_order:
  assumes "Dbl_session n w r px ws k" and "k < length ws" and "length ws \<le> k + 2" and "length dst = n"
  shows "\<exists>r' px'. Dbl_Read r dst (of_nat n) nread px = Inr (True, ws ! k, nread, r', px')"
proof -
  have inv: "Dbl_inv n w r px ws k" using assms(1) by (rule Dbl_session_inv)
  then have "mem_read 0 n (Shm_view (Dbl_buf (slot k) r) px) = ws ! k"
    using assms(2,3) by (simp add: Dbl_inv_def)
  then show ?thesis using Dbl_Read_inv [OF inv assms(4), of nread] by auto
qed

lemma Dbl_session_two:
  assumes "wf_posix px" and "n \<le> unat len"
    and "Shm_openable 4 (Shm_new (id0 @ ''_A'') len) px" and "Shm_openable 4 (Shm_new (id0 @ ''_B'') len) px"
  shows "\<exists>w px'. Dbl_session n w (Dbl_new id0 len) px' (replicate k (replicate n 0)) 0"
proof (induction k)
  case 0
  then show ?case using Dbl_session.start [OF assms] by auto
next
  case (Suc k)
  then obtain w px1 where s: "Dbl_session n w (Dbl_new id0 len) px1 (replicate k (replicate n 0)) 0" by blast
  then have inv: "Dbl_inv n w (Dbl_new id0 len) px1 (replicate k (replicate n 0)) 0" by (rule Dbl_session_inv)
  have cur: "Shm_ready (Suc 0) (Dbl_cur w) px1" "wf_posix px1" "n < 2 ^ 63" "n \<le> Shm_len (Dbl_cur w)"
  proof -
    have "Shm_len (Dbl_cur w) = Shm_len (db_bufferA (Dbl_new id0 len))"
      using inv Dbl_twins_buf(4) [of w "Dbl_new id0 len" "db_current w" BufA]
      by (simp add: Dbl_inv_def Dbl_cur_def)
    then show "n \<le> Shm_len (Dbl_cur w)" using inv by (simp add: Dbl_inv_def)
    show "Shm_ready (Suc 0) (Dbl_cur w) px1" "wf_posix px1" "n < 2 ^ 63"
      using inv Dbl_cur_usable by (auto simp: Dbl_inv_def)
  qed
  obtain x px2 where "Shm_Write (Dbl_cur w) (replicate n 0) (of_nat n) px1 = Inr (True, x, px2)"
    using Shm_Write_ready [OF cur(2,1), of "of_nat n" "replicate n 0"] cur(3,4) by auto
  then have "Dbl_Write w (replicate n 0) (of_nat n) px1 = Inr (True, Dbl_swap (Dbl_set_cur x w), px2)"
    by (simp add: Dbl_Write_def)
  from Dbl_session.wrote [OF s _ this] show ?case
    by (auto simp: replicate_append_same)
qed

theorem dbl_reads_in_order_witness:
  "\<exists>w r px r' px'. Dbl_session 4 w r px [replicate 4 0, replicate 4 0] 0 \<and>
    Dbl_Read r [1, 1, 1, 1] (of_nat 4) 9 px = Inr (True, replicate 4 0, 9, r', px')"
proof -
  obtain w px where s: "Dbl_session 4 w (Dbl_new ''X'' 64) px (replicate 2 (replicate 4 0)) 0"
    using Dbl_session_two [OF wf_posix_init, of 4 64 "''X''" 16 4096 4096 2]
    by (auto simp: Shm_openable_def Shm_new_def posix_init_def valid_shm_name_def Shm_path_def)
  then have s2: "Dbl_session 4 w (Dbl_new ''X'' 64) px [replicate 4 0, replicate 4 0] 0"
    by (simp add: numeral_2_eq_2)
  have "\<exists>r' px'. Dbl_Read (Dbl_new ''X'' 64) [1, 1, 1, 1] (of_nat 4) 9 px =
      Inr (True, replicate 4 0, 9, r', px')"
    using dbl_reads_in_order [OF s2, of "[1, 1, 1, 1]" 9] by simp
  with s2 show ?thesis by blast
qed

text \<open>
  Nothing keeps the writer from running further ahead: a read then returns the newest message
  that went through the reader's current buffer, and the messages before it are lost.
\<close>

theorem dbl_overrun_loses_messages:
  assumes "Dbl_session n w r px ws k" and "k < length ws" and "length dst = n"
  shows "\<exists>r' px'. Dbl_Read r dst (of_nat n) nread px =
    Inr (True, ws ! (k + 2 * ((length ws - 1 - k) div 2)), nread, r', px')"
proof -
  let ?j = "k + 2 * ((length ws - 1 - k) div 2)"
  have inv: "Dbl_inv n w r px ws k" using assms(1) by (rule Dbl_session_inv)
  have j: "?j < length ws" "length ws \<le> ?j + 2" and slot: "slot ?j = slot k"
    using assms(2) by (simp_all add: slot_def)
  have "mem_read 0 n (Shm_view (Dbl_buf (slot ?j) r) px) = ws ! ?j"
    using inv j unfolding Dbl_inv_def by blast
  then have "mem_read 0 n (Shm_view (Dbl_buf (slot k) r) px) = ws ! ?j" by (simp only: slot)
  then show ?thesis using Dbl_Read_inv [OF inv assms(3), of nread] by auto
qed

theorem dbl_overrun_loses_messages_witness:
  "\<exists>w r px r' px'. Dbl_session 4 w r px (replicate 3 (replicate 4 0)) 0 \<and>
    Dbl_Read r [1, 1, 1, 1] (of_nat 4) 9 px =
      Inr (True, replicate 4 0, 9, r', px')"
proof -
  obtain w px where s: "Dbl_session 4 w (Dbl_new ''X'' 64) px (replicate 3 (replicate 4 0)) 0"
    using Dbl_session_two [OF wf_posix_init, of 4 64 "''X''" 16 4096 4096 3]
    by (auto simp: Shm_openable_def Shm_new_def posix_init_def valid_shm_name_def Shm_path_def)
  have "\<exists>r' px'. Dbl_Read (Dbl_new ''X'' 64) [1, 1, 1, 1] (of_nat 4) 9 px =
      Inr (True, replicate 4 0, 9, r', px')"
    using dbl_overrun_loses_messages [OF s, of "[1, 1, 1, 1]" 9] by simp
  with s show ?thesis by blast
qed

text \<open>
  \<open>WriteLengthPrefixed\<close> writes the length and then the payload to the same place: the length the
  reader sees is the first eight bytes of the payload.
\<close>

theorem dbl_prefix_overwritten:
  assumes "wf_posix px" and "n \<le> unat len" and "n < 2 ^ 63" and "8 \<le> n" and "length bytes = n"
    and "Shm_openable 4 (Shm_new (id0 @ ''_A'') len) px" and "Shm_openable 4 (Shm_new (id0 @ ''_B'') len) px"
  shows "\<exists>w' px1 r' px2.
    Dbl_WriteLengthPrefixed (Dbl_new id0 len) bytes (of_nat n) px = Inr (True, w', px1) \<and>
    Dbl_ReadLengthPrefix (Dbl_new id0 len) px1 = Inr (bytes_int64 (take 8 bytes), r', px2)"
proof -
  let ?a = "Shm_new (id0 @ ''_A'') len"
  have cur: "Dbl_cur (Dbl_new id0 len) = ?a" by (simp add: Dbl_cur_def Dbl_new_def)
  have size: "Shm_len ?a = unat len" by (simp add: Shm_new_def)
  have ready: "Shm_ready (Suc 3) ?a px" using assms(6) by (simp add: Shm_ready_def Shm_new_def)
  obtain b px1 where w1: "Shm_Write ?a (int64_bytes (of_nat n)) 8 px = Inr (True, b, px1)"
    and e1: "Shm_effect (Shm_cost ?a) (mem_write 0 (int64_bytes (of_nat n))) ?a px b px1"
    using Shm_Write_ready [OF assms(1) ready, of 8 "int64_bytes (of_nat n)"] assms(2,4) size
    by (auto simp: sizeof_int64_def)
  note b1 = Shm_effect_basic [OF e1]
  have size_b: "Shm_len b = unat len" using b1(5) size by simp
  obtain c px2 where w2: "Shm_Write b bytes (of_nat n) px1 = Inr (True, c, px2)"
    and e2: "Shm_effect (Shm_cost b) (mem_write 0 bytes) b px1 c px2"
    using Shm_Write_ready [OF b1(1) b1(3) [of "Suc 0"], of "of_nat n" bytes] assms(2,3,5) size_b by auto
  have self: "Shm_compatible ?a ?a" "Shm_compatible b ?a"
    using b1(5) by (simp_all add: Shm_compatible_def)
  have view: "Shm_view ?a px2 = mem_write 0 bytes (mem_write 0 (int64_bytes (of_nat n)) (Shm_view ?a px))"
    using Shm_effect_other(1) [OF e2 self(2)] Shm_effect_other(1) [OF e1 self(1)] b1(4) by simp
  have "Shm_ready (Suc 2) ?a px1"
    using Shm_effect_other(2) [OF Shm_effect_one [OF e1] self(1), of "Suc 2"] ready by simp
  then have ready2: "Shm_ready (Suc 1) ?a px2"
    using Shm_effect_other(2) [OF Shm_effect_one [OF e2] self(2), of "Suc 1"] by (simp add: numeral_2_eq_2)
  have "length (mem_write 0 (int64_bytes (of_nat n)) (Shm_view ?a px)) = unat len"
    using assms(2,4) size by (simp add: memory_simps sizeof_int64_def)
  then have "mem_read 0 8 (Shm_view ?a px2) = take 8 bytes"
    using assms(2,4,5) by (simp add: view mem_read_def mem_write_def)
  then obtain d px3 where "Shm_ReadLengthPrefix ?a px2 = Inr (bytes_int64 (take 8 bytes), d, px3)"
    using Shm_ReadLengthPrefix_ready [OF Shm_effect_basic(1) [OF e2] ready2] size assms(2,4)
    by (auto simp: sizeof_int64_def)
  moreover have "Dbl_WriteLengthPrefixed (Dbl_new id0 len) bytes (of_nat n) px =
      Inr (True, Dbl_swap (Dbl_set_cur c (Dbl_set_cur b (Dbl_new id0 len))), px2)"
    using w1 w2 by (simp add: Dbl_WriteLengthPrefixed_def cur Let_def)
      (simp add: Dbl_cur_def Dbl_set_cur_def)
  ultimately show ?thesis by (simp add: Dbl_ReadLengthPrefix_def cur)
qed

theorem dbl_prefix_overwritten_witness:
  "\<exists>w' px1 r' px2. Dbl_WriteLengthPrefixed (Dbl_new ''X'' 64) (replicate 9 1) (of_nat 9)
      (posix_init 16 4096 4096) = Inr (True, w', px1) \<and>
    Dbl_ReadLengthPrefix (Dbl_new ''X'' 64) px1 = Inr (bytes_int64 (take 8 (replicate 9 1)), r', px2)"
  by (rule dbl_prefix_overwritten [OF wf_posix_init])
    (simp_all add: Shm_openable_def Shm_new_def posix_init_def valid_shm_name_def Shm_path_def)

end
