(* ===== verification/NetSockets.thy ===== *)
theory NetSockets
  imports ByteRegion
begin

text \<open>
  The socket calls of \<^verbatim>\<open>src/sideband_sockets.cc\<close> on Linux. A connection is two endpoints; what
  is sent on one is appended to the incoming bytes of the other, in order and without loss, as TCP
  promises. How many bytes a call moves and when it fails is up to the kernel: each endpoint
  carries the list of its decisions for the calls to come. A call for which there is no
  decision, and a \<open>recv\<close> with nothing to deliver on an open connection, wait for ever.
\<close>

section \<open>State\<close>

text \<open>
  \<open>Transfer k\<close>: the call moves up to \<open>k + 1\<close> bytes; \<open>Again\<close>: it returns -1 with \<open>EAGAIN\<close>;
  \<open>Fail\<close>: it returns -1 with another error.
\<close>

datatype io_event = Transfer nat | Again | Fail

record endpoint =
  ep_peer :: nat
  ep_in :: "byte list"
  ep_eof :: bool \<comment> \<open>the peer has closed its end\<close>
  ep_sends :: "io_event list"
  ep_recvs :: "io_event list"

record net =
  nt_eps :: "nat \<rightharpoonup> endpoint"
  nt_nodelay :: "nat list"
  nt_resolve :: "string \<Rightarrow> string \<Rightarrow> nat list option" \<comment> \<open>\<open>getaddrinfo\<close>\<close>
  nt_reachable :: "nat \<Rightarrow> bool"
  nt_next_fd :: nat
  nt_fd_limit :: nat
  nt_plan :: "io_event list" \<comment> \<open>decisions for new endpoints\<close>
  nt_backlog :: "nat list" \<comment> \<open>connections waiting to be accepted\<close>
  nt_bound :: "16 word \<rightharpoonup> nat" \<comment> \<open>the ports that are bound\<close>
  nt_bindable :: "16 word \<Rightarrow> bool" \<comment> \<open>those a process may bind\<close>
  nt_ephemeral :: "16 word" \<comment> \<open>the one that is chosen for port 0\<close>

text \<open>The kernel moves at most this many bytes in one call, which fits an \<open>int\<close>.\<close>

definition max_rw_count :: nat where
  "max_rw_count = 2147479552"

section \<open>Calls\<close>

text \<open>\<open>send(fd, start, n, 0)\<close>: the returned count and the state.\<close>

definition sys_send :: "nat \<Rightarrow> byte list \<Rightarrow> nat \<Rightarrow> net \<Rightarrow> stop + (int \<times> net)" where
  "sys_send fd start n net =
     (case nt_eps net fd of
        None \<Rightarrow> Inr (- 1, net)
      | Some ep \<Rightarrow>
          (case ep_sends ep of
             [] \<Rightarrow> Inl Blocks
           | ev # evs \<Rightarrow>
               let net = net\<lparr>nt_eps := (nt_eps net)(fd \<mapsto> ep\<lparr>ep_sends := evs\<rparr>)\<rparr> in
               (case ev of
                  Transfer k \<Rightarrow>
                    let m = min (Suc k) (min n max_rw_count) in
                    if length start < m then Inl BadAccess
                    else (case nt_eps net (ep_peer ep) of
                            None \<Rightarrow> Inr (int m, net)
                          | Some p \<Rightarrow> Inr (int m, net\<lparr>nt_eps := (nt_eps net)
                              (ep_peer ep \<mapsto> p\<lparr>ep_in := ep_in p @ take m start\<rparr>)\<rparr>))
                | _ \<Rightarrow> Inr (- 1, net))))"

text \<open>
  \<open>recv(fd, start, n, 0)\<close>: the returned count, whether \<open>errno\<close> is \<open>EAGAIN\<close>, the bytes and the
  state. At the end of the stream it returns 0.
\<close>

definition sys_recv :: "nat \<Rightarrow> nat \<Rightarrow> net \<Rightarrow> stop + (int \<times> bool \<times> byte list \<times> net)" where
  "sys_recv fd n net =
     (case nt_eps net fd of
        None \<Rightarrow> Inr (- 1, False, [], net)
      | Some ep \<Rightarrow>
          (case ep_recvs ep of
             [] \<Rightarrow> Inl Blocks
           | ev # evs \<Rightarrow>
               (case ev of
                  Transfer k \<Rightarrow>
                    if ep_in ep = [] \<and> \<not> ep_eof ep then Inl Blocks
                    else let m = min (Suc k) (min (min n max_rw_count) (length (ep_in ep)))
                         in Inr (int m, False, take m (ep_in ep),
                              net\<lparr>nt_eps := (nt_eps net)
                                (fd \<mapsto> ep\<lparr>ep_in := drop m (ep_in ep), ep_recvs := evs\<rparr>)\<rparr>)
                | Again \<Rightarrow> Inr (- 1, True, [],
                    net\<lparr>nt_eps := (nt_eps net)(fd \<mapsto> ep\<lparr>ep_recvs := evs\<rparr>)\<rparr>)
                | Fail \<Rightarrow> Inr (- 1, False, [],
                    net\<lparr>nt_eps := (nt_eps net)(fd \<mapsto> ep\<lparr>ep_recvs := evs\<rparr>)\<rparr>))))"

definition sys_close :: "nat \<Rightarrow> net \<Rightarrow> net" where
  "sys_close fd net =
     (case nt_eps net fd of
        None \<Rightarrow> net\<lparr>nt_bound := (\<lambda>port. if nt_bound net port = Some fd then None else nt_bound net port)\<rparr>
      | Some ep \<Rightarrow>
          let eps = (nt_eps net)(fd := None) in
          net\<lparr>nt_eps := (case eps (ep_peer ep) of
             None \<Rightarrow> eps | Some p \<Rightarrow> eps(ep_peer ep \<mapsto> p\<lparr>ep_eof := True\<rparr>))\<rparr>)"

text \<open>\<open>socket(\<dots>)\<close>: a descriptor, or -1.\<close>

definition sys_socket :: "net \<Rightarrow> int \<times> net" where
  "sys_socket net =
     (if nt_fd_limit net \<le> nt_next_fd net then (- 1, net)
      else (int (nt_next_fd net), net\<lparr>nt_next_fd := Suc (nt_next_fd net)\<rparr>))"

text \<open>
  \<open>bind(fd, address)\<close> for every interface: the port is a 16-bit word in the address, and 0 leaves the
  choice to the kernel.
\<close>

definition sys_bind :: "nat \<Rightarrow> 16 word \<Rightarrow> net \<Rightarrow> int \<times> net" where
  "sys_bind fd port net =
     (let port = (if port = 0 then nt_ephemeral net else port)
      in if nt_bound net port \<noteq> None \<or> \<not> nt_bindable net port then (- 1, net)
         else (0, net\<lparr>nt_bound := (nt_bound net)(port \<mapsto> fd)\<rparr>))"

text \<open>
  \<open>connect(fd, address)\<close>: on success both ends exist and the far end waits in the backlog of the
  listening server.
\<close>

definition sys_connect :: "int \<Rightarrow> nat \<Rightarrow> net \<Rightarrow> int \<times> net" where
  "sys_connect fd addr net =
     (if fd < 0 \<or> \<not> nt_reachable net addr then (- 1, net)
      else let far = nt_next_fd net in
        (0, net\<lparr>nt_next_fd := Suc far, nt_backlog := nt_backlog net @ [far],
          nt_eps := (nt_eps net)
            (nat fd \<mapsto> \<lparr>ep_peer = far, ep_in = [], ep_eof = False, ep_sends = nt_plan net,
               ep_recvs = nt_plan net\<rparr>,
             far \<mapsto> \<lparr>ep_peer = nat fd, ep_in = [], ep_eof = False, ep_sends = nt_plan net,
               ep_recvs = nt_plan net\<rparr>)\<rparr>))"

definition sys_set_nodelay :: "nat \<Rightarrow> net \<Rightarrow> net" where
  "sys_set_nodelay fd net = net\<lparr>nt_nodelay := fd # nt_nodelay net\<rparr>"

section \<open>How far the kernel's decisions reach\<close>

definition sends_left :: "nat \<Rightarrow> net \<Rightarrow> nat" where
  "sends_left fd net = (case nt_eps net fd of None \<Rightarrow> 0 | Some ep \<Rightarrow> length (ep_sends ep))"

definition recvs_left :: "nat \<Rightarrow> net \<Rightarrow> nat" where
  "recvs_left fd net = (case nt_eps net fd of None \<Rightarrow> 0 | Some ep \<Rightarrow> length (ep_recvs ep))"

lemma sys_send_decreases:
  assumes send: "sys_send fd start n net = Inr (w, net')" and "0 \<le> w"
  shows "sends_left fd net' < sends_left fd net"
proof -
  obtain ep where ep: "nt_eps net fd = Some ep"
    using assms by (cases "nt_eps net fd") (simp_all add: sys_send_def)
  obtain ev evs where ev: "ep_sends ep = ev # evs"
    using send ep by (cases "ep_sends ep") (simp_all add: sys_send_def)
  obtain k where k: "ev = Transfer k"
    using assms ep ev by (cases ev) (simp_all add: sys_send_def)
  have "sends_left fd net' = length evs"
  proof (cases "((nt_eps net)(fd \<mapsto> ep\<lparr>ep_sends := evs\<rparr>)) (ep_peer ep)")
    case None
    then show ?thesis using send ep ev k
      by (simp add: sys_send_def sends_left_def Let_def split: if_splits) auto
  next
    case (Some p)
    then show ?thesis using send ep ev k
      by (simp add: sys_send_def sends_left_def Let_def split: if_splits) auto
  qed
  then show ?thesis using ep ev by (simp add: sends_left_def)
qed

lemma sys_recv_decreases:
  assumes recv: "sys_recv fd n net = Inr (w, again, bs, net')" and "0 \<le> w \<or> again"
  shows "recvs_left fd net' < recvs_left fd net"
proof -
  obtain ep where ep: "nt_eps net fd = Some ep"
    using assms by (cases "nt_eps net fd") (simp_all add: sys_recv_def)
  obtain ev evs where ev: "ep_recvs ep = ev # evs"
    using recv ep by (cases "ep_recvs ep") (simp_all add: sys_recv_def)
  have "recvs_left fd net' = length evs"
    using recv ep ev
    by (cases ev; clarsimp simp: sys_recv_def recvs_left_def Let_def simp del: min_less_iff_conj split: if_splits)
  then show ?thesis using ep ev by (simp add: recvs_left_def)
qed

end
