(* ===== verification/ConnectionId.thy ===== *)
theory ConnectionId
  imports SidebandPrelude
begin

text \<open>
  Decimal text as \<open>sprintf("%10d")\<close>, \<open>std::to_string\<close> and \<open>std::stoi\<close> produce and read it, and the
  connection identifiers of \<^verbatim>\<open>src/sideband_data.cc\<close> (\<open>NextConnectionId\<close>, \<open>ConnectIdLength\<close>).
\<close>

section \<open>Decimal numbers\<close>

definition digit :: "nat \<Rightarrow> char" where
  "digit d = char_of (48 + d)"

fun show_nat :: "nat \<Rightarrow> string" where
  "show_nat n = (if n < 10 then [digit n] else show_nat (n div 10) @ [digit (n mod 10)])"

declare show_nat.simps [simp del]

definition show_int :: "int \<Rightarrow> string" where
  "show_int i = (if i < 0 then CHR ''-'' # show_nat (nat (- i)) else show_nat (nat i))"

text \<open>\<open>%10d\<close>: at least ten characters, padded on the left with spaces.\<close>

definition format_10d :: "int \<Rightarrow> string" where
  "format_10d i = replicate (10 - length (show_int i)) CHR '' '' @ show_int i"

text \<open>
  \<open>std::stoi\<close>: white space is skipped, a sign is read, then as many digits as there are; no digit at
  all is \<open>invalid_argument\<close>, a value that is no \<open>int\<close> is \<open>out_of_range\<close>.
\<close>

definition is_digit :: "char \<Rightarrow> bool" where
  "is_digit c \<longleftrightarrow> 48 \<le> (of_char c :: nat) \<and> (of_char c :: nat) \<le> 57"

definition digit_value :: "char \<Rightarrow> nat" where
  "digit_value c = of_char c - 48"

definition read_digits :: "string \<Rightarrow> nat" where
  "read_digits ds = foldl (\<lambda>n c. 10 * n + digit_value c) 0 ds"

definition is_space :: "char \<Rightarrow> bool" where
  "is_space c \<longleftrightarrow> (of_char c :: nat) \<in> {9, 10, 11, 12, 13, 32}"

definition stoi :: "string \<Rightarrow> stop + int" where
  "stoi s =
     (let t = dropWhile is_space s;
          neg = (t \<noteq> [] \<and> hd t = CHR ''-'');
          u = (if t \<noteq> [] \<and> (hd t = CHR ''-'' \<or> hd t = CHR ''+'') then tl t else t);
          ds = takeWhile is_digit u;
          v = (if neg then - int (read_digits ds) else int (read_digits ds))
      in if ds = [] then Inl (Throws ''invalid_argument'')
         else if v < - (2 ^ 31) \<or> 2 ^ 31 \<le> v then Inl (Throws ''out_of_range'')
         else Inr v)"

section \<open>Connection identifiers\<close>

text \<open>
  The state is the atomic counter \<open>_nextId\<close>, whose increment wraps around. The text is written into
  \<open>char buffer[20]\<close>; a longer one would overrun it.
\<close>

definition NextConnectionId :: "int32 \<Rightarrow> stop + (string \<times> int32)" where
  "NextConnectionId nextId =
     (let i = nextId + 1; text = ''ID:'' @ format_10d (sint i)
      in if 20 < length text + 1 then Inl BadAccess else Inr (text, i))"

text \<open>\<open>_zeroId\<close> is made by the first call, while the library is loaded.\<close>

definition zeroId :: string where
  "zeroId = (case NextConnectionId 0 of Inl _ \<Rightarrow> [] | Inr (text, _) \<Rightarrow> text)"

definition initial_nextId :: int32 where
  "initial_nextId = (case NextConnectionId 0 of Inl _ \<Rightarrow> 0 | Inr (_, i) \<Rightarrow> i)"

definition ConnectIdLength :: nat where
  "ConnectIdLength = length zeroId"

section \<open>Reading back what was printed\<close>

lemma of_char_digit [simp]: "d < 10 \<Longrightarrow> (of_char (digit d) :: nat) = 48 + d"
  by (simp add: digit_def take_bit_eq_mod)

lemma is_digit_digit [simp]: "d < 10 \<Longrightarrow> is_digit (digit d)"
  by (simp add: is_digit_def)

lemma digit_value_digit [simp]: "d < 10 \<Longrightarrow> digit_value (digit d) = d"
  by (simp add: digit_value_def)

lemma read_digits_snoc [simp]: "read_digits (ds @ [c]) = 10 * read_digits ds + digit_value c"
  by (simp add: read_digits_def)

lemma read_digits_show_nat [simp]: "read_digits (show_nat n) = n"
proof (induction n rule: show_nat.induct)
  case (1 n)
  show ?case
  proof (cases "n < 10")
    case True
    then show ?thesis by (subst show_nat.simps) (simp add: read_digits_def)
  next
    case False
    then show ?thesis using "1.IH" by (subst show_nat.simps) simp
  qed
qed

lemma show_nat_digits: "\<forall>c \<in> set (show_nat n). is_digit c"
proof (induction n rule: show_nat.induct)
  case (1 n)
  then show ?case by (subst show_nat.simps) auto
qed

lemma show_nat_nonempty [simp]: "show_nat n \<noteq> []"
  by (subst show_nat.simps) simp

lemma show_nat_length: "length (show_nat n) \<le> Suc k \<longleftrightarrow> n < 10 ^ Suc k"
proof (induction k arbitrary: n)
  case 0
  then show ?case by (subst show_nat.simps) (simp add: Suc_le_eq)
next
  case (Suc k)
  show ?case
  proof (cases "n < 10")
    case True
    moreover have "(10 :: nat) \<le> 10 ^ Suc (Suc k)" by simp
    ultimately have "n < 10 ^ Suc (Suc k)" by linarith
    with True show ?thesis by (subst show_nat.simps) simp
  next
    case False
    then have "length (show_nat n) = Suc (length (show_nat (n div 10)))"
      by (subst show_nat.simps) simp
    then have "length (show_nat n) \<le> Suc (Suc k) \<longleftrightarrow> n div 10 < 10 ^ Suc k"
      using Suc.IH [of "n div 10"] by simp
    also have "\<dots> \<longleftrightarrow> n < 10 ^ Suc (Suc k)" by (simp add: less_mult_imp_div_less div_less_iff_less_mult mult.commute)
    finally show ?thesis .
  qed
qed

lemma not_digit [simp]: "\<not> is_digit CHR ''-''" "\<not> is_digit CHR ''+''" "\<not> is_digit CHR '':''"
  "\<not> is_digit CHR '' ''"
  by (simp_all add: is_digit_def)

lemma is_digit_not_space: "is_digit c \<Longrightarrow> \<not> is_space c"
  by (auto simp: is_digit_def is_space_def)

lemma is_digit_not_sign: "is_digit c \<Longrightarrow> c \<noteq> CHR ''-'' \<and> c \<noteq> CHR ''+'' \<and> c \<noteq> CHR '':'' \<and> c \<noteq> CHR ''%''"
  by (auto simp: is_digit_def)

lemma show_nat_hd: "is_digit (hd (show_nat n))"
  using show_nat_digits [of n] show_nat_nonempty [of n] by (metis hd_in_set)

lemma stoi_show_int:
  assumes "- (2 ^ 31) \<le> i" and "i < 2 ^ 31"
  shows "stoi (show_int i) = Inr i"
proof -
  have tw: "takeWhile is_digit (show_nat n) = show_nat n" for n
    using show_nat_digits [of n] by (simp add: takeWhile_eq_all_conv)
  obtain c cs where c: "show_nat (nat i) = c # cs" by (cases "show_nat (nat i)") auto
  have "is_digit c" using show_nat_hd [of "nat i"] c by simp
  then have c': "\<not> is_space c" "c \<noteq> CHR ''-''" "c \<noteq> CHR ''+''"
    using is_digit_not_space is_digit_not_sign by blast+
  show ?thesis
  proof (cases "i < 0")
    case True
    have "\<not> is_space CHR ''-''" by (simp add: is_space_def)
    with True assms show ?thesis by (simp add: stoi_def show_int_def tw Let_def)
  next
    case False
    have "dropWhile is_space (show_nat (nat i)) = show_nat (nat i)" using c c' by simp
    moreover have "hd (show_nat (nat i)) \<noteq> CHR ''-''" "hd (show_nat (nat i)) \<noteq> CHR ''+''"
      using c c' by simp_all
    ultimately show ?thesis using False assms by (simp add: stoi_def show_int_def tw Let_def)
  qed
qed

lemma format_10d_inj:
  assumes "format_10d i = format_10d j"
  shows "i = j"
proof -
  have drop: "dropWhile (\<lambda>c. c = CHR '' '') (format_10d i) = show_int i" for i
  proof -
    have "hd (show_int i) \<noteq> CHR '' ''" "show_int i \<noteq> []"
      using show_nat_hd [of "nat i"] by (auto simp: show_int_def)
    then have "dropWhile (\<lambda>c. c = CHR '' '') (show_int i) = show_int i"
      by (cases "show_int i") auto
    then show ?thesis by (simp add: format_10d_def) (subst dropWhile_append2, auto)
  qed
  then have show_eq: "show_int i = show_int j" using assms by (metis drop)
  have neg: "i < 0 \<longleftrightarrow> hd (show_int i) = CHR ''-''" for i
    using show_nat_hd [of "nat i"] by (auto simp: show_int_def)
  then have sign: "i < 0 \<longleftrightarrow> j < 0" using show_eq by metis
  have "show_nat (nat \<bar>i\<bar>) = show_nat (nat \<bar>j\<bar>)"
    using show_eq sign by (auto simp: show_int_def split: if_splits)
  then have "nat \<bar>i\<bar> = nat \<bar>j\<bar>" by (metis read_digits_show_nat)
  then show ?thesis using sign by auto
qed

section \<open>Properties of the identifiers\<close>

lemma length_show_int:
  assumes "- (2 ^ 31) \<le> i" and "i < 2 ^ 31"
  shows "length (show_int i) \<le> 10 \<longleftrightarrow> - 999999999 \<le> i" and "length (show_int i) \<le> 11"
proof -
  have ten: "length (show_nat n) \<le> 10 \<longleftrightarrow> n < 10 ^ 10" and nine: "length (show_nat n) \<le> 9 \<longleftrightarrow> n < 10 ^ 9"
    for n using show_nat_length [of n 9] show_nat_length [of n 8] by simp_all
  have small: "length (show_nat (nat i)) \<le> 10" "length (show_nat (nat (- i))) \<le> 10"
    unfolding ten using assms by (simp_all add: nat_less_iff)
  have limit: "nat (- i) < 10 ^ 9 \<longleftrightarrow> - 999999999 \<le> i" by auto
  show "length (show_int i) \<le> 10 \<longleftrightarrow> - 999999999 \<le> i"
  proof (cases "i < 0")
    case True
    then have "length (show_int i) \<le> 10 \<longleftrightarrow> length (show_nat (nat (- i))) \<le> 9"
      by (simp add: show_int_def)
    then show ?thesis using nine limit by blast
  next
    case False
    then show ?thesis using small(1) by (simp add: show_int_def)
  qed
  show "length (show_int i) \<le> 11" using small by (simp add: show_int_def le_SucI)
qed

lemma sint_int32_bounds: "- (2 ^ 31) \<le> sint (w :: int32)" "sint (w :: int32) < 2 ^ 31"
  using sint_lt [of w] sint_ge [of w] by simp_all

lemma NextConnectionId_eq: "NextConnectionId k = Inr (''ID:'' @ format_10d (sint (k + 1)), k + 1)"
proof -
  have "length (show_int (sint (k + 1))) \<le> 11" using length_show_int(2) sint_int32_bounds by blast
  then show ?thesis by (simp add: NextConnectionId_def Let_def format_10d_def)
qed

lemma ConnectIdLength_eq: "ConnectIdLength = 13"
proof -
  have "sint (1 :: int32) = 1" by simp
  then have "length (format_10d (sint (1 :: int32))) = 10"
    using length_show_int(1) [of 1] by (simp add: format_10d_def)
  then show ?thesis by (simp add: ConnectIdLength_def zeroId_def NextConnectionId_eq)
qed

text \<open>
  \<open>NextConnectionId\<close> never overruns its buffer, and the identifier has the length that the
  server reads from a new connection (\<open>ConnectIdLength\<close>) exactly as long as the counter has not
  wrapped to below -999999999.
\<close>

theorem connection_id_length:
  "\<exists>text. NextConnectionId k = Inr (text, k + 1) \<and>
    (length text = ConnectIdLength \<longleftrightarrow> - 999999999 \<le> sint (k + 1))"
  using length_show_int(1) [OF sint_int32_bounds, of "k + 1"]
  by (auto simp: NextConnectionId_eq ConnectIdLength_eq format_10d_def)

text \<open>The identifiers that the next \<open>n\<close> calls return.\<close>

fun next_ids :: "nat \<Rightarrow> int32 \<Rightarrow> string list" where
  "next_ids 0 k = []"
| "next_ids (Suc n) k = (case NextConnectionId k of Inl _ \<Rightarrow> [] | Inr (text, k') \<Rightarrow> text # next_ids n k')"

lemma next_ids_eq: "next_ids n k = map (\<lambda>i. ''ID:'' @ format_10d (sint (k + of_nat (Suc i)))) [0..<n]"
proof (induction n arbitrary: k)
  case 0
  then show ?case by simp
next
  case (Suc n)
  have "[0..<Suc n] = 0 # map Suc [0..<n]" by (simp add: upt_conv_Cons map_Suc_upt del: upt_Suc)
  then show ?case by (simp add: NextConnectionId_eq Suc.IH o_def ac_simps del: upt_Suc)
qed

text \<open>C32. No two of the identifiers handed out by \<open>2 ^ 32\<close> consecutive calls are equal.\<close>

theorem connection_ids_distinct:
  assumes "n \<le> 2 ^ 32"
  shows "distinct (next_ids n k)"
proof -
  have "i = j" if "i < n" "j < n"
    and same: "''ID:'' @ format_10d (sint (k + of_nat (Suc i))) = ''ID:'' @ format_10d (sint (k + of_nat (Suc j)))"
    for i j
  proof -
    have "sint (k + of_nat (Suc i)) = sint (k + of_nat (Suc j))"
      using same by (simp del: of_nat_Suc) (rule format_10d_inj)
    then have "k + of_nat (Suc i) = k + of_nat (Suc j)" by (simp only: signed_word_eqI)
    then have "(of_nat i :: int32) = of_nat j" by simp
    then show ?thesis
      using that(1,2) assms by (simp add: word_of_nat_eq_iff take_bit_nat_eq_self)
  qed
  then have "inj_on (\<lambda>i. ''ID:'' @ format_10d (sint (k + of_nat (Suc i)))) (set [0..<n])"
    by (intro inj_onI) simp
  then show ?thesis by (simp add: next_ids_eq distinct_map del: of_nat_Suc)
qed

theorem connection_ids_distinct_witness: "distinct (next_ids 3 1)"
  by (rule connection_ids_distinct) simp

end
