(* ===== verification/MessageChannel.thy ===== *)
theory MessageChannel
  imports ByteRegion
begin

text \<open>
  The contract between the two ends of a sideband connection: messages that one end sends are
  received by the other, each once, whole and in order. A transport provides it by an invariant
  \<open>chan b c s q\<close>: in state \<open>s\<close> the messages \<open>q\<close> are under way and the environment still grants \<open>b\<close>
  units for sending and \<open>c\<close> units for receiving; a message \<open>m\<close> costs \<open>cost m\<close> units on either side.
\<close>

text \<open>A length-prefixed message on the wire.\<close>

definition frame :: "byte list \<Rightarrow> byte list" where
  "frame m = int64_bytes (of_nat (length m)) @ m"

lemma length_frame [simp]: "length (frame m) = sizeof_int64 + length m"
  by (simp add: frame_def)

definition message_fits :: "byte list \<Rightarrow> bool" where
  "message_fits m \<longleftrightarrow> length m < 2 ^ 63"

fun send_all :: "(byte list \<Rightarrow> 's \<Rightarrow> stop + (bool \<times> 's)) \<Rightarrow> byte list list \<Rightarrow> 's \<Rightarrow>
    stop + (bool \<times> 's)" where
  "send_all f [] s = Inr (True, s)"
| "send_all f (m # ms) s = andThen (f m s) (\<lambda>(ok, s). if ok then send_all f ms s else Inr (False, s))"

fun recv_all :: "('s \<Rightarrow> stop + (byte list \<times> 's)) \<Rightarrow> nat \<Rightarrow> 's \<Rightarrow> stop + (byte list list \<times> 's)" where
  "recv_all f 0 s = Inr ([], s)"
| "recv_all f (Suc n) s = andThen (f s) (\<lambda>(m, s).
     andThen (recv_all f n s) (\<lambda>(ms, s). Inr (m # ms, s)))"

locale message_channel =
  fixes send :: "byte list \<Rightarrow> 's \<Rightarrow> stop + (bool \<times> 's)"
    and recv :: "'s \<Rightarrow> stop + (byte list \<times> 's)"
    and chan :: "nat \<Rightarrow> nat \<Rightarrow> 's \<Rightarrow> byte list list \<Rightarrow> bool"
    and cost :: "byte list \<Rightarrow> nat"
    and fits :: "byte list \<Rightarrow> bool"
  assumes send_law: "chan (cost m + b) c s q \<Longrightarrow> fits m \<Longrightarrow>
      \<exists>s'. send m s = Inr (True, s') \<and> chan b c s' (q @ [m])"
    and recv_law: "chan b (cost m + c) s (m # q) \<Longrightarrow> \<exists>s'. recv s = Inr (m, s') \<and> chan b c s' q"
begin

lemma send_all_law:
  "chan (sum_list (map cost ms) + b) c s q \<Longrightarrow> list_all fits ms \<Longrightarrow>
    \<exists>s'. send_all send ms s = Inr (True, s') \<and> chan b c s' (q @ ms)"
proof (induction ms arbitrary: s q)
  case Nil
  then show ?case by simp
next
  case (Cons m ms)
  have "chan (cost m + (sum_list (map cost ms) + b)) c s q" using Cons.prems by (simp add: add.assoc)
  then obtain s1 where s1: "send m s = Inr (True, s1)" "chan (sum_list (map cost ms) + b) c s1 (q @ [m])"
    using send_law Cons.prems(2) by fastforce
  then obtain s' where "send_all send ms s1 = Inr (True, s')" "chan b c s' ((q @ [m]) @ ms)"
    using Cons.IH [OF s1(2)] Cons.prems(2) by auto
  then show ?case using s1(1) by auto
qed

lemma recv_all_law:
  "chan b (sum_list (map cost ms) + c) s (ms @ q) \<Longrightarrow>
    \<exists>s'. recv_all recv (length ms) s = Inr (ms, s') \<and> chan b c s' q"
proof (induction ms arbitrary: s)
  case Nil
  then show ?case by simp
next
  case (Cons m ms)
  have "chan b (cost m + (sum_list (map cost ms) + c)) s (m # (ms @ q))"
    using Cons.prems by (simp add: add.assoc)
  then obtain s1 where s1: "recv s = Inr (m, s1)" "chan b (sum_list (map cost ms) + c) s1 (ms @ q)"
    using recv_law by blast
  then obtain s' where "recv_all recv (length ms) s1 = Inr (ms, s')" "chan b c s' q"
    using Cons.IH by blast
  then show ?case using s1(1) by auto
qed

text \<open>First in, first out: everything sent is received in the order of sending.\<close>

lemma send_recv_all:
  assumes "chan (sum_list (map cost ms) + b) (sum_list (map cost ms) + c) s []" and "list_all fits ms"
  shows "\<exists>s1 s2. send_all send ms s = Inr (True, s1) \<and> recv_all recv (length ms) s1 = Inr (ms, s2) \<and> chan b c s2 []"
proof -
  obtain s1 where s1: "send_all send ms s = Inr (True, s1)" "chan b (sum_list (map cost ms) + c) s1 ([] @ ms)"
    using send_all_law [OF assms] by blast
  then obtain s2 where "recv_all recv (length ms) s1 = Inr (ms, s2)" "chan b c s2 []"
    using recv_all_law [of b ms c s1 "[]"] by auto
  with s1(1) show ?thesis by blast
qed

end

end
