(* ===== verification/SocketTransport.thy ===== *)
theory SocketTransport
  imports NetSockets SidebandBase ConnectionId MessageChannel
begin

text \<open>
  \<open>SocketSidebandData\<close> (\<^verbatim>\<open>src/sideband_sockets.cc\<close>, Linux branch): the loops that turn
  partial sends and receives into whole transfers, and the operations of the class on top of them.
\<close>

section \<open>The class\<close>

record SocketSidebandData = SidebandData +
  so_id :: string
  so_socket :: nat
  so_lowLatency :: bool

definition INVALID_SOCKET :: nat where
  "INVALID_SOCKET = 0"

definition So_new :: "string \<Rightarrow> int64 \<Rightarrow> bool \<Rightarrow> SocketSidebandData" where
  "So_new id0 bufferSize lowLatency = \<lparr>sd_bufferSize = bufferSize, sd_serializeBuffer = [],
     so_id = id0, so_socket = INVALID_SOCKET, so_lowLatency = lowLatency\<rparr>"

definition So_new_accepted :: "nat \<Rightarrow> int64 \<Rightarrow> bool \<Rightarrow> SocketSidebandData" where
  "So_new_accepted fd bufferSize lowLatency = \<lparr>sd_bufferSize = bufferSize, sd_serializeBuffer = [],
     so_id = '''', so_socket = fd, so_lowLatency = lowLatency\<rparr>"

definition So_delete :: "SocketSidebandData \<Rightarrow> net \<Rightarrow> net" where
  "So_delete this net = sys_close (so_socket this) net"

definition So_UsageId :: "SocketSidebandData \<Rightarrow> string" where
  "So_UsageId this = so_id this"

section \<open>The transfer loops\<close>

text \<open>
  \<open>WriteToSocket\<close>: \<open>start\<close> is the memory from the moving pointer on. The assertion after the loop
  fails for a negative count, for which the loop does not run.
\<close>

function write_loop :: "nat \<Rightarrow> byte list \<Rightarrow> int \<Rightarrow> net \<Rightarrow> stop + (bool \<times> net)" where
  "write_loop fd start remainingBytes net =
     (if 0 < remainingBytes then
        (case sys_send fd start (nat remainingBytes) net of
           Inl e \<Rightarrow> Inl e
         | Inr (written, net') \<Rightarrow>
             if written < 0 then Inr (False, net')
             else write_loop fd (drop (nat written) start) (remainingBytes - written) net')
      else if remainingBytes = 0 then Inr (True, net) else Inl AssertionFailed)"
  by pat_completeness auto
termination
  by (relation "measure (\<lambda>(fd, start, remainingBytes, net). sends_left fd net)")
    (auto intro: sys_send_decreases)

declare write_loop.simps [simp del]

definition So_WriteToSocket ::
  "SocketSidebandData \<Rightarrow> byte list \<Rightarrow> int64 \<Rightarrow> net \<Rightarrow> stop + (bool \<times> net)" where
  "So_WriteToSocket this buffer numBytes net = write_loop (so_socket this) buffer (sint numBytes) net"

text \<open>The inner loop of \<open>ReadFromSocket\<close>: \<open>recv\<close> again while it says \<open>EAGAIN\<close>.\<close>

function recv_again :: "nat \<Rightarrow> nat \<Rightarrow> net \<Rightarrow> stop + (int \<times> byte list \<times> net)" where
  "recv_again fd n net =
     (case sys_recv fd n net of
        Inl e \<Rightarrow> Inl e
      | Inr (r, again, bs, net') \<Rightarrow>
          if r < 0 \<and> again then recv_again fd n net' else Inr (r, bs, net'))"
  by pat_completeness auto
termination
  by (relation "measure (\<lambda>(fd, n, net). recvs_left fd net)") (auto intro: sys_recv_decreases)

declare recv_again.simps [simp del]

lemma recv_again_decreases:
  "recv_again fd n net = Inr (r, bs, net') \<Longrightarrow> 0 \<le> r \<Longrightarrow> recvs_left fd net' < recvs_left fd net"
proof (induction fd n net rule: recv_again.induct)
  case (1 fd n net)
  obtain w again bs1 net1 where recv: "sys_recv fd n net = Inr (w, again, bs1, net1)"
    using "1.prems" by (subst (asm) recv_again.simps) (auto split: sum.splits)
  show ?case
  proof (cases "w < 0 \<and> again")
    case True
    then have "recvs_left fd net' < recvs_left fd net1"
      using "1.IH" [OF recv refl refl refl] "1.prems" recv
      by (subst (asm) (2) recv_again.simps) simp
    also have "\<dots> < recvs_left fd net" using sys_recv_decreases [OF recv] True by simp
    finally show ?thesis .
  next
    case False
    then show ?thesis
      using "1.prems" recv sys_recv_decreases [OF recv] by (subst (asm) recv_again.simps) auto
  qed
qed

text \<open>\<open>ReadFromSocket\<close>: \<open>off\<close> is how far the pointer has moved into the caller's buffer \<open>dst\<close>.\<close>

function read_loop :: "nat \<Rightarrow> byte list \<Rightarrow> nat \<Rightarrow> int \<Rightarrow> net \<Rightarrow> stop + (bool \<times> byte list \<times> net)" where
  "read_loop fd dst off remainingBytes net =
     (if 0 < remainingBytes then
        (case recv_again fd (nat remainingBytes) net of
           Inl e \<Rightarrow> Inl e
         | Inr (n, bs, net') \<Rightarrow>
             if n < 0 then Inr (False, dst, net')
             else if length dst < off + length bs then Inl BadAccess
             else read_loop fd (mem_write off bs dst) (off + nat n) (remainingBytes - n) net')
      else if remainingBytes = 0 then Inr (True, dst, net) else Inl AssertionFailed)"
  by pat_completeness auto
termination
  by (relation "measure (\<lambda>(fd, dst, off, remainingBytes, net). recvs_left fd net)")
    (auto intro: recv_again_decreases)

declare read_loop.simps [simp del]

definition So_ReadFromSocket ::
  "SocketSidebandData \<Rightarrow> byte list \<Rightarrow> int64 \<Rightarrow> net \<Rightarrow> stop + (bool \<times> byte list \<times> net)" where
  "So_ReadFromSocket this buffer numBytes net =
     read_loop (so_socket this) buffer 0 (sint numBytes) net"

section \<open>Reading and writing\<close>

definition So_Write :: "SocketSidebandData \<Rightarrow> byte list \<Rightarrow> int64 \<Rightarrow> net \<Rightarrow> stop + (bool \<times> net)" where
  "So_Write this bytes byteCount net = So_WriteToSocket this bytes byteCount net"

definition So_Read :: "SocketSidebandData \<Rightarrow> byte list \<Rightarrow> int64 \<Rightarrow> int64 \<Rightarrow> net \<Rightarrow>
    stop + (bool \<times> byte list \<times> int64 \<times> net)" where
  "So_Read this bytes bufferSize numBytesRead net =
     andThen (So_ReadFromSocket this bytes bufferSize net) (\<lambda>(ok, bytes, net).
       if ok then Inr (True, bytes, bufferSize, net) else Inr (False, bytes, numBytesRead, net))"

definition So_WriteLengthPrefixed ::
  "SocketSidebandData \<Rightarrow> byte list \<Rightarrow> int64 \<Rightarrow> net \<Rightarrow> stop + (bool \<times> net)" where
  "So_WriteLengthPrefixed this bytes byteCount net =
     andThen (So_WriteToSocket this (int64_bytes byteCount) 8 net) (\<lambda>(result, net).
       if result then So_WriteToSocket this bytes byteCount net else Inr (result, net))"

definition So_ReadFromLengthPrefixed :: "SocketSidebandData \<Rightarrow> byte list \<Rightarrow> int64 \<Rightarrow> int64 \<Rightarrow> net \<Rightarrow>
    stop + (bool \<times> byte list \<times> int64 \<times> net)" where
  "So_ReadFromLengthPrefixed this bytes bufferSize numBytesRead net =
     So_Read this bytes bufferSize numBytesRead net"

text \<open>The local \<open>bufferSize\<close> starts as 0; the result of the read is not looked at.\<close>

definition So_ReadLengthPrefix :: "SocketSidebandData \<Rightarrow> net \<Rightarrow> stop + (int64 \<times> net)" where
  "So_ReadLengthPrefix this net =
     andThen (So_ReadFromSocket this (int64_bytes 0) 8 net) (\<lambda>(ok, buffer, net).
       Inr (bytes_int64 buffer, net))"

definition So_SupportsDirectReadWrite :: bool where
  "So_SupportsDirectReadWrite = False"

section \<open>Setting up a connection\<close>

text \<open>Characters travel as their codes.\<close>

definition chars_bytes :: "string \<Rightarrow> byte list" where
  "chars_bytes s = map (\<lambda>c. of_nat (of_char c)) s"

definition bytes_chars :: "byte list \<Rightarrow> string" where
  "bytes_chars bs = map (\<lambda>b. char_of (unat b)) bs"

definition So_ReadConnectionId ::
  "SocketSidebandData \<Rightarrow> net \<Rightarrow> stop + (SocketSidebandData \<times> net)" where
  "So_ReadConnectionId this net =
     andThen (So_ReadFromSocket this (replicate ConnectIdLength 0) (of_nat ConnectIdLength) net)
       (\<lambda>(ok, buffer, net). Inr (this\<lparr>so_id := bytes_chars buffer\<rparr>, net))"

text \<open>
  The addresses are tried in turn. A failing \<open>socket\<close> call returns -1, which as a \<open>uint64_t\<close> is not
  \<open>INVALID_SOCKET\<close> (0 on Linux), so that case is found by \<open>connect\<close> only. The result is the value
  of \<open>_socket\<close> after the loop.
\<close>

fun connect_loop :: "nat list \<Rightarrow> nat \<Rightarrow> net \<Rightarrow> nat \<times> net" where
  "connect_loop [] sock net = (sock, net)"
| "connect_loop (addr # addrs) sock net =
     (let (fd, net) = sys_socket net in
      if fd = int INVALID_SOCKET then (nat fd, net)
      else let (r, net) = sys_connect fd addr net in
        if r = - 1 then connect_loop addrs INVALID_SOCKET (if fd < 0 then net else sys_close (nat fd) net)
        else (nat fd, net))"

definition So_ConnectToSocket :: "SocketSidebandData \<Rightarrow> string \<Rightarrow> string \<Rightarrow> string \<Rightarrow> bool \<Rightarrow> net \<Rightarrow>
    stop + (SocketSidebandData \<times> net)" where
  "So_ConnectToSocket this address port usageId lowLatency net =
     (case nt_resolve net address port of
        None \<Rightarrow> Inr (this, net)
      | Some addrs \<Rightarrow>
          let (sock, net) = connect_loop addrs (so_socket this) net;
              this = this\<lparr>so_socket := sock\<rparr>
          in if sock = INVALID_SOCKET then Inr (this, net)
             else let net = (if lowLatency then sys_set_nodelay sock net else net) in
               andThen (So_WriteToSocket this (chars_bytes usageId) (of_nat (length usageId)) net)
                 (\<lambda>(ok, net). Inr (this, net)))"

section \<open>What the loops do\<close>

text \<open>
  \<open>send\<close> and \<open>recv\<close> events that let \<open>n\<close> bytes through, one byte per call at worst: a write does
  not repeat a call that returns -1, a read repeats it after \<open>EAGAIN\<close>.
\<close>

fun grants_sends :: "nat \<Rightarrow> io_event list \<Rightarrow> bool" where
  "grants_sends 0 evs = True"
| "grants_sends (Suc n) (Transfer k # evs) = grants_sends n evs"
| "grants_sends (Suc n) evs = False"

fun grants_recvs :: "nat \<Rightarrow> io_event list \<Rightarrow> bool" where
  "grants_recvs 0 evs = True"
| "grants_recvs (Suc n) [] = False"
| "grants_recvs (Suc n) (Transfer k # evs) = grants_recvs n evs"
| "grants_recvs (Suc n) (Again # evs) = grants_recvs (Suc n) evs"
| "grants_recvs (Suc n) (Fail # evs) = False"

lemma grants_sends_less: "grants_sends n evs \<Longrightarrow> m \<le> n \<Longrightarrow> grants_sends m evs"
proof (induction n evs arbitrary: m rule: grants_sends.induct)
  case (2 n k evs)
  then show ?case by (cases m) auto
qed auto

lemma grants_recvs_less: "grants_recvs n evs \<Longrightarrow> m \<le> n \<Longrightarrow> grants_recvs m evs"
proof (induction n evs arbitrary: m rule: grants_recvs.induct)
  case (3 n k evs)
  then show ?case by (cases m) auto
next
  case (4 n evs)
  then show ?case by (cases m) auto
qed auto

text \<open>The connection from endpoint \<open>fd\<close> to its peer, with nothing else in the way.\<close>

definition connected :: "nat \<Rightarrow> endpoint \<Rightarrow> endpoint \<Rightarrow> net \<Rightarrow> bool" where
  "connected fd ep p net \<longleftrightarrow>
     nt_eps net fd = Some ep \<and> nt_eps net (ep_peer ep) = Some p \<and> ep_peer ep \<noteq> fd"

text \<open>The state after \<open>bs\<close> went out on \<open>fd\<close> and the kernel's decisions \<open>evs\<close> are left.\<close>

definition after_send :: "nat \<Rightarrow> endpoint \<Rightarrow> endpoint \<Rightarrow> byte list \<Rightarrow> io_event list \<Rightarrow> net \<Rightarrow> net" where
  "after_send fd ep p bs evs net = net\<lparr>nt_eps := (nt_eps net)
     (fd \<mapsto> ep\<lparr>ep_sends := evs\<rparr>, ep_peer ep \<mapsto> p\<lparr>ep_in := ep_in p @ bs\<rparr>)\<rparr>"

lemma after_send_none [simp]:
  "connected fd ep p net \<Longrightarrow> ep_sends ep = evs \<Longrightarrow> after_send fd ep p [] evs net = net"
  by (auto simp: connected_def after_send_def fun_eq_iff map_upd_triv intro!: net.equality)

lemma connected_after_send:
  "connected fd ep p net \<Longrightarrow> connected fd (ep\<lparr>ep_sends := evs\<rparr>) (p\<lparr>ep_in := ep_in p @ bs\<rparr>)
    (after_send fd ep p bs evs net)"
  by (simp add: connected_def after_send_def)

lemma after_send_twice:
  "connected fd ep p net \<Longrightarrow>
    after_send fd (ep\<lparr>ep_sends := evs\<rparr>) (p\<lparr>ep_in := ep_in p @ bs\<rparr>) cs evs' (after_send fd ep p bs evs net) =
    after_send fd ep p (bs @ cs) evs' net"
  by (auto simp: after_send_def connected_def fun_upd_twist)

lemma sys_send_Transfer:
  assumes "connected fd ep p net" and "ep_sends ep = Transfer k # evs" and "0 < n" and "n \<le> length start"
  shows "\<exists>m. 0 < m \<and> m \<le> n \<and>
    sys_send fd start n net = Inr (int m, after_send fd ep p (take m start) evs net)"
proof -
  let ?m = "min (Suc k) (min n max_rw_count)"
  have "sys_send fd start n net = Inr (int ?m, after_send fd ep p (take ?m start) evs net)"
    using assms by (simp add: sys_send_def connected_def after_send_def Let_def)
  moreover have "0 < ?m" "?m \<le> n" using assms(3) by (simp_all add: max_rw_count_def)
  ultimately show ?thesis by blast
qed

lemma sys_send_refused:
  assumes "connected fd ep p net" and "ep_sends ep = ev # evs" and "ev = Again \<or> ev = Fail"
  shows "sys_send fd start n net = Inr (- 1, after_send fd ep p [] evs net)"
proof -
  have same: "(nt_eps net)(ep_peer ep \<mapsto> p) = nt_eps net"
    using assms(1) by (simp add: connected_def map_upd_triv)
  have "ep_peer ep \<noteq> fd" using assms(1) by (simp add: connected_def)
  then have "(nt_eps net)(fd \<mapsto> e, ep_peer ep \<mapsto> p) = (nt_eps net)(fd \<mapsto> e)" for e
    using same by (metis fun_upd_twist)
  then show ?thesis
    using assms by (auto simp: sys_send_def connected_def after_send_def Let_def)
qed

text \<open>
  Whatever the kernel decides, the bytes that reach the peer are a prefix of the message, all of it
  exactly when the loop reports success.
\<close>

lemma write_loop_prefix:
  assumes "write_loop fd start r net = Inr (ok, net')" and "connected fd ep p net"
    and "0 \<le> r" and "nat r \<le> length start"
  shows "\<exists>j evs. j \<le> nat r \<and> ok = (j = nat r) \<and> net' = after_send fd ep p (take j start) evs net"
  using assms
proof (induction fd start r net arbitrary: ep p rule: write_loop.induct)
  case (1 fd start r net)
  note conn = "1.prems"(2)
  show ?case
  proof (cases "0 < r")
    case False
    then have "r = 0" using "1.prems"(3) by simp
    then have "ok" "net' = net" using "1.prems"(1) by (subst (asm) write_loop.simps, simp)+
    moreover have "net = after_send fd ep p (take 0 start) (ep_sends ep) net"
      using after_send_none [OF conn refl] by simp
    ultimately show ?thesis using \<open>r = 0\<close> by (intro exI [of _ 0] exI [of _ "ep_sends ep"]) simp
  next
    case True
    show ?thesis
    proof (cases "ep_sends ep")
      case Nil
      then show ?thesis using "1.prems"(1) True conn
        by (subst (asm) write_loop.simps) (simp add: sys_send_def connected_def)
    next
      case (Cons ev evs)
      show ?thesis
      proof (cases ev)
        case (Transfer k)
        obtain m where "m \<le> nat r"
          and send: "sys_send fd start (nat r) net = Inr (int m, after_send fd ep p (take m start) evs net)"
          using sys_send_Transfer [OF conn Cons [unfolded Transfer] _ "1.prems"(4)] True by auto
        let ?net = "after_send fd ep p (take m start) evs net"
        have m: "0 \<le> r - int m" "nat (r - int m) \<le> length (drop m start)" "\<not> int m < 0"
          "nat r = m + nat (r - int m)" "nat (int m) = m"
          using \<open>m \<le> nat r\<close> True "1.prems"(4) by simp_all
        have "write_loop fd (drop m start) (r - int m) ?net = Inr (ok, net')"
          using "1.prems"(1) True send by (subst (asm) write_loop.simps) simp
        then obtain j evs' where j: "j \<le> nat (r - int m)" "ok = (j = nat (r - int m))"
          and net': "net' = after_send fd (ep\<lparr>ep_sends := evs\<rparr>) (p\<lparr>ep_in := ep_in p @ take m start\<rparr>)
            (take j (drop m start)) evs' ?net"
          using "1.IH" [OF True send refl m(3), unfolded m(5), OF _ connected_after_send [OF conn] m(1,2)]
          by auto
        have "net' = after_send fd ep p (take (m + j) start) evs' net"
          unfolding net' after_send_twice [OF conn] by (simp add: take_add)
        moreover have "m + j \<le> nat r" "ok = (m + j = nat r)" using j m(4) by auto
        ultimately show ?thesis by blast
      next
        case Again
        then show ?thesis using "1.prems"(1) True sys_send_refused [OF conn Cons]
          by (subst (asm) write_loop.simps) (auto intro!: exI [of _ 0])
      next
        case Fail
        then show ?thesis using "1.prems"(1) True sys_send_refused [OF conn Cons]
          by (subst (asm) write_loop.simps) (auto intro!: exI [of _ 0])
      qed
    qed
  qed
qed

lemma grants_sends_drop: "grants_sends (n + m) evs \<Longrightarrow> grants_sends m (drop n evs)"
proof (induction n arbitrary: evs)
  case (Suc n)
  then show ?case by (cases evs; cases "hd evs") auto
qed simp

text \<open>With enough granted, a write goes through, however the kernel cuts it up.\<close>

lemma write_loop_total:
  assumes "connected fd ep p net" and "0 \<le> r" and "nat r \<le> length start"
    and "grants_sends (nat r + b) (ep_sends ep)"
  shows "\<exists>evs. grants_sends b evs \<and>
    write_loop fd start r net = Inr (True, after_send fd ep p (take (nat r) start) evs net)"
  using assms
proof (induction fd start r net arbitrary: ep p rule: write_loop.induct)
  case (1 fd start r net)
  note conn = "1.prems"(1)
  show ?case
  proof (cases "0 < r")
    case False
    then have "r = 0" using "1.prems"(2) by simp
    then show ?thesis using "1.prems"(4) after_send_none [OF conn refl]
      by (subst write_loop.simps) auto
  next
    case True
    then obtain k evs where ev: "ep_sends ep = Transfer k # evs"
      using "1.prems"(4) by (cases "nat r"; cases "ep_sends ep"; cases "hd (ep_sends ep)") auto
    obtain m where m1: "0 < m" "m \<le> nat r"
      and send: "sys_send fd start (nat r) net = Inr (int m, after_send fd ep p (take m start) evs net)"
      using sys_send_Transfer [OF conn ev _ "1.prems"(3)] True by auto
    let ?net = "after_send fd ep p (take m start) evs net"
    have m: "0 \<le> r - int m" "nat (r - int m) \<le> length (drop m start)" "\<not> int m < 0"
      "nat r = m + nat (r - int m)" "nat (int m) = m"
      using m1 True "1.prems"(3) by simp_all
    have "grants_sends (nat r - 1 + b) evs"
      using "1.prems"(4) ev True by (cases "nat r") simp_all
    then have left: "grants_sends (nat (r - int m) + b) evs"
      by (rule grants_sends_less) (use m1 in simp)
    obtain evs' where "grants_sends b evs'"
      and rest: "write_loop fd (drop m start) (r - int m) ?net =
        Inr (True, after_send fd (ep\<lparr>ep_sends := evs\<rparr>) (p\<lparr>ep_in := ep_in p @ take m start\<rparr>)
          (take (nat (r - int m)) (drop m start)) evs' ?net)"
      using "1.IH" [OF True send refl m(3), unfolded m(5), OF connected_after_send [OF conn] m(1,2)] left
      by auto
    have "write_loop fd start r net = Inr (True,
        after_send fd ep p (take m start @ take (nat (r - int m)) (drop m start)) evs' net)"
      using True send rest unfolding after_send_twice [OF conn] by (subst write_loop.simps) simp
    moreover have "take m start @ take (nat (r - int m)) (drop m start) = take (nat r) start"
      by (subst m(4)) (simp only: take_add)
    ultimately show ?thesis using \<open>grants_sends b evs'\<close> by auto
  qed
qed

section \<open>What the reading loop does\<close>

text \<open>The state after \<open>n\<close> bytes were taken from \<open>fd\<close>.\<close>

definition after_recv :: "nat \<Rightarrow> endpoint \<Rightarrow> nat \<Rightarrow> io_event list \<Rightarrow> net \<Rightarrow> net" where
  "after_recv fd ep n evs net = net\<lparr>nt_eps := (nt_eps net)
     (fd \<mapsto> ep\<lparr>ep_in := drop n (ep_in ep), ep_recvs := evs\<rparr>)\<rparr>"

lemma after_recv_ep [simp]:
  "nt_eps (after_recv fd ep n evs net) fd = Some (ep\<lparr>ep_in := drop n (ep_in ep), ep_recvs := evs\<rparr>)"
  by (simp add: after_recv_def)

lemma after_recv_twice:
  "after_recv fd (ep\<lparr>ep_in := drop n (ep_in ep), ep_recvs := evs\<rparr>) m evs' (after_recv fd ep n evs net) =
    after_recv fd ep (n + m) evs' net"
  by (simp add: after_recv_def add.commute)

lemma recv_again_granted:
  assumes "nt_eps net fd = Some ep" and "ep_in ep \<noteq> []" and "0 < n"
    and "grants_recvs (Suc b) (ep_recvs ep)"
  shows "\<exists>m evs. 0 < m \<and> m \<le> n \<and> m \<le> length (ep_in ep) \<and> grants_recvs b evs \<and>
    recv_again fd n net = Inr (int m, take m (ep_in ep), after_recv fd ep m evs net)"
  using assms
proof (induction fd n net arbitrary: ep rule: recv_again.induct)
  case (1 fd n net)
  obtain ev evs where ev: "ep_recvs ep = ev # evs"
    using "1.prems"(4) by (cases "ep_recvs ep") auto
  show ?case
  proof (cases ev)
    case (Transfer k)
    let ?m = "min (Suc k) (min (min n max_rw_count) (length (ep_in ep)))"
    have "recv_again fd n net = Inr (int ?m, take ?m (ep_in ep), after_recv fd ep ?m evs net)"
      using "1.prems" ev Transfer
      by (subst recv_again.simps) (simp add: sys_recv_def Let_def after_recv_def)
    moreover have "0 < ?m" using "1.prems" by (simp add: max_rw_count_def)
    ultimately show ?thesis using "1.prems"(4) ev Transfer by (intro exI [of _ ?m]) auto
  next
    case Again
    let ?net = "net\<lparr>nt_eps := (nt_eps net)(fd \<mapsto> ep\<lparr>ep_recvs := evs\<rparr>)\<rparr>"
    have recv: "sys_recv fd n net = Inr (- 1, True, [], ?net)"
      using "1.prems" ev Again by (simp add: sys_recv_def)
    obtain m evs' where m: "0 < m" "m \<le> n" "m \<le> length (ep_in ep)" "grants_recvs b evs'"
      and rest: "recv_again fd n ?net = Inr (int m, take m (ep_in ep), after_recv fd (ep\<lparr>ep_recvs := evs\<rparr>) m evs' ?net)"
      using "1.IH" [OF recv refl refl refl, of "ep\<lparr>ep_recvs := evs\<rparr>"] "1.prems" ev Again by auto
    have "recv_again fd n net = Inr (int m, take m (ep_in ep), after_recv fd ep m evs' net)"
      using recv rest by (subst recv_again.simps) (simp add: after_recv_def)
    with m show ?thesis by blast
  next
    case Fail
    then show ?thesis using "1.prems"(4) ev by simp
  qed
qed

lemma read_loop_total:
  assumes "nt_eps net fd = Some ep" and "0 \<le> r" and "nat r \<le> length (ep_in ep)"
    and "off + nat r \<le> length dst" and "grants_recvs (nat r + b) (ep_recvs ep)"
  shows "\<exists>evs. grants_recvs b evs \<and> read_loop fd dst off r net =
    Inr (True, mem_write off (take (nat r) (ep_in ep)) dst, after_recv fd ep (nat r) evs net)"
  using assms
proof (induction fd dst off r net arbitrary: ep rule: read_loop.induct)
  case (1 fd dst off r net)
  show ?case
  proof (cases "0 < r")
    case False
    then have "r = 0" using "1.prems"(2) by simp
    moreover have "after_recv fd ep 0 (ep_recvs ep) net = net"
      using "1.prems"(1) by (simp add: after_recv_def map_upd_triv)
    ultimately show ?thesis using "1.prems"(5)
      by (subst read_loop.simps) (auto simp: mem_write_def)
  next
    case True
    have "grants_recvs (Suc (nat r - 1 + b)) (ep_recvs ep)" using "1.prems"(5) True by (simp add: Suc_diff_le)
    moreover have "ep_in ep \<noteq> []" using "1.prems"(3) True by auto
    ultimately obtain m evs where m: "0 < m" "m \<le> nat r" "m \<le> length (ep_in ep)"
      and g: "grants_recvs (nat r - 1 + b) evs"
      and recv: "recv_again fd (nat r) net = Inr (int m, take m (ep_in ep), after_recv fd ep m evs net)"
      using recv_again_granted [OF "1.prems"(1), of "nat r" "nat r - 1 + b"] True by auto
    let ?ep = "ep\<lparr>ep_in := drop m (ep_in ep), ep_recvs := evs\<rparr>"
    let ?net = "after_recv fd ep m evs net"
    let ?dst = "mem_write off (take m (ep_in ep)) dst"
    have len: "length (take m (ep_in ep)) = m" "off + m \<le> length dst" "length ?dst = length dst"
      using m "1.prems"(4) by (simp_all add: memory_simps)
    have m': "0 \<le> r - int m" "nat (r - int m) \<le> length (drop m (ep_in ep))" "\<not> int m < 0"
      "nat r = m + nat (r - int m)" "nat (int m) = m" "off + m + nat (r - int m) \<le> length ?dst"
      "\<not> length dst < off + length (take m (ep_in ep))"
      using m len True "1.prems"(3,4) by simp_all
    have "grants_recvs (nat (r - int m) + b) evs" using g by (rule grants_recvs_less) (use m in simp)
    then obtain evs' where "grants_recvs b evs'"
      and rest: "read_loop fd ?dst (off + m) (r - int m) ?net = Inr (True,
        mem_write (off + m) (take (nat (r - int m)) (drop m (ep_in ep))) ?dst,
        after_recv fd ?ep (nat (r - int m)) evs' ?net)"
      using "1.IH" [OF True recv refl refl m'(3,7), unfolded m'(5), OF after_recv_ep m'(1) _ m'(6)] m'(2)
      by auto
    have "mem_write (off + m) (take (nat (r - int m)) (drop m (ep_in ep))) ?dst =
        mem_write off (take m (ep_in ep) @ take (nat (r - int m)) (drop m (ep_in ep))) dst"
      using mem_write_adjacent [of off "take m (ep_in ep)" "take (nat (r - int m)) (drop m (ep_in ep))" dst]
        len m'(2,6) by simp
    also have "take m (ep_in ep) @ take (nat (r - int m)) (drop m (ep_in ep)) = take (nat r) (ep_in ep)"
      by (subst m'(4)) (simp only: take_add)
    finally have "read_loop fd dst off r net = Inr (True, mem_write off (take (nat r) (ep_in ep)) dst,
        after_recv fd ep (m + nat (r - int m)) evs' net)"
      using True recv rest len by (subst read_loop.simps) (simp add: after_recv_twice)
    then show ?thesis using \<open>grants_recvs b evs'\<close> by (metis m'(4))
  qed
qed

text \<open>A read for more bytes than its buffer holds, if they come, writes behind the end of the buffer.\<close>

lemma read_loop_overflow:
  assumes "nt_eps net fd = Some ep" and "nat r \<le> length (ep_in ep)" and "off \<le> length dst"
    and "length dst < off + nat r" and "grants_recvs (nat r) (ep_recvs ep)"
  shows "read_loop fd dst off r net = Inl BadAccess"
  using assms
proof (induction fd dst off r net arbitrary: ep rule: read_loop.induct)
  case (1 fd dst off r net)
  have pos: "0 < r" using "1.prems"(3,4) by simp
  have grants: "grants_recvs (Suc (nat r - 1)) (ep_recvs ep)" using "1.prems"(5) pos by simp
  have "ep_in ep \<noteq> []" using "1.prems"(2) pos by auto
  then obtain m evs where m: "0 < m" "m \<le> nat r" "m \<le> length (ep_in ep)" and g: "grants_recvs (nat r - 1) evs"
    and recv: "recv_again fd (nat r) net = Inr (int m, take m (ep_in ep), after_recv fd ep m evs net)"
    using recv_again_granted [OF "1.prems"(1) _ _ grants, of "nat r"] pos by auto
  have len: "length (take m (ep_in ep)) = m" using m(3) by simp
  show ?case
  proof (cases "length dst < off + m")
    case True
    then show ?thesis using pos recv len by (subst read_loop.simps) simp
  next
    case False
    let ?ep = "ep\<lparr>ep_in := drop m (ep_in ep), ep_recvs := evs\<rparr>" and ?net = "after_recv fd ep m evs net"
    let ?dst = "mem_write off (take m (ep_in ep)) dst"
    have len': "length ?dst = length dst" using False len by (simp add: length_mem_write)
    have m': "\<not> int m < 0" "\<not> length dst < off + length (take m (ep_in ep))" "nat (int m) = m"
      "nat (r - int m) \<le> length (ep_in ?ep)" "off + m \<le> length ?dst" "length ?dst < off + m + nat (r - int m)"
      using False len len' m "1.prems" by simp_all
    have "grants_recvs (nat (r - int m)) (ep_recvs ?ep)"
      using g grants_recvs_less [of "nat r - 1" evs "nat (r - int m)"] m(1) by simp
    then have "read_loop fd ?dst (off + m) (r - int m) ?net = Inl BadAccess"
      using "1.IH" [OF pos recv refl refl m'(1,2), unfolded m'(3), OF after_recv_ep m'(4,5,6)] by simp
    then show ?thesis using pos recv len False by (subst read_loop.simps) simp
  qed
qed

section \<open>Whole messages\<close>

lemma So_WriteLengthPrefixed_total:
  assumes conn: "connected (so_socket w) ep p net" and len: "length m < 2 ^ 63"
    and g: "grants_sends (length (frame m) + b) (ep_sends ep)"
  shows "\<exists>evs. grants_sends b evs \<and> So_WriteLengthPrefixed w m (of_nat (length m)) net =
    Inr (True, after_send (so_socket w) ep p (frame m) evs net)"
proof -
  let ?n = "of_nat (length m) :: int64" and ?fd = "so_socket w"
  have "grants_sends (nat 8 + (length m + b)) (ep_sends ep)"
    using g by (simp add: sizeof_int64_def add.assoc)
  moreover have "nat 8 \<le> length (int64_bytes ?n)" by (simp add: sizeof_int64_def)
  ultimately obtain evs1 where g1: "grants_sends (length m + b) evs1"
    and w1: "write_loop ?fd (int64_bytes ?n) 8 net =
      Inr (True, after_send ?fd ep p (take (nat 8) (int64_bytes ?n)) evs1 net)"
    using write_loop_total [OF conn, of 8 "int64_bytes ?n" "length m + b"] by auto
  let ?ep = "ep\<lparr>ep_sends := evs1\<rparr>" and ?p = "p\<lparr>ep_in := ep_in p @ int64_bytes ?n\<rparr>"
  let ?net = "after_send ?fd ep p (int64_bytes ?n) evs1 net"
  have w1': "write_loop ?fd (int64_bytes ?n) 8 net = Inr (True, ?net)"
    using w1 by (simp add: sizeof_int64_def)
  obtain evs2 where g2: "grants_sends b evs2"
    and w2: "write_loop ?fd m (int (length m)) ?net =
      Inr (True, after_send ?fd ?ep ?p (take (nat (int (length m))) m) evs2 ?net)"
    using write_loop_total [OF connected_after_send [OF conn], of "int (length m)" m b] g1 by auto
  have "So_WriteLengthPrefixed w m ?n net = Inr (True, after_send ?fd ?ep ?p m evs2 ?net)"
    using w1' w2 len by (simp add: So_WriteLengthPrefixed_def So_WriteToSocket_def)
  also have "after_send ?fd ?ep ?p m evs2 ?net = after_send ?fd ep p (frame m) evs2 net"
    unfolding after_send_twice [OF conn] by (simp add: frame_def)
  finally show ?thesis using g2 by blast
qed

lemma So_ReadLengthPrefix_total:
  assumes "nt_eps net (so_socket r) = Some ep" and "ep_in ep = int64_bytes n @ rest"
    and "grants_recvs (sizeof_int64 + b) (ep_recvs ep)"
  shows "\<exists>evs. grants_recvs b evs \<and>
    So_ReadLengthPrefix r net = Inr (n, after_recv (so_socket r) ep sizeof_int64 evs net)"
proof -
  obtain evs where g: "grants_recvs b evs" and r: "read_loop (so_socket r) (int64_bytes 0) 0 8 net =
      Inr (True, mem_write 0 (take (nat 8) (ep_in ep)) (int64_bytes 0), after_recv (so_socket r) ep (nat 8) evs net)"
    using read_loop_total [OF assms(1), of 8 0 "int64_bytes 0" b] assms(2,3)
    by (auto simp: sizeof_int64_def)
  have "take (nat 8) (ep_in ep) = int64_bytes n" using assms(2) by (simp add: sizeof_int64_def)
  then have "mem_write 0 (take (nat 8) (ep_in ep)) (int64_bytes 0) = int64_bytes n"
    by (simp only: mem_write_all length_int64_bytes)
  then show ?thesis using g r
    by (auto simp: So_ReadLengthPrefix_def So_ReadFromSocket_def sizeof_int64_def)
qed

lemma So_Read_total:
  assumes "nt_eps net (so_socket r) = Some ep" and "0 \<le> sint n" and "unat n \<le> length (ep_in ep)"
    and "unat n \<le> length dst" and "grants_recvs (unat n + b) (ep_recvs ep)"
  shows "\<exists>evs. grants_recvs b evs \<and> So_Read r dst n nread net =
    Inr (True, mem_write 0 (take (unat n) (ep_in ep)) dst, n, after_recv (so_socket r) ep (unat n) evs net)"
proof -
  have n: "nat (sint n) = unat n" using sint_nonneg_unat [OF assms(2)] by (metis nat_int)
  obtain evs where "grants_recvs b evs" and "read_loop (so_socket r) dst 0 (sint n) net =
      Inr (True, mem_write 0 (take (unat n) (ep_in ep)) dst, after_recv (so_socket r) ep (unat n) evs net)"
    using read_loop_total [OF assms(1,2), of 0 dst b] assms(3,4,5) unfolding n by auto
  then show ?thesis by (auto simp: So_Read_def So_ReadFromSocket_def)
qed

section \<open>A socket connection is a message channel\<close>

text \<open>Sending and receiving one message as the clients of the class do.\<close>

definition So_send :: "SocketSidebandData \<Rightarrow> byte list \<Rightarrow> net \<Rightarrow> stop + (bool \<times> net)" where
  "So_send w m net = So_WriteLengthPrefixed w m (of_nat (length m)) net"

definition So_receive :: "SocketSidebandData \<Rightarrow> net \<Rightarrow> stop + (byte list \<times> net)" where
  "So_receive r net =
     andThen (So_ReadLengthPrefix r net) (\<lambda>(n, net).
     andThen (So_ReadFromLengthPrefixed r (replicate (unat n) 0) n 0 net) (\<lambda>(ok, bytes, nread, net).
     Inr (bytes, net)))"

definition So_channel :: "SocketSidebandData \<Rightarrow> SocketSidebandData \<Rightarrow> nat \<Rightarrow> nat \<Rightarrow> net \<Rightarrow>
    byte list list \<Rightarrow> bool" where
  "So_channel w r b c net q \<longleftrightarrow> (\<exists>ep p. connected (so_socket w) ep p net \<and>
     ep_peer ep = so_socket r \<and> ep_in p = concat (map frame q) \<and> list_all message_fits q \<and>
     grants_sends b (ep_sends ep) \<and> grants_recvs c (ep_recvs p))"

text \<open>What is left of that once the other end has gone: messages that have arrived can be read.\<close>

definition So_arrived :: "SocketSidebandData \<Rightarrow> nat \<Rightarrow> net \<Rightarrow> byte list list \<Rightarrow> bool" where
  "So_arrived r c net q \<longleftrightarrow> (\<exists>p. nt_eps net (so_socket r) = Some p \<and> ep_in p = concat (map frame q) \<and>
     list_all message_fits q \<and> grants_recvs c (ep_recvs p))"

text \<open>A write looks at no more of its buffer than it is told to send.\<close>

lemma sys_send_take:
  "n \<le> length start \<Longrightarrow> sys_send fd (take n start) n net = sys_send fd start n net"
  by (simp add: sys_send_def Let_def min_def split: option.splits list.splits io_event.splits)

lemma sys_send_count:
  "sys_send fd start n net = Inr (written, net') \<Longrightarrow> nat written \<le> n"
  by (auto simp: sys_send_def Let_def split: option.splits list.splits io_event.splits if_splits)

lemma write_loop_take:
  "nat r \<le> length start \<Longrightarrow> write_loop fd (take (nat r) start) r net = write_loop fd start r net"
proof (induction fd start r net rule: write_loop.induct)
  case (1 fd start r net)
  show ?case
  proof (cases "0 < r")
    case True
    have same: "sys_send fd (take (nat r) start) (nat r) net = sys_send fd start (nat r) net"
      using "1.prems" by (rule sys_send_take)
    show ?thesis
    proof (cases "sys_send fd start (nat r) net")
      case (Inl e)
      then show ?thesis using True same by (simp add: write_loop.simps)
    next
      case (Inr z)
      obtain written net' where z: "z = (written, net')" by (cases z)
      have count: "nat written \<le> nat r" using sys_send_count Inr z by blast
      show ?thesis
      proof (cases "written < 0")
        case True
        then show ?thesis using \<open>0 < r\<close> same Inr z by (simp add: write_loop.simps)
      next
        case False
        have left: "nat (r - written) = nat r - nat written" using False \<open>0 < r\<close> by simp
        have "nat (r - written) \<le> length (drop (nat written) start)"
          unfolding left length_drop using "1.prems" by (rule diff_le_mono)
        then have "write_loop fd (take (nat (r - written)) (drop (nat written) start)) (r - written) net' =
            write_loop fd (drop (nat written) start) (r - written) net'"
          using "1.IH" True Inr z False by simp
        moreover have "drop (nat written) (take (nat r) start) = take (nat (r - written)) (drop (nat written) start)"
          using left by (simp add: drop_take)
        ultimately show ?thesis
          using \<open>0 < r\<close> same Inr z False
          by (subst write_loop.simps, subst (2) write_loop.simps) simp
      qed
    qed
  next
    case False
    then show ?thesis by (simp add: write_loop.simps)
  qed
qed

lemma So_WriteLengthPrefixed_take:
  assumes "take (length m) buf = m" and "length m \<le> length buf" and "length m < 2 ^ 63"
  shows "So_WriteLengthPrefixed w buf (of_nat (length m)) net = So_send w m net"
proof -
  have "write_loop (so_socket w) buf (int (length m)) net' = write_loop (so_socket w) m (int (length m)) net'" for net'
    using write_loop_take [of "int (length m)" buf "so_socket w" net'] assms(1,2) by simp
  then show ?thesis
    using assms(3) by (simp add: So_send_def So_WriteLengthPrefixed_def So_WriteToSocket_def cong: if_cong)
qed

text \<open>
  Receiving in two steps, the length and then the payload, into a buffer that is large enough.
\<close>

lemma So_receive_arrived:
  assumes "So_arrived r (length (frame m) + c) net (m # q)" and dst: "length m \<le> length dst"
  shows "\<exists>net1 p evs. So_ReadLengthPrefix r net = Inr (of_nat (length m), net1) \<and>
    nt_eps net (so_socket r) = Some p \<and>
    So_ReadFromLengthPrefixed r dst (of_nat (length m)) nread net1 = Inr (True, mem_write 0 m dst, of_nat (length m),
      after_recv (so_socket r) p (sizeof_int64 + length m) evs net) \<and>
    So_arrived r c (after_recv (so_socket r) p (sizeof_int64 + length m) evs net) q"
proof -
  obtain p where p: "nt_eps net (so_socket r) = Some p"
    and q: "ep_in p = frame m @ concat (map frame q)" "list_all message_fits q" "length m < 2 ^ 63"
    and g: "grants_recvs (length (frame m) + c) (ep_recvs p)"
    using assms(1) by (auto simp: So_arrived_def message_fits_def)
  let ?n = "of_nat (length m) :: int64" and ?fd = "so_socket r"
  obtain evs1 where g1: "grants_recvs (length m + c) evs1"
    and r1: "So_ReadLengthPrefix r net = Inr (?n, after_recv ?fd p sizeof_int64 evs1 net)"
    using So_ReadLengthPrefix_total [OF p, of ?n "m @ concat (map frame q)" "length m + c"] q g
    by (auto simp: frame_def add.assoc)
  let ?p = "p\<lparr>ep_in := drop sizeof_int64 (ep_in p), ep_recvs := evs1\<rparr>"
  have p1: "nt_eps (after_recv ?fd p sizeof_int64 evs1 net) ?fd = Some ?p" by (rule after_recv_ep)
  have in_p: "ep_in ?p = m @ concat (map frame q)" using q(1) by (simp add: frame_def)
  obtain evs2 where g2: "grants_recvs c evs2"
    and r2: "So_Read r dst ?n nread (after_recv ?fd p sizeof_int64 evs1 net) =
      Inr (True, mem_write 0 (take (length m) (ep_in ?p)) dst, ?n,
        after_recv ?fd ?p (length m) evs2 (after_recv ?fd p sizeof_int64 evs1 net))"
    using So_Read_total [OF p1, of ?n dst c nread] q(3) in_p g1 dst by auto
  have "So_arrived r c (after_recv ?fd p (sizeof_int64 + length m) evs2 net) q"
    using q g2 by (simp add: So_arrived_def frame_def)
  then show ?thesis
    using r1 r2 in_p p by (auto simp: So_ReadFromLengthPrefixed_def after_recv_twice)
qed

lemma So_channel_arrived: "So_channel w r b c net q \<Longrightarrow> So_arrived r c net q"
  by (auto simp: So_channel_def So_arrived_def connected_def)

lemma So_receive_parts_after:
  assumes "So_channel w r b (length (frame m) + c) net (m # q)" and dst: "length m \<le> length dst"
  shows "\<exists>net1 p evs. So_ReadLengthPrefix r net = Inr (of_nat (length m), net1) \<and>
    nt_eps net (so_socket r) = Some p \<and>
    So_ReadFromLengthPrefixed r dst (of_nat (length m)) nread net1 = Inr (True, mem_write 0 m dst, of_nat (length m),
      after_recv (so_socket r) p (sizeof_int64 + length m) evs net) \<and>
    So_channel w r b c (after_recv (so_socket r) p (sizeof_int64 + length m) evs net) q"
proof -
  obtain ep p where conn: "connected (so_socket w) ep p net" "ep_peer ep = so_socket r" and g: "grants_sends b (ep_sends ep)"
    using assms(1) by (auto simp: So_channel_def)
  have "So_channel w r b c (after_recv (so_socket r) p n evs net) q"
    if "So_arrived r c (after_recv (so_socket r) p n evs net) q" for n evs
    unfolding So_channel_def using that conn g
    by (intro exI [of _ ep] exI [of _ "p\<lparr>ep_in := drop n (ep_in p), ep_recvs := evs\<rparr>"])
      (auto simp: So_arrived_def connected_def after_recv_def)
  then show ?thesis
    using So_receive_arrived [OF So_channel_arrived [OF assms(1)] dst, of nread] conn by (auto simp: connected_def)
qed

lemma So_receive_parts:
  assumes "So_channel w r b (length (frame m) + c) net (m # q)" and dst: "length m \<le> length dst"
  shows "\<exists>net1 net2. So_ReadLengthPrefix r net = Inr (of_nat (length m), net1) \<and>
    So_ReadFromLengthPrefixed r dst (of_nat (length m)) nread net1 =
      Inr (True, mem_write 0 m dst, of_nat (length m), net2) \<and> So_channel w r b c net2 q"
  using So_receive_parts_after [OF assms, of nread] by blast

interpretation socket_channel:
  message_channel "So_send w" "So_receive r" "So_channel w r" "\<lambda>m. length (frame m)" message_fits
  for w r
proof unfold_locales
  fix m b c net q
  assume "So_channel w r (length (frame m) + b) c net q" and fits: "message_fits m"
  then obtain ep p where conn: "connected (so_socket w) ep p net" "ep_peer ep = so_socket r"
    and q: "ep_in p = concat (map frame q)" "list_all message_fits q"
    and g: "grants_sends (length (frame m) + b) (ep_sends ep)" "grants_recvs c (ep_recvs p)"
    by (auto simp: So_channel_def)
  obtain evs where "grants_sends b evs" and "So_send w m net =
      Inr (True, after_send (so_socket w) ep p (frame m) evs net)"
    using So_WriteLengthPrefixed_total [OF conn(1) _ g(1)] fits by (auto simp: So_send_def message_fits_def)
  moreover have "So_channel w r b c (after_send (so_socket w) ep p (frame m) evs net) (q @ [m])"
    unfolding So_channel_def using connected_after_send [OF conn(1)] conn(2) q g(2) fits calculation(1)
    by (intro exI [of _ "ep\<lparr>ep_sends := evs\<rparr>"] exI [of _ "p\<lparr>ep_in := ep_in p @ frame m\<rparr>"]) auto
  ultimately show "\<exists>s'. So_send w m net = Inr (True, s') \<and> So_channel w r b c s' (q @ [m])" by blast
next
  fix b m c net q
  assume chan: "So_channel w r b (length (frame m) + c) net (m # q)"
  then have "length m < 2 ^ 63" by (auto simp: So_channel_def message_fits_def)
  then show "\<exists>s'. So_receive r net = Inr (m, s') \<and> So_channel w r b c s' q"
    using So_receive_parts [OF chan, of "replicate (length m) 0" 0]
    by (auto simp: So_receive_def mem_write_all)
qed

text \<open>Traffic in one direction leaves the other direction of the connection alone.\<close>

lemma So_send_beside:
  assumes "So_channel a b (length (frame m) + x) y net ab" and "So_channel b a z u net ba" and fits: "message_fits m"
  shows "\<exists>net'. So_send a m net = Inr (True, net') \<and> So_channel a b x y net' (ab @ [m]) \<and> So_channel b a z u net' ba"
proof -
  obtain ep p where conn: "connected (so_socket a) ep p net" "ep_peer ep = so_socket b"
    and q: "ep_in p = concat (map frame ab)" "list_all message_fits ab"
    and g: "grants_sends (length (frame m) + x) (ep_sends ep)" "grants_recvs y (ep_recvs p)"
    using assms(1) by (auto simp: So_channel_def)
  have other: "connected (so_socket b) p ep net" "ep_peer p = so_socket a" "ep_in ep = concat (map frame ba)"
    "list_all message_fits ba" "grants_sends z (ep_sends p)" "grants_recvs u (ep_recvs ep)"
    using assms(2) conn by (auto simp: So_channel_def connected_def)
  obtain evs where evs: "grants_sends x evs" and send: "So_send a m net =
      Inr (True, after_send (so_socket a) ep p (frame m) evs net)"
    using So_WriteLengthPrefixed_total [OF conn(1) _ g(1)] fits by (auto simp: So_send_def message_fits_def)
  let ?net = "after_send (so_socket a) ep p (frame m) evs net"
  let ?ep = "ep\<lparr>ep_sends := evs\<rparr>" and ?p = "p\<lparr>ep_in := ep_in p @ frame m\<rparr>"
  have ab_conn: "connected (so_socket a) ?ep ?p ?net" by (rule connected_after_send [OF conn(1)])
  then have ba_conn: "connected (so_socket b) ?p ?ep ?net" using conn(2) other(2) by (auto simp: connected_def)
  have "So_channel a b x y ?net (ab @ [m])"
    unfolding So_channel_def using ab_conn conn(2) q g(2) fits evs by (intro exI [of _ ?ep] exI [of _ ?p]) auto
  moreover have "So_channel b a z u ?net ba"
    unfolding So_channel_def using ba_conn other by (intro exI [of _ ?p] exI [of _ ?ep]) auto
  ultimately show ?thesis using send by blast
qed

lemma So_channel_after_recv:
  assumes "So_channel a b x y net ab" and "nt_eps net (so_socket a) = Some ep"
  shows "So_channel a b x y (after_recv (so_socket a) ep n evs net) ab"
proof -
  obtain p where "connected (so_socket a) ep p net" "ep_peer ep = so_socket b" "ep_in p = concat (map frame ab)"
    "list_all message_fits ab" "grants_sends x (ep_sends ep)" "grants_recvs y (ep_recvs p)"
    using assms by (auto simp: So_channel_def connected_def)
  then show ?thesis
    unfolding So_channel_def
    by (intro exI [of _ "ep\<lparr>ep_in := drop n (ep_in ep), ep_recvs := evs\<rparr>"] exI [of _ p])
      (auto simp: connected_def after_recv_def)
qed

section \<open>The end of the stream\<close>

lemma recv_again_eof:
  assumes "nt_eps net fd = Some ep" and "ep_eof ep" and "Fail \<notin> set (ep_recvs ep)"
  shows "recv_again fd n net = Inl Blocks \<or>
    (\<exists>m evs. m \<le> n \<and> m \<le> length (ep_in ep) \<and> Fail \<notin> set evs \<and>
      recv_again fd n net = Inr (int m, take m (ep_in ep), after_recv fd ep m evs net))"
  using assms
proof (induction fd n net arbitrary: ep rule: recv_again.induct)
  case (1 fd n net)
  show ?case
  proof (cases "ep_recvs ep")
    case Nil
    then show ?thesis using "1.prems"(1) by (subst recv_again.simps) (simp add: sys_recv_def)
  next
    case (Cons ev evs)
    show ?thesis
    proof (cases ev)
      case (Transfer k)
      let ?m = "min (Suc k) (min (min n max_rw_count) (length (ep_in ep)))"
      have "recv_again fd n net = Inr (int ?m, take ?m (ep_in ep), after_recv fd ep ?m evs net)"
        using "1.prems" Cons Transfer
        by (subst recv_again.simps) (simp add: sys_recv_def Let_def after_recv_def)
      moreover have "?m \<le> n" "?m \<le> length (ep_in ep)" by simp_all
      ultimately show ?thesis using "1.prems"(3) Cons by (metis set_subset_Cons subsetD)
    next
      case Again
      let ?net = "net\<lparr>nt_eps := (nt_eps net)(fd \<mapsto> ep\<lparr>ep_recvs := evs\<rparr>)\<rparr>"
      have recv: "sys_recv fd n net = Inr (- 1, True, [], ?net)"
        using "1.prems" Cons Again by (simp add: sys_recv_def)
      have unfold: "recv_again fd n net = recv_again fd n ?net"
        using recv by (subst recv_again.simps) simp
      have same: "after_recv fd (ep\<lparr>ep_recvs := evs\<rparr>) m evs' ?net = after_recv fd ep m evs' net" for m evs'
        by (simp add: after_recv_def)
      show ?thesis
        using "1.IH" [OF recv refl refl refl, of "ep\<lparr>ep_recvs := evs\<rparr>"] "1.prems" Cons
        unfolding unfold same by auto
    next
      case Fail
      then show ?thesis using "1.prems"(3) Cons by simp
    qed
  qed
qed

lemma read_loop_eof:
  assumes "nt_eps net fd = Some ep" and "ep_eof ep" and "Fail \<notin> set (ep_recvs ep)"
    and "int (length (ep_in ep)) < r" and "off + nat r \<le> length dst"
  shows "read_loop fd dst off r net = Inl Blocks"
  using assms
proof (induction fd dst off r net arbitrary: ep rule: read_loop.induct)
  case (1 fd dst off r net)
  have pos: "0 < r" using "1.prems"(4) by simp
  from recv_again_eof [OF "1.prems"(1-3), of "nat r"] show ?case
  proof (elim disjE exE conjE)
    assume "recv_again fd (nat r) net = Inl Blocks"
    then show ?thesis using pos by (subst read_loop.simps) simp
  next
    fix m evs
    assume m: "m \<le> nat r" "m \<le> length (ep_in ep)" and evs: "Fail \<notin> set evs"
      and recv: "recv_again fd (nat r) net = Inr (int m, take m (ep_in ep), after_recv fd ep m evs net)"
    let ?dst = "mem_write off (take m (ep_in ep)) dst"
    have len: "\<not> int m < 0" "\<not> length dst < off + length (take m (ep_in ep))" "nat (int m) = m"
      "length ?dst = length dst"
      using m "1.prems"(5) by (simp_all add: memory_simps)
    have "read_loop fd ?dst (off + m) (r - int m) (after_recv fd ep m evs net) = Inl Blocks"
      using "1.IH" [OF pos recv refl refl len(1,2), unfolded len(3), OF after_recv_ep]
        "1.prems"(2,4,5) evs m len(4) by simp
    then show ?thesis using recv pos len by (subst read_loop.simps) simp
  qed
qed

section \<open>Properties of the transport\<close>

text \<open>
  C13. Over a connection on which the kernel keeps making progress, in whatever portions, all messages
  sent with length prefixes are received whole and in the order of sending.
\<close>

theorem socket_messages_fifo:
  assumes "So_channel w r (sum_list (map (\<lambda>m. length (frame m)) ms)) (sum_list (map (\<lambda>m. length (frame m)) ms)) net []"
    and "list_all message_fits ms"
  shows "\<exists>net1 net2. send_all (So_send w) ms net = Inr (True, net1) \<and>
    recv_all (So_receive r) (length ms) net1 = Inr (ms, net2)"
  using socket_channel.send_recv_all [of w r ms 0 0 net] assms by auto

text \<open>Two ends of one connection, for which the kernel grants \<open>n\<close> one-byte transfers each way.\<close>

definition example_net :: "nat \<Rightarrow> net" where
  "example_net n =
     (let e = (\<lambda>peer. \<lparr>ep_peer = peer, ep_in = [], ep_eof = False, ep_sends = replicate n (Transfer 0),
        ep_recvs = concat (replicate n [Again, Transfer 0])\<rparr>)
      in \<lparr>nt_eps = [4 \<mapsto> e 5, 5 \<mapsto> e 4], nt_nodelay = [], nt_resolve = (\<lambda>_ _. None),
        nt_reachable = (\<lambda>_. False), nt_next_fd = 6, nt_fd_limit = 16, nt_plan = [], nt_backlog = [],
       nt_bound = Map.empty, nt_bindable = (\<lambda>_. True), nt_ephemeral = 40000\<rparr>)"

lemma grants_sends_replicate: "m \<le> n \<Longrightarrow> grants_sends m (replicate n (Transfer 0))"
proof (induction m arbitrary: n)
  case (Suc m)
  then show ?case by (cases n) auto
qed simp

lemma grants_recvs_replicate: "m \<le> n \<Longrightarrow> grants_recvs m (concat (replicate n [Again, Transfer 0]))"
proof (induction m arbitrary: n)
  case (Suc m)
  then show ?case by (cases n) auto
qed simp

lemma example_channel:
  assumes "b \<le> n" and "c \<le> n"
  shows "So_channel (So_new_accepted 4 64 False) (So_new_accepted 5 64 False) b c (example_net n) []"
  using grants_sends_replicate [OF assms(1)] grants_recvs_replicate [OF assms(2)]
  by (simp add: So_channel_def connected_def So_new_accepted_def example_net_def Let_def)

theorem socket_messages_fifo_witness:
  "\<exists>net1 net2. send_all (So_send (So_new_accepted 4 64 False)) [[1, 2, 3], [], [4]] (example_net 28) =
      Inr (True, net1) \<and>
    recv_all (So_receive (So_new_accepted 5 64 False)) (length [[1, 2, 3], [], [4 :: byte]]) net1 =
      Inr ([[1, 2, 3], [], [4]], net2)"
  by (rule socket_messages_fifo)
    (auto intro!: example_channel simp: sizeof_int64_def message_fits_def)

text \<open>
  C24. Whatever the kernel does, what a length-prefixed write puts on the wire is a prefix of the
  framed message; it is the whole of it exactly when the write reports success.
\<close>

theorem socket_write_is_prefix:
  assumes "connected (so_socket w) ep p net" and "length m < 2 ^ 63"
    and "So_WriteLengthPrefixed w m (of_nat (length m)) net = Inr (ok, net')"
  shows "\<exists>j evs. net' = after_send (so_socket w) ep p (take j (frame m)) evs net \<and>
    j \<le> length (frame m) \<and> ok = (j = length (frame m))"
proof -
  let ?n = "of_nat (length m) :: int64" and ?fd = "so_socket w"
  obtain ok1 net1 where w1: "write_loop ?fd (int64_bytes ?n) 8 net = Inr (ok1, net1)"
    and rest: "if ok1 then write_loop ?fd m (int (length m)) net1 = Inr (ok, net') else ok = ok1 \<and> net' = net1"
    using assms(2,3) by (auto simp: So_WriteLengthPrefixed_def So_WriteToSocket_def andThen_eq_Inr_iff
        split: if_splits)
  obtain i evs where i: "i \<le> 8" "ok1 = (i = 8)"
    and net1: "net1 = after_send ?fd ep p (take i (int64_bytes ?n)) evs net"
    using write_loop_prefix [OF w1 assms(1)] by (auto simp: sizeof_int64_def)
  show ?thesis
  proof (cases ok1)
    case False
    have "take i (frame m) = take i (int64_bytes ?n)" using i(1) by (simp add: frame_def sizeof_int64_def)
    then show ?thesis using False rest net1 i by (intro exI [of _ i] exI [of _ evs]) (auto simp: sizeof_int64_def)
  next
    case True
    then have net1': "net1 = after_send ?fd ep p (int64_bytes ?n) evs net"
      using net1 i by (simp add: sizeof_int64_def)
    then have w2: "write_loop ?fd m (int (length m)) (after_send ?fd ep p (int64_bytes ?n) evs net) = Inr (ok, net')"
      using True rest by simp
    obtain j evs' where j: "j \<le> length m" "ok = (j = length m)"
      and net': "net' = after_send ?fd ep p (int64_bytes ?n @ take j m) evs' net"
      using write_loop_prefix [OF w2 connected_after_send [OF assms(1)]] after_send_twice [OF assms(1)] by auto
    have "take (8 + j) (frame m) = int64_bytes ?n @ take j m" by (simp add: frame_def sizeof_int64_def)
    then show ?thesis using net' j
      by (intro exI [of _ "8 + j"] exI [of _ evs']) (auto simp: sizeof_int64_def)
  qed
qed

theorem socket_write_is_prefix_witness:
  "\<exists>ep p net'. So_WriteLengthPrefixed (So_new_accepted 4 64 False) [7, 8]
      (of_nat (length [7, 8 :: byte])) (example_net 10) = Inr (True, net') \<and>
    (\<exists>j evs. net' = after_send (so_socket (So_new_accepted 4 64 False)) ep p (take j (frame [7, 8])) evs
        (example_net 10) \<and> j \<le> length (frame [7, 8]) \<and> True = (j = length (frame [7, 8])))"
proof -
  let ?w = "So_new_accepted 4 64 False"
  obtain ep p where conn: "connected (so_socket ?w) ep p (example_net 10)"
    and g: "grants_sends 10 (ep_sends ep)"
    using example_channel [of 10 10 0] by (auto simp: So_channel_def)
  obtain net' where w: "So_WriteLengthPrefixed ?w [7, 8] (of_nat (length [7, 8 :: byte])) (example_net 10) =
      Inr (True, net')"
    using So_WriteLengthPrefixed_total [OF conn, of "[7, 8]" 0] g by (auto simp: sizeof_int64_def)
  have "length [7, 8 :: byte] < 2 ^ 63" by simp
  from w socket_write_is_prefix [OF conn this w] show ?thesis by blast
qed

text \<open>
  Once the peer has closed the connection, a read that needs more bytes than are left never
  returns, whatever the kernel does short of an error: \<open>recv\<close> returns 0 and the loop calls it again.
\<close>

theorem socket_read_spins_after_close:
  assumes "nt_eps net (so_socket r) = Some ep" and "ep_eof ep" and "Fail \<notin> set (ep_recvs ep)"
    and "int (length (ep_in ep)) < sint n" and "nat (sint n) \<le> length dst"
  shows "So_Read r dst n nread net = Inl Blocks"
  using read_loop_eof [OF assms(1-4), of 0 dst] assms(5) by (simp add: So_Read_def So_ReadFromSocket_def)

theorem socket_read_spins_after_close_witness:
  "So_Read (So_new_accepted 4 64 False) (replicate 4 0) 4 0 (sys_close 5 (example_net 100)) = Inl Blocks"
  by (rule socket_read_spins_after_close)
    (auto simp: So_new_accepted_def sys_close_def example_net_def Let_def)

text \<open>
  \<open>ReadLengthPrefix\<close> hides a failing \<open>recv\<close>: it returns the length 0, as for an empty message.
\<close>

theorem socket_length_prefix_hides_error:
  assumes "nt_eps net (so_socket r) = Some ep" and "ep_recvs ep = Fail # evs"
  shows "So_ReadLengthPrefix r net = Inr (0, after_recv (so_socket r) ep 0 evs net)"
proof -
  have "recv_again (so_socket r) 8 net = Inr (- 1, [], after_recv (so_socket r) ep 0 evs net)"
    using assms by (subst recv_again.simps) (simp add: sys_recv_def after_recv_def)
  then have "read_loop (so_socket r) (int64_bytes 0) 0 8 net =
      Inr (False, int64_bytes 0, after_recv (so_socket r) ep 0 evs net)"
    by (subst read_loop.simps) simp
  then show ?thesis by (simp add: So_ReadLengthPrefix_def So_ReadFromSocket_def)
qed

theorem socket_length_prefix_hides_error_witness:
  "\<exists>ep. So_ReadLengthPrefix (So_new_accepted 4 64 False)
      ((example_net 0)\<lparr>nt_eps := (nt_eps (example_net 0))(4 \<mapsto> ep)\<rparr>) =
    Inr (0, after_recv 4 ep 0 [] ((example_net 0)\<lparr>nt_eps := (nt_eps (example_net 0))(4 \<mapsto> ep)\<rparr>))"
proof -
  let ?r = "So_new_accepted 4 64 False"
  let ?ep = "\<lparr>ep_peer = 5, ep_in = [], ep_eof = False, ep_sends = [], ep_recvs = [Fail]\<rparr>"
  have fd: "so_socket ?r = 4" by (simp add: So_new_accepted_def)
  show ?thesis
    using socket_length_prefix_hides_error [of _ ?r ?ep "[]"] unfolding fd
    by (intro exI [of _ ?ep]) simp
qed

text \<open>
  A negative count, for example one read from a corrupt length prefix, stops the program at the
  assertion after the loop.
\<close>

theorem socket_negative_count_asserts:
  assumes "sint n < 0"
  shows "So_Read r dst n nread net = Inl AssertionFailed \<and> So_Write r dst n net = Inl AssertionFailed"
  using assms
  by (simp add: So_Read_def So_ReadFromSocket_def So_Write_def So_WriteToSocket_def read_loop.simps
      write_loop.simps)

theorem socket_negative_count_asserts_witness:
  "So_Read (So_new_accepted 4 64 False) [] (- 1) 0 (example_net 3) = Inl AssertionFailed \<and>
    So_Write (So_new_accepted 4 64 False) [] (- 1) (example_net 3) = Inl AssertionFailed"
  by (rule socket_negative_count_asserts) simp

end
