(* ===== verification/EasyRdma.thy ===== *)
theory EasyRdma
  imports ByteRegion
begin

text \<open>
  The interface of the third-party library \<open>easyrdma\<close> as \<^verbatim>\<open>src/sideband_rdma.cc\<close> uses it. The
  library is not part of the repository: its calls are a parameter, a record of functions over a
  state of its own (\<open>rd_lib\<close>), and its constants are fields of the same record. The memory of the
  buffers it lends to the program (\<open>rd_mem\<close>) is visible to both sides; the program reads and writes
  it in place. The address 0 is the null pointer.
\<close>

section \<open>State and calls\<close>

record 's rdma =
  rd_mem :: "nat \<rightharpoonup> byte list"
  rd_lib :: 's

text \<open>\<open>easyrdma_InternalBufferRegion\<close>: the fields the program uses. \<open>usedSize\<close> is a \<open>size_t\<close>.\<close>

record region =
  rg_buffer :: nat
  rg_usedSize :: int64

type_synonym session = nat

text \<open>
  A region variable is \<^const>\<open>None\<close> as long as it has not been initialised. A call that never returns is
  \<^term>\<open>Inl Blocks\<close>. The \<open>int32\<close> after a session or a string argument is the timeout or the direction
  of the C function.
\<close>

record 's easyrdma =
  er_InvalidSession :: session
  er_Error_Success :: int32
  er_Error_Timeout :: int32
  er_Direction_Send :: int32
  er_Direction_Receive :: int32
  er_CreateConnectorSession :: "string \<Rightarrow> int \<Rightarrow> session \<Rightarrow> 's rdma \<Rightarrow> stop + (int32 \<times> session \<times> 's rdma)"
  er_CreateListenerSession :: "string \<Rightarrow> int \<Rightarrow> session \<Rightarrow> 's rdma \<Rightarrow> stop + (int32 \<times> session \<times> 's rdma)"
  er_Connect :: "session \<Rightarrow> int32 \<Rightarrow> string \<Rightarrow> int \<Rightarrow> int32 \<Rightarrow> 's rdma \<Rightarrow> stop + (int32 \<times> 's rdma)"
  er_Accept :: "session \<Rightarrow> int32 \<Rightarrow> int32 \<Rightarrow> session \<Rightarrow> 's rdma \<Rightarrow> stop + (int32 \<times> session \<times> 's rdma)"
  er_SetUseRxPolling :: "session \<Rightarrow> bool \<Rightarrow> 's rdma \<Rightarrow> stop + (int32 \<times> 's rdma)"
  er_ConfigureBuffers :: "session \<Rightarrow> int64 \<Rightarrow> nat \<Rightarrow> 's rdma \<Rightarrow> stop + (int32 \<times> 's rdma)"
  er_AcquireSendRegion :: "session \<Rightarrow> int32 \<Rightarrow> region option \<Rightarrow> 's rdma \<Rightarrow>
    stop + (int32 \<times> region option \<times> 's rdma)"
  er_QueueBufferRegion :: "session \<Rightarrow> region option \<Rightarrow> 's rdma \<Rightarrow>
    stop + (int32 \<times> region option \<times> 's rdma)"
  er_AcquireReceivedRegion :: "session \<Rightarrow> int32 \<Rightarrow> region option \<Rightarrow> 's rdma \<Rightarrow>
    stop + (int32 \<times> region option \<times> 's rdma)"
  er_ReleaseReceivedBufferRegion :: "session \<Rightarrow> region option \<Rightarrow> 's rdma \<Rightarrow>
    stop + (int32 \<times> region option \<times> 's rdma)"
  er_CloseSession :: "session \<Rightarrow> 's rdma \<Rightarrow> stop + (int32 \<times> 's rdma)"

section \<open>Access to lent buffers\<close>

definition region_read :: "region option \<Rightarrow> nat \<Rightarrow> nat \<Rightarrow> 's rdma \<Rightarrow> stop + byte list" where
  "region_read rg off n rd =
     (case rg of
        None \<Rightarrow> Inl BadAccess
      | Some r \<Rightarrow>
          if rg_buffer r = 0 then Inl NullPointer
          else (case rd_mem rd (rg_buffer r) of
                  None \<Rightarrow> Inl BadAccess
                | Some blk \<Rightarrow> buf_read blk off n))"

definition region_write :: "region option \<Rightarrow> nat \<Rightarrow> byte list \<Rightarrow> 's rdma \<Rightarrow> stop + 's rdma" where
  "region_write rg off bytes rd =
     (case rg of
        None \<Rightarrow> Inl BadAccess
      | Some r \<Rightarrow>
          if rg_buffer r = 0 then Inl NullPointer
          else (case rd_mem rd (rg_buffer r) of
                  None \<Rightarrow> Inl BadAccess
                | Some blk \<Rightarrow> andThen (buf_write blk off bytes) (\<lambda>blk.
                    Inr (rd\<lparr>rd_mem := (rd_mem rd)(rg_buffer r \<mapsto> blk)\<rparr>))))"

text \<open>\<open>memcpy\<close> to and from such a buffer; the count is converted to \<open>size_t\<close>.\<close>

definition memcpy_to_region :: "region option \<Rightarrow> nat \<Rightarrow> byte list \<Rightarrow> int64 \<Rightarrow> 's rdma \<Rightarrow> stop + 's rdma" where
  "memcpy_to_region rg off bytes n rd =
     (if length bytes < unat n then Inl BadAccess else region_write rg off (take (unat n) bytes) rd)"

definition memcpy_from_region :: "byte list \<Rightarrow> region option \<Rightarrow> nat \<Rightarrow> int64 \<Rightarrow> 's rdma \<Rightarrow>
    stop + byte list" where
  "memcpy_from_region dst rg off n rd =
     andThen (region_read rg off (unat n) rd) (\<lambda>bs. buf_write dst 0 bs)"

section \<open>What the library promises\<close>

text \<open>
  A view of the library's state for one connection, from the sending session \<open>tx\<close> to the receiving
  session \<open>rx\<close>: the messages under way, how many more can be queued before the receiver returns a
  buffer, the buffers lent for sending, and how many received buffers the program holds. The
  receiver has as many buffers as \<open>ConfigureBuffers\<close> was given, and a sender waits for a free one.
\<close>

record link =
  lk_queued :: "byte list list"
  lk_credits :: nat
  lk_held :: nat
  lk_lent :: "nat set"

definition acquires_send :: "'s easyrdma \<Rightarrow> session \<Rightarrow> int32 \<Rightarrow> nat \<Rightarrow> ('s \<Rightarrow> link) \<Rightarrow> bool" where
  "acquires_send lib tx t cap lv \<longleftrightarrow>
     (\<forall>rb rd. 0 < lk_credits (lv (rd_lib rd)) \<longrightarrow>
       (\<exists>rg blk rd'. er_AcquireSendRegion lib tx t rb rd = Inr (er_Error_Success lib, Some rg, rd') \<and>
          rg_buffer rg \<noteq> 0 \<and> rd_mem rd' (rg_buffer rg) = Some blk \<and> length blk = cap \<and>
          lv (rd_lib rd') = (lv (rd_lib rd))\<lparr>lk_lent := insert (rg_buffer rg) (lk_lent (lv (rd_lib rd)))\<rparr>))"

definition queues_region :: "'s easyrdma \<Rightarrow> session \<Rightarrow> ('s \<Rightarrow> link) \<Rightarrow> bool" where
  "queues_region lib tx lv \<longleftrightarrow>
     (\<forall>rg blk rd. rg_buffer rg \<in> lk_lent (lv (rd_lib rd)) \<and> rd_mem rd (rg_buffer rg) = Some blk \<and>
        unat (rg_usedSize rg) \<le> length blk \<and> 0 < lk_credits (lv (rd_lib rd)) \<longrightarrow>
       (\<exists>rb rd'. er_QueueBufferRegion lib tx (Some rg) rd = Inr (er_Error_Success lib, rb, rd') \<and>
          lv (rd_lib rd') = (lv (rd_lib rd))
            \<lparr>lk_queued := lk_queued (lv (rd_lib rd)) @ [take (unat (rg_usedSize rg)) blk],
             lk_credits := lk_credits (lv (rd_lib rd)) - 1,
             lk_lent := lk_lent (lv (rd_lib rd)) - {rg_buffer rg}\<rparr>))"

definition acquires_received :: "'s easyrdma \<Rightarrow> session \<Rightarrow> int32 \<Rightarrow> nat \<Rightarrow> nat \<Rightarrow> ('s \<Rightarrow> link) \<Rightarrow> bool" where
  "acquires_received lib rx t cap bufs lv \<longleftrightarrow>
     (\<forall>rb rd m ms. lk_queued (lv (rd_lib rd)) = m # ms \<and> length m \<le> cap \<and> lk_held (lv (rd_lib rd)) < bufs \<longrightarrow>
       (\<exists>rg blk rd'. er_AcquireReceivedRegion lib rx t rb rd = Inr (er_Error_Success lib, Some rg, rd') \<and>
          rg_buffer rg \<noteq> 0 \<and> rd_mem rd' (rg_buffer rg) = Some blk \<and>
          unat (rg_usedSize rg) \<le> length blk \<and> take (unat (rg_usedSize rg)) blk = m \<and>
          lv (rd_lib rd') = (lv (rd_lib rd))\<lparr>lk_queued := ms, lk_held := Suc (lk_held (lv (rd_lib rd)))\<rparr>))"

definition releases_received :: "'s easyrdma \<Rightarrow> session \<Rightarrow> ('s \<Rightarrow> link) \<Rightarrow> bool" where
  "releases_received lib rx lv \<longleftrightarrow>
     (\<forall>rg rd. 0 < lk_held (lv (rd_lib rd)) \<longrightarrow>
       (\<exists>e rb rd'. er_ReleaseReceivedBufferRegion lib rx (Some rg) rd = Inr (e, rb, rd') \<and>
          lv (rd_lib rd') = (lv (rd_lib rd))
            \<lparr>lk_held := lk_held (lv (rd_lib rd)) - 1, lk_credits := Suc (lk_credits (lv (rd_lib rd)))\<rparr>))"

definition easyrdma_link :: "'s easyrdma \<Rightarrow> session \<Rightarrow> session \<Rightarrow> int32 \<Rightarrow> nat \<Rightarrow> nat \<Rightarrow> ('s \<Rightarrow> link) \<Rightarrow> bool" where
  "easyrdma_link lib tx rx t cap bufs lv \<longleftrightarrow>
     acquires_send lib tx t cap lv \<and> queues_region lib tx lv \<and>
     acquires_received lib rx t cap bufs lv \<and> releases_received lib rx lv \<and>
     er_Error_Timeout lib \<noteq> er_Error_Success lib"

text \<open>
  A connection in both directions uses two sessions at each end. Sending and receiving on a session
  leaves alone the links that it is no end of.
\<close>

definition keeps_link :: "'s easyrdma \<Rightarrow> session \<Rightarrow> ('s \<Rightarrow> link) \<Rightarrow> bool" where
  "keeps_link lib s lv \<longleftrightarrow>
     (\<forall>t rb rd e rb' rd'. er_AcquireSendRegion lib s t rb rd = Inr (e, rb', rd') \<longrightarrow> lv (rd_lib rd') = lv (rd_lib rd)) \<and>
     (\<forall>rb rd e rb' rd'. er_QueueBufferRegion lib s rb rd = Inr (e, rb', rd') \<longrightarrow> lv (rd_lib rd') = lv (rd_lib rd)) \<and>
     (\<forall>t rb rd e rb' rd'. er_AcquireReceivedRegion lib s t rb rd = Inr (e, rb', rd') \<longrightarrow> lv (rd_lib rd') = lv (rd_lib rd)) \<and>
     (\<forall>rb rd e rb' rd'. er_ReleaseReceivedBufferRegion lib s rb rd = Inr (e, rb', rd') \<longrightarrow> lv (rd_lib rd') = lv (rd_lib rd))"

section \<open>An instance\<close>

text \<open>
  A library that keeps its promises: one connection from session 1 to session 2, buffers allocated
  from a counter and filled with zeros. It shows that the promises can be kept, and the concrete
  runs of the properties use it.
\<close>

record fifo =
  ff_link :: link
  ff_next :: nat

definition fifo_start :: "nat \<Rightarrow> fifo rdma" where
  "fifo_start credits =
     \<lparr>rd_mem = Map.empty, rd_lib =
       \<lparr>ff_link = \<lparr>lk_queued = [], lk_credits = credits, lk_held = 0, lk_lent = {}\<rparr>, ff_next = 1\<rparr>\<rparr>"

definition fifo_lend :: "byte list \<Rightarrow> int64 \<Rightarrow> link \<Rightarrow> fifo rdma \<Rightarrow> int32 \<times> region option \<times> fifo rdma" where
  "fifo_lend blk used lk rd =
     (let p = Suc (ff_next (rd_lib rd)) in
      (0, Some \<lparr>rg_buffer = p, rg_usedSize = used\<rparr>,
       \<lparr>rd_mem = (rd_mem rd)(p \<mapsto> blk), rd_lib = \<lparr>ff_link = lk, ff_next = p\<rparr>\<rparr>))"

definition fifo_AcquireSend :: "nat \<Rightarrow> session \<Rightarrow> int32 \<Rightarrow> region option \<Rightarrow> fifo rdma \<Rightarrow>
    stop + (int32 \<times> region option \<times> fifo rdma)" where
  "fifo_AcquireSend cap s t rb rd =
     (let lk = ff_link (rd_lib rd) in
      if s \<noteq> 1 then Inr (- 2, rb, rd)
      else if lk_credits lk = 0 then Inl Blocks
      else Inr (fifo_lend (replicate cap 0) 0
        (lk\<lparr>lk_lent := insert (Suc (ff_next (rd_lib rd))) (lk_lent lk)\<rparr>) rd))"

definition fifo_Queue :: "session \<Rightarrow> region option \<Rightarrow> fifo rdma \<Rightarrow>
    stop + (int32 \<times> region option \<times> fifo rdma)" where
  "fifo_Queue s rb rd =
     (let lk = ff_link (rd_lib rd) in
      case rb of
        None \<Rightarrow> Inr (- 2, rb, rd)
      | Some rg \<Rightarrow>
          (case rd_mem rd (rg_buffer rg) of
             None \<Rightarrow> Inr (- 2, rb, rd)
           | Some blk \<Rightarrow>
               if s \<noteq> 1 \<or> rg_buffer rg \<notin> lk_lent lk \<or> length blk < unat (rg_usedSize rg)
               then Inr (- 2, rb, rd)
               else Inr (0, rb, rd\<lparr>rd_lib := (rd_lib rd)\<lparr>ff_link :=
                 lk\<lparr>lk_queued := lk_queued lk @ [take (unat (rg_usedSize rg)) blk],
                    lk_credits := lk_credits lk - 1, lk_lent := lk_lent lk - {rg_buffer rg}\<rparr>\<rparr>\<rparr>)))"

definition fifo_AcquireReceived :: "nat \<Rightarrow> session \<Rightarrow> int32 \<Rightarrow> region option \<Rightarrow> fifo rdma \<Rightarrow>
    stop + (int32 \<times> region option \<times> fifo rdma)" where
  "fifo_AcquireReceived bufs s t rb rd =
     (let lk = ff_link (rd_lib rd) in
      case lk_queued lk of
        [] \<Rightarrow> Inl Blocks
      | m # ms \<Rightarrow>
          if bufs \<le> lk_held lk then Inl Blocks
          else Inr (fifo_lend m (of_nat (length m)) (lk\<lparr>lk_queued := ms, lk_held := Suc (lk_held lk)\<rparr>) rd))"

definition fifo_Release :: "session \<Rightarrow> region option \<Rightarrow> fifo rdma \<Rightarrow>
    stop + (int32 \<times> region option \<times> fifo rdma)" where
  "fifo_Release s rb rd =
     (let lk = ff_link (rd_lib rd) in
      if lk_held lk = 0 then Inr (- 2, rb, rd)
      else Inr (0, rb, rd\<lparr>rd_lib := (rd_lib rd)\<lparr>ff_link :=
        lk\<lparr>lk_held := lk_held lk - 1, lk_credits := Suc (lk_credits lk)\<rparr>\<rparr>\<rparr>))"

definition fifo_lib :: "nat \<Rightarrow> nat \<Rightarrow> fifo easyrdma" where
  "fifo_lib cap bufs = \<lparr>er_InvalidSession = 0, er_Error_Success = 0, er_Error_Timeout = - 1,
     er_Direction_Send = 0, er_Direction_Receive = 1,
     er_CreateConnectorSession = (\<lambda>a p s rd. Inr (0, 3, rd)),
     er_CreateListenerSession = (\<lambda>a p s rd. Inr (0, 4, rd)),
     er_Connect = (\<lambda>s d a p t rd. Inr (0, rd)),
     er_Accept = (\<lambda>s d t c rd. Inr (0, if d = 0 then 1 else 2, rd)),
     er_SetUseRxPolling = (\<lambda>s b rd. Inr (0, rd)),
     er_ConfigureBuffers = (\<lambda>s n k rd. Inr (0, rd)),
     er_AcquireSendRegion = fifo_AcquireSend cap,
     er_QueueBufferRegion = fifo_Queue,
     er_AcquireReceivedRegion = fifo_AcquireReceived bufs,
     er_ReleaseReceivedBufferRegion = fifo_Release,
     er_CloseSession = (\<lambda>s rd. Inr (0, rd))\<rparr>"

lemma fifo_acquires_send: "acquires_send (fifo_lib cap bufs) 1 t cap ff_link"
  unfolding acquires_send_def
  by (auto simp: fifo_lib_def fifo_AcquireSend_def fifo_lend_def Let_def)

lemma fifo_queues_region: "queues_region (fifo_lib cap bufs) 1 ff_link"
  unfolding queues_region_def by (auto simp: fifo_lib_def fifo_Queue_def Let_def)

lemma fifo_acquires_received: "cap < 2 ^ 63 \<Longrightarrow> acquires_received (fifo_lib cap bufs) 2 t cap bufs ff_link"
  unfolding acquires_received_def
  by (auto simp: fifo_lib_def fifo_AcquireReceived_def fifo_lend_def Let_def)

lemma fifo_releases_received: "releases_received (fifo_lib cap bufs) 2 ff_link"
  unfolding releases_received_def by (auto simp: fifo_lib_def fifo_Release_def Let_def)

lemma fifo_easyrdma_link: "cap < 2 ^ 63 \<Longrightarrow> easyrdma_link (fifo_lib cap bufs) 1 2 t cap bufs ff_link"
  using fifo_acquires_send fifo_queues_region fifo_acquires_received fifo_releases_received
  by (simp add: easyrdma_link_def fifo_lib_def)

text \<open>
  The same in both directions: one link from session 1 to session 2, another from session 3 to
  session 4, over the functions above.
\<close>

record duplex =
  dx_first :: link
  dx_second :: link
  dx_next :: nat
  dx_stage :: nat

definition duplex_start :: "nat \<Rightarrow> duplex rdma" where
  "duplex_start credits =
     (let lk = \<lparr>lk_queued = [], lk_credits = credits, lk_held = 0, lk_lent = {}\<rparr>
      in \<lparr>rd_mem = Map.empty, rd_lib = \<lparr>dx_first = lk, dx_second = lk, dx_next = 1, dx_stage = 0\<rparr>\<rparr>)"

definition on_link :: "(session \<Rightarrow> fifo rdma \<Rightarrow> stop + (int32 \<times> region option \<times> fifo rdma)) \<Rightarrow> session \<Rightarrow> duplex rdma \<Rightarrow>
    stop + (int32 \<times> region option \<times> duplex rdma)" where
  "on_link call s rd =
     (if s \<le> 2
      then andThen (call s \<lparr>rd_mem = rd_mem rd, rd_lib = \<lparr>ff_link = dx_first (rd_lib rd), ff_next = dx_next (rd_lib rd)\<rparr>\<rparr>)
        (\<lambda>(e, rb, fd). Inr (e, rb, \<lparr>rd_mem = rd_mem fd, rd_lib = (rd_lib rd)
          \<lparr>dx_first := ff_link (rd_lib fd), dx_next := ff_next (rd_lib fd)\<rparr>\<rparr>))
      else andThen (call (s - 2) \<lparr>rd_mem = rd_mem rd, rd_lib = \<lparr>ff_link = dx_second (rd_lib rd), ff_next = dx_next (rd_lib rd)\<rparr>\<rparr>)
        (\<lambda>(e, rb, fd). Inr (e, rb, \<lparr>rd_mem = rd_mem fd, rd_lib = (rd_lib rd)
          \<lparr>dx_second := ff_link (rd_lib fd), dx_next := ff_next (rd_lib fd)\<rparr>\<rparr>)))"

text \<open>One step of making the connection, which starts with a connector session for receiving.\<close>

definition next_stage :: "duplex rdma \<Rightarrow> duplex rdma" where
  "next_stage rd = rd\<lparr>rd_lib := (rd_lib rd)\<lparr>dx_stage := Suc (dx_stage (rd_lib rd))\<rparr>\<rparr>"

definition duplex_lib :: "nat \<Rightarrow> nat \<Rightarrow> duplex easyrdma" where
  "duplex_lib cap bufs = \<lparr>er_InvalidSession = 0, er_Error_Success = 0, er_Error_Timeout = - 1,
     er_Direction_Send = 0, er_Direction_Receive = 1,
     er_CreateConnectorSession = (\<lambda>a p s rd. Inr (0, if dx_stage (rd_lib rd) = 0 then 4 else 1, next_stage rd)),
     er_CreateListenerSession = (\<lambda>a p s rd. Inr (0, 6, rd)),
     er_Connect = (\<lambda>s d a p t rd. Inr (0, next_stage rd)),
     er_Accept = (\<lambda>s d t c rd. Inr (0, if d = 0 then 3 else 2, next_stage rd)),
     er_SetUseRxPolling = (\<lambda>s b rd. Inr (0, rd)),
     er_ConfigureBuffers = (\<lambda>s n k rd. Inr (0, rd)),
     er_AcquireSendRegion = (\<lambda>s t rb. on_link (\<lambda>s. fifo_AcquireSend cap s t rb) s),
     er_QueueBufferRegion = (\<lambda>s rb. on_link (\<lambda>s. fifo_Queue s rb) s),
     er_AcquireReceivedRegion = (\<lambda>s t rb. on_link (\<lambda>s. fifo_AcquireReceived bufs s t rb) s),
     er_ReleaseReceivedBufferRegion = (\<lambda>s rb. on_link (\<lambda>s. fifo_Release s rb) s),
     er_CloseSession = (\<lambda>s rd. Inr (0, rd))\<rparr>"

lemmas duplex_defs = duplex_lib_def on_link_def fifo_AcquireSend_def fifo_Queue_def fifo_AcquireReceived_def
  fifo_Release_def fifo_lend_def

lemma duplex_links:
  assumes "cap < 2 ^ 63"
  shows "easyrdma_link (duplex_lib cap bufs) 1 2 t cap bufs dx_first"
    and "easyrdma_link (duplex_lib cap bufs) 3 4 t cap bufs dx_second"
proof -
  have "acquires_send (duplex_lib cap bufs) 1 t cap dx_first" "acquires_send (duplex_lib cap bufs) 3 t cap dx_second"
    by (auto simp: acquires_send_def duplex_defs Let_def)
  moreover have "queues_region (duplex_lib cap bufs) 1 dx_first" "queues_region (duplex_lib cap bufs) 3 dx_second"
    by (auto simp: queues_region_def duplex_defs Let_def)
  moreover have "acquires_received (duplex_lib cap bufs) 2 t cap bufs dx_first" "acquires_received (duplex_lib cap bufs) 4 t cap bufs dx_second"
    using assms by (auto simp: acquires_received_def duplex_defs Let_def)
  moreover have "releases_received (duplex_lib cap bufs) 2 dx_first" "releases_received (duplex_lib cap bufs) 4 dx_second"
    by (auto simp: releases_received_def duplex_defs Let_def)
  ultimately show "easyrdma_link (duplex_lib cap bufs) 1 2 t cap bufs dx_first"
    and "easyrdma_link (duplex_lib cap bufs) 3 4 t cap bufs dx_second"
    by (simp_all add: easyrdma_link_def duplex_lib_def)
qed

lemma duplex_keeps:
  "keeps_link (duplex_lib cap bufs) 1 dx_second" "keeps_link (duplex_lib cap bufs) 2 dx_second"
  "keeps_link (duplex_lib cap bufs) 3 dx_first" "keeps_link (duplex_lib cap bufs) 4 dx_first"
  by (auto simp: keeps_link_def duplex_lib_def on_link_def andThen_eq_Inr_iff)

end
