(* ===== verification/RdmaTransport.thy ===== *)
theory RdmaTransport
  imports EasyRdma SidebandBase MessageChannel
begin

text \<open>
  \<open>RdmaSidebandDataImp\<close> and its wrapper \<open>RdmaSidebandData\<close> (\<^verbatim>\<open>src/sideband_rdma.cc\<close>): the data
  operations over the \<open>easyrdma\<close> library. Connecting and accepting are in the theory of the
  connection queues.
\<close>

section \<open>The class\<close>

definition timeoutMs :: int32 where
  "timeoutMs = - 1"

record RdmaSidebandDataImp =
  im_lowLatency :: bool
  im_connectedWriteSession :: session
  im_connectedReadSession :: session
  im_writeBuffer :: "region option"
  im_readBuffer :: "region option"
  im_bufferSize :: int64

text \<open>The constructor reports a failing \<open>ConfigureBuffers\<close> on the console only.\<close>

definition Imp_new :: "'s easyrdma \<Rightarrow> session \<Rightarrow> session \<Rightarrow> bool \<Rightarrow> int64 \<Rightarrow> 's rdma \<Rightarrow>
    stop + (RdmaSidebandDataImp \<times> 's rdma)" where
  "Imp_new lib writeSession readSession lowLatency bufferSize rd =
     andThen (er_ConfigureBuffers lib writeSession bufferSize 2 rd) (\<lambda>(result, rd).
     andThen (er_ConfigureBuffers lib readSession bufferSize 2 rd) (\<lambda>(result, rd).
     Inr (\<lparr>im_lowLatency = lowLatency, im_connectedWriteSession = writeSession,
       im_connectedReadSession = readSession, im_writeBuffer = None, im_readBuffer = None,
       im_bufferSize = bufferSize\<rparr>, rd)))"

definition Imp_delete :: "'s easyrdma \<Rightarrow> RdmaSidebandDataImp \<Rightarrow> 's rdma \<Rightarrow> stop + 's rdma" where
  "Imp_delete lib this rd =
     andThen
       (if im_connectedWriteSession this \<noteq> er_InvalidSession lib
        then andThen (er_CloseSession lib (im_connectedWriteSession this) rd) (\<lambda>(result, rd). Inr rd)
        else Inr rd)
       (\<lambda>rd. if im_connectedReadSession this \<noteq> er_InvalidSession lib
        then andThen (er_CloseSession lib (im_connectedReadSession this) rd) (\<lambda>(result, rd). Inr rd)
        else Inr rd)"

section \<open>Reading and writing\<close>

text \<open>\<open>QueueBufferRegion\<close> on the write buffer, as the last step of every way of writing.\<close>

definition Imp_queue_write :: "'s easyrdma \<Rightarrow> RdmaSidebandDataImp \<Rightarrow> 's rdma \<Rightarrow>
    stop + (bool \<times> RdmaSidebandDataImp \<times> 's rdma)" where
  "Imp_queue_write lib this rd =
     andThen (er_QueueBufferRegion lib (im_connectedWriteSession this) (im_writeBuffer this) rd)
       (\<lambda>(result, buffer, rd).
         Inr (result = er_Error_Success lib, this\<lparr>im_writeBuffer := buffer\<rparr>, rd))"

definition set_usedSize :: "int64 \<Rightarrow> RdmaSidebandDataImp \<Rightarrow> RdmaSidebandDataImp" where
  "set_usedSize n this =
     this\<lparr>im_writeBuffer := map_option (\<lambda>rg. rg\<lparr>rg_usedSize := n\<rparr>) (im_writeBuffer this)\<rparr>"

definition Imp_Write :: "'s easyrdma \<Rightarrow> RdmaSidebandDataImp \<Rightarrow> byte list \<Rightarrow> int64 \<Rightarrow> 's rdma \<Rightarrow>
    stop + (bool \<times> RdmaSidebandDataImp \<times> 's rdma)" where
  "Imp_Write lib this bytes byteCount rd =
     andThen (er_AcquireSendRegion lib (im_connectedWriteSession this) timeoutMs (im_writeBuffer this) rd)
       (\<lambda>(result, buffer, rd).
         let this = this\<lparr>im_writeBuffer := buffer\<rparr> in
         if result \<noteq> er_Error_Success lib then Inr (False, this, rd)
         else andThen (memcpy_to_region (im_writeBuffer this) 0 bytes byteCount rd) (\<lambda>rd.
           Imp_queue_write lib (set_usedSize byteCount this) rd))"

text \<open>
  The loop of \<open>Read\<close>: \<open>AcquireReceivedRegion\<close> is repeated as long as it times out. It is \<^const>\<open>None\<close>
  when that never ends.
\<close>

partial_function (option) acquire_received :: "'s easyrdma \<Rightarrow> session \<Rightarrow> region option \<Rightarrow> 's rdma \<Rightarrow>
    (stop + (int32 \<times> region option \<times> 's rdma)) option" where
  "acquire_received lib rx buffer rd =
     (case er_AcquireReceivedRegion lib rx timeoutMs buffer rd of
        Inl e \<Rightarrow> Some (Inl e)
      | Inr (result, buffer, rd) \<Rightarrow>
          if result = er_Error_Timeout lib then acquire_received lib rx buffer rd
          else Some (Inr (result, buffer, rd)))"

text \<open>
  \<open>bytes\<close> is \<^const>\<open>None\<close> for a null pointer. The comparison of the signed buffer size with the
  \<open>size_t\<close> of the region is made unsigned.
\<close>

definition Imp_Read :: "'s easyrdma \<Rightarrow> RdmaSidebandDataImp \<Rightarrow> byte list option \<Rightarrow> int64 \<Rightarrow> int64 \<Rightarrow>
    's rdma \<Rightarrow> stop + (bool \<times> byte list option \<times> int64 \<times> RdmaSidebandDataImp \<times> 's rdma)" where
  "Imp_Read lib this bytes bufferSize numBytesRead rd =
     (case acquire_received lib (im_connectedReadSession this)
         (Some \<lparr>rg_buffer = 0, rg_usedSize = 0\<rparr>) rd of
        None \<Rightarrow> Inl Blocks
      | Some r \<Rightarrow> andThen r (\<lambda>(result, buffer, rd).
          let this = this\<lparr>im_readBuffer := buffer\<rparr> in
          if result \<noteq> er_Error_Success lib then Inr (False, bytes, numBytesRead, this, rd)
          else (case bytes of
              None \<Rightarrow> Inr (True, None, numBytesRead, this, rd)
            | Some dst \<Rightarrow>
                (case buffer of
                   None \<Rightarrow> Inl BadAccess
                 | Some rg \<Rightarrow>
                     andThen (if rg_usedSize rg \<le> bufferSize
                              then memcpy_from_region dst buffer 0 (rg_usedSize rg) rd else Inr dst)
                       (\<lambda>dst. andThen (er_ReleaseReceivedBufferRegion lib
                            (im_connectedReadSession this) buffer rd)
                         (\<lambda>(result, buffer, rd).
                           Inr (True, Some dst, rg_usedSize rg, this\<lparr>im_readBuffer := buffer\<rparr>, rd)))))))"

text \<open>The result of \<open>AcquireSendRegion\<close> is not looked at here.\<close>

definition Imp_WriteLengthPrefixed :: "'s easyrdma \<Rightarrow> RdmaSidebandDataImp \<Rightarrow> byte list \<Rightarrow> int64 \<Rightarrow>
    's rdma \<Rightarrow> stop + (bool \<times> RdmaSidebandDataImp \<times> 's rdma)" where
  "Imp_WriteLengthPrefixed lib this bytes byteCount rd =
     andThen (er_AcquireSendRegion lib (im_connectedWriteSession this) timeoutMs (im_writeBuffer this) rd)
       (\<lambda>(result, buffer, rd).
         let this = this\<lparr>im_writeBuffer := buffer\<rparr> in
         andThen (region_write (im_writeBuffer this) 0 (int64_bytes byteCount) rd) (\<lambda>rd.
         andThen (memcpy_to_region (im_writeBuffer this) sizeof_int64 bytes byteCount rd) (\<lambda>rd.
         Imp_queue_write lib (set_usedSize (byteCount + of_nat sizeof_int64) this) rd)))"

text \<open>The region stays with the program: nothing here releases it.\<close>

definition Imp_ReadFromLengthPrefixed :: "RdmaSidebandDataImp \<Rightarrow> byte list \<Rightarrow> int64 \<Rightarrow> 's rdma \<Rightarrow>
    stop + (bool \<times> byte list \<times> int64)" where
  "Imp_ReadFromLengthPrefixed this bytes bufferSize rd =
     andThen (memcpy_from_region bytes (im_readBuffer this) sizeof_int64 bufferSize rd)
       (\<lambda>bytes. Inr (True, bytes, bufferSize))"

definition Imp_ReadLengthPrefix :: "'s easyrdma \<Rightarrow> RdmaSidebandDataImp \<Rightarrow> 's rdma \<Rightarrow>
    stop + (int64 \<times> RdmaSidebandDataImp \<times> 's rdma)" where
  "Imp_ReadLengthPrefix lib this rd =
     andThen (Imp_Read lib this None 0 0 rd) (\<lambda>(ok, bytes, n, this, rd).
       if \<not> ok then Inr (0, this, rd)
       else andThen (region_read (im_readBuffer this) 0 sizeof_int64 rd) (\<lambda>bs.
         Inr (bytes_int64 bs, this, rd)))"

section \<open>Direct access\<close>

text \<open>
  A pointer into a lent buffer: the address and the offset. The null pointer is \<open>(0, 0)\<close>.
\<close>

type_synonym rdma_ptr = "nat \<times> nat"

definition Imp_SupportsDirectReadWrite :: bool where
  "Imp_SupportsDirectReadWrite = True"

definition Imp_BeginDirectRead :: "'s easyrdma \<Rightarrow> RdmaSidebandDataImp \<Rightarrow> int64 \<Rightarrow> 's rdma \<Rightarrow>
    stop + (rdma_ptr \<times> RdmaSidebandDataImp \<times> 's rdma)" where
  "Imp_BeginDirectRead lib this byteCount rd =
     andThen (Imp_Read lib this None 0 0 rd) (\<lambda>(ok, bytes, n, this, rd).
       if \<not> ok then Inr ((0, 0), this, rd)
       else (case im_readBuffer this of
               None \<Rightarrow> Inl BadAccess
             | Some rg \<Rightarrow> Inr ((rg_buffer rg, 0), this, rd)))"

definition Imp_BeginDirectReadLengthPrefixed :: "'s easyrdma \<Rightarrow> RdmaSidebandDataImp \<Rightarrow> int64 \<Rightarrow>
    's rdma \<Rightarrow> stop + (rdma_ptr \<times> int64 \<times> RdmaSidebandDataImp \<times> 's rdma)" where
  "Imp_BeginDirectReadLengthPrefixed lib this bufferSize rd =
     andThen (Imp_Read lib this None 0 0 rd) (\<lambda>(ok, bytes, n, this, rd).
       if \<not> ok then Inr ((0, 0), bufferSize, this, rd)
       else andThen (region_read (im_readBuffer this) 0 sizeof_int64 rd) (\<lambda>bs.
         case im_readBuffer this of
           None \<Rightarrow> Inl BadAccess
         | Some rg \<Rightarrow> Inr ((rg_buffer rg, sizeof_int64), bytes_int64 bs, this, rd)))"

definition Imp_FinishDirectRead :: "'s easyrdma \<Rightarrow> RdmaSidebandDataImp \<Rightarrow> 's rdma \<Rightarrow>
    stop + (bool \<times> RdmaSidebandDataImp \<times> 's rdma)" where
  "Imp_FinishDirectRead lib this rd =
     andThen (er_ReleaseReceivedBufferRegion lib (im_connectedReadSession this) (im_readBuffer this) rd)
       (\<lambda>(result, buffer, rd). Inr (True, this\<lparr>im_readBuffer := buffer\<rparr>, rd))"

definition Imp_BeginDirectWrite :: "'s easyrdma \<Rightarrow> RdmaSidebandDataImp \<Rightarrow> 's rdma \<Rightarrow>
    stop + (rdma_ptr \<times> RdmaSidebandDataImp \<times> 's rdma)" where
  "Imp_BeginDirectWrite lib this rd =
     andThen (er_AcquireSendRegion lib (im_connectedWriteSession this) timeoutMs (im_writeBuffer this) rd)
       (\<lambda>(result, buffer, rd).
         case buffer of
           None \<Rightarrow> Inl BadAccess
         | Some rg \<Rightarrow> Inr ((rg_buffer rg, sizeof_int64), this\<lparr>im_writeBuffer := buffer\<rparr>, rd))"

definition Imp_FinishDirectWrite :: "'s easyrdma \<Rightarrow> RdmaSidebandDataImp \<Rightarrow> int64 \<Rightarrow> 's rdma \<Rightarrow>
    stop + (bool \<times> RdmaSidebandDataImp \<times> 's rdma)" where
  "Imp_FinishDirectWrite lib this byteCount rd =
     andThen (region_write (im_writeBuffer this) 0 (int64_bytes byteCount) rd) (\<lambda>rd.
       Imp_queue_write lib (set_usedSize (byteCount + of_nat sizeof_int64) this) rd)"

definition Imp_BufferSize :: "RdmaSidebandDataImp \<Rightarrow> int64" where
  "Imp_BufferSize this = im_bufferSize this"

text \<open>How the user of the direct interface fills and reads the memory behind such a pointer.\<close>

definition direct_fill :: "rdma_ptr \<Rightarrow> byte list \<Rightarrow> 's rdma \<Rightarrow> stop + 's rdma" where
  "direct_fill p bytes rd = region_write (Some \<lparr>rg_buffer = fst p, rg_usedSize = 0\<rparr>) (snd p) bytes rd"

definition direct_view :: "rdma_ptr \<Rightarrow> int64 \<Rightarrow> 's rdma \<Rightarrow> stop + byte list" where
  "direct_view p n rd = region_read (Some \<lparr>rg_buffer = fst p, rg_usedSize = 0\<rparr>) (snd p) (unat n) rd"

section \<open>The wrapper\<close>

text \<open>
  \<open>RdmaSidebandData\<close> owns the implementation object and hands every data operation on to it; the
  operations below are those that do something of their own.
\<close>

record RdmaSidebandData = SidebandData +
  rs_imp :: RdmaSidebandDataImp
  rs_id :: string

definition Rdma_new :: "string \<Rightarrow> RdmaSidebandDataImp \<Rightarrow> RdmaSidebandData" where
  "Rdma_new id0 imp = \<lparr>sd_bufferSize = Imp_BufferSize imp, sd_serializeBuffer = [],
     rs_imp = imp, rs_id = id0\<rparr>"

definition Rdma_delete :: "'s easyrdma \<Rightarrow> RdmaSidebandData \<Rightarrow> 's rdma \<Rightarrow> stop + 's rdma" where
  "Rdma_delete lib this rd = Imp_delete lib (rs_imp this) rd"

definition Rdma_UsageId :: "RdmaSidebandData \<Rightarrow> string" where
  "Rdma_UsageId this = rs_id this"

definition Rdma_lift :: "RdmaSidebandData \<Rightarrow> (stop + ('a \<times> RdmaSidebandDataImp \<times> 's rdma)) \<Rightarrow>
    stop + ('a \<times> RdmaSidebandData \<times> 's rdma)" where
  "Rdma_lift this r = andThen r (\<lambda>(x, imp, rd). Inr (x, this\<lparr>rs_imp := imp\<rparr>, rd))"

definition Rdma_Write :: "'s easyrdma \<Rightarrow> RdmaSidebandData \<Rightarrow> byte list \<Rightarrow> int64 \<Rightarrow> 's rdma \<Rightarrow>
    stop + (bool \<times> RdmaSidebandData \<times> 's rdma)" where
  "Rdma_Write lib this bytes byteCount rd = Rdma_lift this (Imp_Write lib (rs_imp this) bytes byteCount rd)"

definition Rdma_Read :: "'s easyrdma \<Rightarrow> RdmaSidebandData \<Rightarrow> byte list option \<Rightarrow> int64 \<Rightarrow> int64 \<Rightarrow>
    's rdma \<Rightarrow> stop + (bool \<times> byte list option \<times> int64 \<times> RdmaSidebandData \<times> 's rdma)" where
  "Rdma_Read lib this bytes bufferSize numBytesRead rd =
     andThen (Imp_Read lib (rs_imp this) bytes bufferSize numBytesRead rd) (\<lambda>(ok, bytes, n, imp, rd).
       Inr (ok, bytes, n, this\<lparr>rs_imp := imp\<rparr>, rd))"

definition Rdma_WriteLengthPrefixed :: "'s easyrdma \<Rightarrow> RdmaSidebandData \<Rightarrow> byte list \<Rightarrow> int64 \<Rightarrow>
    's rdma \<Rightarrow> stop + (bool \<times> RdmaSidebandData \<times> 's rdma)" where
  "Rdma_WriteLengthPrefixed lib this bytes byteCount rd =
     Rdma_lift this (Imp_WriteLengthPrefixed lib (rs_imp this) bytes byteCount rd)"

definition Rdma_ReadFromLengthPrefixed :: "RdmaSidebandData \<Rightarrow> byte list \<Rightarrow> int64 \<Rightarrow> 's rdma \<Rightarrow>
    stop + (bool \<times> byte list \<times> int64)" where
  "Rdma_ReadFromLengthPrefixed this bytes bufferSize rd =
     Imp_ReadFromLengthPrefixed (rs_imp this) bytes bufferSize rd"

definition Rdma_ReadLengthPrefix :: "'s easyrdma \<Rightarrow> RdmaSidebandData \<Rightarrow> 's rdma \<Rightarrow>
    stop + (int64 \<times> RdmaSidebandData \<times> 's rdma)" where
  "Rdma_ReadLengthPrefix lib this rd = Rdma_lift this (Imp_ReadLengthPrefix lib (rs_imp this) rd)"

definition Rdma_BeginDirectRead :: "'s easyrdma \<Rightarrow> RdmaSidebandData \<Rightarrow> int64 \<Rightarrow> 's rdma \<Rightarrow>
    stop + (rdma_ptr \<times> RdmaSidebandData \<times> 's rdma)" where
  "Rdma_BeginDirectRead lib this byteCount rd =
     Rdma_lift this (Imp_BeginDirectRead lib (rs_imp this) byteCount rd)"

definition Rdma_BeginDirectReadLengthPrefixed :: "'s easyrdma \<Rightarrow> RdmaSidebandData \<Rightarrow> int64 \<Rightarrow>
    's rdma \<Rightarrow> stop + (rdma_ptr \<times> int64 \<times> RdmaSidebandData \<times> 's rdma)" where
  "Rdma_BeginDirectReadLengthPrefixed lib this bufferSize rd =
     andThen (Imp_BeginDirectReadLengthPrefixed lib (rs_imp this) bufferSize rd)
       (\<lambda>(p, n, imp, rd). Inr (p, n, this\<lparr>rs_imp := imp\<rparr>, rd))"

definition Rdma_FinishDirectRead :: "'s easyrdma \<Rightarrow> RdmaSidebandData \<Rightarrow> 's rdma \<Rightarrow>
    stop + (bool \<times> RdmaSidebandData \<times> 's rdma)" where
  "Rdma_FinishDirectRead lib this rd = Rdma_lift this (Imp_FinishDirectRead lib (rs_imp this) rd)"

definition Rdma_BeginDirectWrite :: "'s easyrdma \<Rightarrow> RdmaSidebandData \<Rightarrow> 's rdma \<Rightarrow>
    stop + (rdma_ptr \<times> RdmaSidebandData \<times> 's rdma)" where
  "Rdma_BeginDirectWrite lib this rd = Rdma_lift this (Imp_BeginDirectWrite lib (rs_imp this) rd)"

definition Rdma_FinishDirectWrite :: "'s easyrdma \<Rightarrow> RdmaSidebandData \<Rightarrow> int64 \<Rightarrow> 's rdma \<Rightarrow>
    stop + (bool \<times> RdmaSidebandData \<times> 's rdma)" where
  "Rdma_FinishDirectWrite lib this byteCount rd =
     Rdma_lift this (Imp_FinishDirectWrite lib (rs_imp this) byteCount rd)"

section \<open>Whole messages\<close>

lemma link_acquires_send:
  assumes "easyrdma_link lib tx rx t cap bufs lv" and "0 < lk_credits (lv (rd_lib rd))"
  obtains rg blk rd' where "er_AcquireSendRegion lib tx t rb rd = Inr (er_Error_Success lib, Some rg, rd')"
    and "rg_buffer rg \<noteq> 0" and "rd_mem rd' (rg_buffer rg) = Some blk" and "length blk = cap"
    and "lv (rd_lib rd') = (lv (rd_lib rd))\<lparr>lk_lent := insert (rg_buffer rg) (lk_lent (lv (rd_lib rd)))\<rparr>"
  using assms unfolding easyrdma_link_def acquires_send_def by blast

lemma link_queues:
  assumes "easyrdma_link lib tx rx t cap bufs lv" and "rg_buffer rg \<in> lk_lent (lv (rd_lib rd))"
    and "rd_mem rd (rg_buffer rg) = Some blk" and "unat (rg_usedSize rg) \<le> length blk"
    and "0 < lk_credits (lv (rd_lib rd))"
  obtains rb rd' where "er_QueueBufferRegion lib tx (Some rg) rd = Inr (er_Error_Success lib, rb, rd')"
    and "lv (rd_lib rd') = (lv (rd_lib rd))
      \<lparr>lk_queued := lk_queued (lv (rd_lib rd)) @ [take (unat (rg_usedSize rg)) blk],
       lk_credits := lk_credits (lv (rd_lib rd)) - 1,
       lk_lent := lk_lent (lv (rd_lib rd)) - {rg_buffer rg}\<rparr>"
  using assms unfolding easyrdma_link_def queues_region_def by blast

lemma link_acquires_received:
  assumes "easyrdma_link lib tx rx t cap bufs lv" and "lk_queued (lv (rd_lib rd)) = m # ms"
    and "length m \<le> cap" and "lk_held (lv (rd_lib rd)) < bufs"
  obtains rg blk rd' where "er_AcquireReceivedRegion lib rx t rb rd = Inr (er_Error_Success lib, Some rg, rd')"
    and "rg_buffer rg \<noteq> 0" and "rd_mem rd' (rg_buffer rg) = Some blk"
    and "unat (rg_usedSize rg) \<le> length blk" and "take (unat (rg_usedSize rg)) blk = m"
    and "lv (rd_lib rd') = (lv (rd_lib rd))\<lparr>lk_queued := ms, lk_held := Suc (lk_held (lv (rd_lib rd)))\<rparr>"
  using assms unfolding easyrdma_link_def acquires_received_def by blast

lemma link_releases:
  assumes "easyrdma_link lib tx rx t cap bufs lv" and "0 < lk_held (lv (rd_lib rd))"
  obtains e rb rd' where "er_ReleaseReceivedBufferRegion lib rx (Some rg) rd = Inr (e, rb, rd')"
    and "lv (rd_lib rd') = (lv (rd_lib rd))
      \<lparr>lk_held := lk_held (lv (rd_lib rd)) - 1, lk_credits := Suc (lk_credits (lv (rd_lib rd)))\<rparr>"
  using assms unfolding easyrdma_link_def releases_received_def by blast

text \<open>What is under way, the credits and the held buffers: the part of the view the channel depends on.\<close>

definition link_now :: "('s \<Rightarrow> link) \<Rightarrow> 's rdma \<Rightarrow> byte list list \<times> nat \<times> nat" where
  "link_now lv rd = (lk_queued (lv (rd_lib rd)), lk_credits (lv (rd_lib rd)), lk_held (lv (rd_lib rd)))"

definition same_sessions :: "RdmaSidebandDataImp \<Rightarrow> RdmaSidebandDataImp \<Rightarrow> bool" where
  "same_sessions a b \<longleftrightarrow> im_connectedWriteSession a = im_connectedWriteSession b \<and>
     im_connectedReadSession a = im_connectedReadSession b"

lemma unat_framed_length:
  "sizeof_int64 + n < 2 ^ 63 \<Longrightarrow> unat (of_nat n + of_nat sizeof_int64 :: int64) = sizeof_int64 + n"
  using unat_int64_of_nat [of "n + sizeof_int64"] by (simp add: add.commute)

lemma Imp_queue_framed:
  assumes link: "easyrdma_link lib tx rx t cap bufs lv" and tx: "im_connectedWriteSession w = tx"
    and buf: "im_writeBuffer w = Some rg" and lent: "rg_buffer rg \<in> lk_lent (lv (rd_lib rd))"
    and mem: "rd_mem rd (rg_buffer rg) = Some (mem_write 0 (frame m) blk)"
    and fits: "length (frame m) \<le> length blk" "length (frame m) < 2 ^ 63"
    and now: "link_now lv rd = (q, Suc c, h)"
  shows "\<exists>w' rd'. Imp_queue_write lib (set_usedSize (of_nat (length m) + of_nat sizeof_int64) w) rd =
    Inr (True, w', rd') \<and> same_sessions w' w \<and> link_now lv rd' = (q @ [frame m], c, h)"
proof -
  let ?n = "of_nat (length m) + of_nat sizeof_int64 :: int64" and ?blk = "mem_write 0 (frame m) blk"
  let ?rg = "rg\<lparr>rg_usedSize := ?n\<rparr>"
  have n: "unat ?n = length (frame m)" using fits(2) by (simp add: unat_framed_length)
  have len: "length ?blk = length blk" using fits(1) by (simp add: length_mem_write)
  have sent: "take (unat ?n) ?blk = frame m"
    using read_write_same [of 0 "frame m" blk] fits(1) by (simp add: n mem_read_def)
  have size: "unat (rg_usedSize ?rg) \<le> length ?blk" using n len fits(1) by simp
  have credits: "0 < lk_credits (lv (rd_lib rd))" using now by (simp add: link_now_def)
  have lent': "rg_buffer ?rg \<in> lk_lent (lv (rd_lib rd))" and mem': "rd_mem rd (rg_buffer ?rg) = Some ?blk"
    using lent mem by simp_all
  obtain rb rd' where q: "er_QueueBufferRegion lib tx (Some ?rg) rd = Inr (er_Error_Success lib, rb, rd')"
    and lv: "lv (rd_lib rd') = (lv (rd_lib rd))
      \<lparr>lk_queued := lk_queued (lv (rd_lib rd)) @ [take (unat (rg_usedSize ?rg)) ?blk],
       lk_credits := lk_credits (lv (rd_lib rd)) - 1,
       lk_lent := lk_lent (lv (rd_lib rd)) - {rg_buffer ?rg}\<rparr>"
    by (rule link_queues [OF link lent' mem' size credits])
  show ?thesis
    using q lv now tx buf by (simp add: Imp_queue_write_def set_usedSize_def same_sessions_def link_now_def sent)
qed

lemma Imp_WriteLengthPrefixed_total:
  assumes link: "easyrdma_link lib tx rx timeoutMs cap bufs lv" and tx: "im_connectedWriteSession w = tx"
    and now: "link_now lv rd = (q, Suc c, h)"
    and fits: "length (frame m) \<le> cap" "cap < 2 ^ 63"
  shows "\<exists>w' rd'. Imp_WriteLengthPrefixed lib w m (of_nat (length m)) rd = Inr (True, w', rd') \<and>
    same_sessions w' w \<and> link_now lv rd' = (q @ [frame m], c, h)"
proof -
  have credits: "0 < lk_credits (lv (rd_lib rd))" using now by (simp add: link_now_def)
  obtain rg blk rd1 where acq: "er_AcquireSendRegion lib tx timeoutMs (im_writeBuffer w) rd =
      Inr (er_Error_Success lib, Some rg, rd1)" "rg_buffer rg \<noteq> 0" "rd_mem rd1 (rg_buffer rg) = Some blk"
      "length blk = cap"
    and lv: "lv (rd_lib rd1) = (lv (rd_lib rd))\<lparr>lk_lent := insert (rg_buffer rg) (lk_lent (lv (rd_lib rd)))\<rparr>"
    using link_acquires_send [OF link credits] by metis
  let ?w = "w\<lparr>im_writeBuffer := Some rg\<rparr>" and ?blk = "mem_write 0 (frame m) blk"
  let ?rd = "rd1\<lparr>rd_mem := (rd_mem rd1)(rg_buffer rg \<mapsto> ?blk)\<rparr>"
  have "mem_write sizeof_int64 m (mem_write 0 (int64_bytes (of_nat (length m))) blk) = ?blk"
    using mem_write_adjacent [of 0 "int64_bytes (of_nat (length m))" m blk] fits(1) acq(4)
    by (simp add: frame_def)
  then have "Imp_WriteLengthPrefixed lib w m (of_nat (length m)) rd =
      Imp_queue_write lib (set_usedSize (of_nat (length m) + of_nat sizeof_int64) ?w) ?rd"
    using acq fits tx
    by (simp add: Imp_WriteLengthPrefixed_def region_write_def memcpy_to_region_def buf_write_def
        length_mem_write)
  moreover have "link_now lv ?rd = (q, Suc c, h)" using now lv by (simp add: link_now_def)
  ultimately show ?thesis
    using Imp_queue_framed [OF link, of ?w rg ?rd m blk q c h] fits acq(4) tx lv
    by (simp add: same_sessions_def)
qed

lemma Imp_direct_write_total:
  assumes link: "easyrdma_link lib tx rx timeoutMs cap bufs lv" and tx: "im_connectedWriteSession w = tx"
    and now: "link_now lv rd = (q, Suc c, h)"
    and fits: "length (frame m) \<le> cap" "cap < 2 ^ 63"
  shows "\<exists>p w1 rd1 rd2 w2 rd3. Imp_BeginDirectWrite lib w rd = Inr (p, w1, rd1) \<and> p \<noteq> (0, 0) \<and>
    direct_fill p m rd1 = Inr rd2 \<and>
    Imp_FinishDirectWrite lib w1 (of_nat (length m)) rd2 = Inr (True, w2, rd3) \<and>
    same_sessions w2 w \<and> link_now lv rd3 = (q @ [frame m], c, h)"
proof -
  have credits: "0 < lk_credits (lv (rd_lib rd))" using now by (simp add: link_now_def)
  obtain rg blk rd1 where acq: "er_AcquireSendRegion lib tx timeoutMs (im_writeBuffer w) rd =
      Inr (er_Error_Success lib, Some rg, rd1)" "rg_buffer rg \<noteq> 0" "rd_mem rd1 (rg_buffer rg) = Some blk"
      "length blk = cap"
    and lv: "lv (rd_lib rd1) = (lv (rd_lib rd))\<lparr>lk_lent := insert (rg_buffer rg) (lk_lent (lv (rd_lib rd)))\<rparr>"
    using link_acquires_send [OF link credits] by metis
  let ?w = "w\<lparr>im_writeBuffer := Some rg\<rparr>" and ?p = "rg_buffer rg" and ?blk1 = "mem_write sizeof_int64 m blk"
  let ?rd2 = "rd1\<lparr>rd_mem := (rd_mem rd1)(?p \<mapsto> ?blk1)\<rparr>"
  let ?rd3 = "rd1\<lparr>rd_mem := (rd_mem rd1)(?p \<mapsto> mem_write 0 (frame m) blk)\<rparr>"
  have begin_write: "Imp_BeginDirectWrite lib w rd = Inr ((?p, sizeof_int64), ?w, rd1)"
    using acq(1) tx by (simp add: Imp_BeginDirectWrite_def)
  have fill: "direct_fill (?p, sizeof_int64) m rd1 = Inr ?rd2"
    using acq fits(1) by (simp add: direct_fill_def region_write_def buf_write_def)
  have "mem_write 0 (int64_bytes (of_nat (length m))) ?blk1 = mem_write 0 (frame m) blk"
    using fits(1) acq(4) by (simp add: mem_write_def frame_def min_def)
  then have "Imp_FinishDirectWrite lib ?w (of_nat (length m)) ?rd2 =
      Imp_queue_write lib (set_usedSize (of_nat (length m) + of_nat sizeof_int64) ?w) ?rd3"
    using acq fits
    by (simp add: Imp_FinishDirectWrite_def region_write_def buf_write_def length_mem_write)
  moreover have "link_now lv ?rd3 = (q, Suc c, h)" using now lv by (simp add: link_now_def)
  ultimately obtain w2 rd4 where "Imp_FinishDirectWrite lib ?w (of_nat (length m)) ?rd2 = Inr (True, w2, rd4)"
    "same_sessions w2 ?w" "link_now lv rd4 = (q @ [frame m], c, h)"
    using Imp_queue_framed [OF link, of ?w rg ?rd3 m blk q c h] fits acq(4) tx lv by auto
  then show ?thesis using begin_write fill acq(2) by (fastforce simp: same_sessions_def)
qed

text \<open>A received message is in the read buffer, with the prefix in front.\<close>

definition holds_message :: "byte list \<Rightarrow> RdmaSidebandDataImp \<Rightarrow> 's rdma \<Rightarrow> bool" where
  "holds_message m this rd \<longleftrightarrow> (\<exists>rg rest. im_readBuffer this = Some rg \<and> rg_buffer rg \<noteq> 0 \<and>
     rd_mem rd (rg_buffer rg) = Some (frame m @ rest))"

lemma Imp_Read_held:
  assumes link: "easyrdma_link lib tx rx timeoutMs cap bufs lv" and rx: "im_connectedReadSession r = rx"
    and now: "link_now lv rd = (frame m # q, c, h)"
    and fits: "length (frame m) \<le> cap" "h < bufs"
  shows "\<exists>r' rd'. Imp_Read lib r None 0 n rd = Inr (True, None, n, r', rd') \<and> same_sessions r' r \<and>
    link_now lv rd' = (q, c, Suc h) \<and> holds_message m r' rd'"
proof -
  have queued: "lk_queued (lv (rd_lib rd)) = frame m # q" and held: "lk_held (lv (rd_lib rd)) < bufs"
    using now fits(2) by (simp_all add: link_now_def)
  obtain rg blk rd' where acq: "er_AcquireReceivedRegion lib rx timeoutMs
      (Some \<lparr>rg_buffer = 0, rg_usedSize = 0\<rparr>) rd = Inr (er_Error_Success lib, Some rg, rd')"
      "rg_buffer rg \<noteq> 0" "rd_mem rd' (rg_buffer rg) = Some blk"
    and blk: "unat (rg_usedSize rg) \<le> length blk" "take (unat (rg_usedSize rg)) blk = frame m"
    and lv: "lv (rd_lib rd') = (lv (rd_lib rd))\<lparr>lk_queued := q, lk_held := Suc (lk_held (lv (rd_lib rd)))\<rparr>"
    by (rule link_acquires_received [OF link queued fits(1) held])
  have "blk = frame m @ drop (unat (rg_usedSize rg)) blk" using blk(2) append_take_drop_id by metis
  then have mem: "\<exists>rest. rd_mem rd' (rg_buffer rg) = Some (frame m @ rest)" using acq(3) by auto
  have "er_Error_Timeout lib \<noteq> er_Error_Success lib" using link by (simp add: easyrdma_link_def)
  then have "Imp_Read lib r None 0 n rd = Inr (True, None, n, r\<lparr>im_readBuffer := Some rg\<rparr>, rd')"
    using acq(1) rx by (subst Imp_Read_def, subst acquire_received.simps) simp
  then show ?thesis
    using acq(2) mem lv now by (auto simp: same_sessions_def link_now_def holds_message_def)
qed

lemma region_read_frame:
  assumes "im_readBuffer r = Some rg" and "rg_buffer rg \<noteq> 0"
    and "rd_mem rd (rg_buffer rg) = Some (frame m @ rest)"
  shows "region_read (im_readBuffer r) 0 sizeof_int64 rd = Inr (int64_bytes (of_nat (length m)))"
    and "region_read (im_readBuffer r) sizeof_int64 (length m) rd = Inr m"
  using assms by (simp_all add: region_read_def buf_read_def mem_read_def frame_def)

lemma Imp_BeginDirectReadLengthPrefixed_total:
  assumes "easyrdma_link lib tx rx timeoutMs cap bufs lv" and "im_connectedReadSession r = rx"
    and "link_now lv rd = (frame m # q, c, h)"
    and "length (frame m) \<le> cap" "cap < 2 ^ 63" "h < bufs"
  shows "\<exists>p r' rd'. Imp_BeginDirectReadLengthPrefixed lib r n rd = Inr (p, of_nat (length m), r', rd') \<and>
    p \<noteq> (0, 0) \<and> direct_view p (of_nat (length m)) rd' = Inr m \<and> same_sessions r' r \<and>
    link_now lv rd' = (q, c, Suc h) \<and> (\<exists>rg. im_readBuffer r' = Some rg)"
proof -
  obtain r' rd' where rd: "Imp_Read lib r None 0 0 rd = Inr (True, None, 0, r', rd')"
    and same: "same_sessions r' r" and now: "link_now lv rd' = (q, c, Suc h)" and "holds_message m r' rd'"
    using Imp_Read_held [OF assms(1-4,6)] by blast
  then obtain rg rest where buf: "im_readBuffer r' = Some rg" "rg_buffer rg \<noteq> 0"
    and mem: "rd_mem rd' (rg_buffer rg) = Some (frame m @ rest)"
    by (auto simp: holds_message_def)
  have "direct_view (rg_buffer rg, sizeof_int64) (of_nat (length m)) rd' = Inr m"
    using buf(2) mem assms(4,5)
    by (simp add: direct_view_def region_read_def buf_read_def mem_read_def frame_def)
  then show ?thesis
    using rd same now buf region_read_frame(1) [OF buf mem]
    by (simp add: Imp_BeginDirectReadLengthPrefixed_def)
qed

lemma Imp_FinishDirectRead_total:
  assumes link: "easyrdma_link lib tx rx timeoutMs cap bufs lv" and "im_connectedReadSession r = rx"
    and now: "link_now lv rd = (q, c, Suc h)" and "im_readBuffer r = Some rg"
  shows "\<exists>r' rd'. Imp_FinishDirectRead lib r rd = Inr (True, r', rd') \<and> same_sessions r' r \<and>
    link_now lv rd' = (q, Suc c, h)"
proof -
  have held: "0 < lk_held (lv (rd_lib rd))" using now by (simp add: link_now_def)
  obtain e rb rd' where "er_ReleaseReceivedBufferRegion lib rx (Some rg) rd = Inr (e, rb, rd')"
    and "lv (rd_lib rd') = (lv (rd_lib rd))
      \<lparr>lk_held := lk_held (lv (rd_lib rd)) - 1, lk_credits := Suc (lk_credits (lv (rd_lib rd)))\<rparr>"
    by (rule link_releases [OF link held])
  then show ?thesis using assms(2,4) now
    by (simp add: Imp_FinishDirectRead_def same_sessions_def link_now_def)
qed

section \<open>An RDMA connection is a message channel\<close>

text \<open>
  The two ends and the library's state; \<open>Rd_send\<close> and \<open>Rd_send_direct\<close> are the two ways of sending
  a message, \<open>Rd_receive\<close> reads it in place and gives the buffer back.
\<close>

type_synonym 's rdma_ends = "RdmaSidebandDataImp \<times> RdmaSidebandDataImp \<times> 's rdma"

definition Rd_send :: "'s easyrdma \<Rightarrow> byte list \<Rightarrow> 's rdma_ends \<Rightarrow> stop + (bool \<times> 's rdma_ends)" where
  "Rd_send lib m s = (case s of (w, r, rd) \<Rightarrow>
     andThen (Imp_WriteLengthPrefixed lib w m (of_nat (length m)) rd) (\<lambda>(ok, w, rd).
       Inr (ok, w, r, rd)))"

definition Rd_send_direct :: "'s easyrdma \<Rightarrow> byte list \<Rightarrow> 's rdma_ends \<Rightarrow> stop + (bool \<times> 's rdma_ends)" where
  "Rd_send_direct lib m s = (case s of (w, r, rd) \<Rightarrow>
     andThen (Imp_BeginDirectWrite lib w rd) (\<lambda>(p, w, rd).
     andThen (direct_fill p m rd) (\<lambda>rd.
     andThen (Imp_FinishDirectWrite lib w (of_nat (length m)) rd) (\<lambda>(ok, w, rd).
       Inr (ok, w, r, rd)))))"

definition Rd_receive :: "'s easyrdma \<Rightarrow> 's rdma_ends \<Rightarrow> stop + (byte list \<times> 's rdma_ends)" where
  "Rd_receive lib s = (case s of (w, r, rd) \<Rightarrow>
     andThen (Imp_BeginDirectReadLengthPrefixed lib r 0 rd) (\<lambda>(p, n, r, rd).
     andThen (direct_view p n rd) (\<lambda>m.
     andThen (Imp_FinishDirectRead lib r rd) (\<lambda>(ok, r, rd).
       Inr (m, w, r, rd)))))"

text \<open>
  Sending is granted by the credits of the link; every message received gives one back, so the
  channel promises at least \<open>b\<close> further messages.
\<close>

definition Rd_fits :: "nat \<Rightarrow> byte list \<Rightarrow> bool" where
  "Rd_fits cap m \<longleftrightarrow> length (frame m) \<le> cap"

definition Rd_channel :: "'s easyrdma \<Rightarrow> nat \<Rightarrow> ('s \<Rightarrow> link) \<Rightarrow> nat \<Rightarrow> nat \<Rightarrow> 's rdma_ends \<Rightarrow>
    byte list list \<Rightarrow> bool" where
  "Rd_channel lib cap lv b c s q \<longleftrightarrow> (case s of (w, r, rd) \<Rightarrow>
     (\<exists>bufs credits. easyrdma_link lib (im_connectedWriteSession w) (im_connectedReadSession r) timeoutMs cap bufs lv \<and>
        cap < 2 ^ 63 \<and> 0 < bufs \<and> list_all (Rd_fits cap) q \<and>
        link_now lv rd = (map frame q, credits, 0) \<and> b \<le> credits))"

lemma Rd_channelE:
  assumes "Rd_channel lib cap lv b c (w, r, rd) q"
  obtains bufs credits where
    "easyrdma_link lib (im_connectedWriteSession w) (im_connectedReadSession r) timeoutMs cap bufs lv"
    "cap < 2 ^ 63" "0 < bufs" "list_all (Rd_fits cap) q" "link_now lv rd = (map frame q, credits, 0)" "b \<le> credits"
  using assms by (auto simp: Rd_channel_def)

lemma Rd_channelI:
  assumes "easyrdma_link lib tx rx timeoutMs cap bufs lv" and "im_connectedWriteSession w = tx"
    and "im_connectedReadSession r = rx" and "cap < 2 ^ 63" and "0 < bufs" and "list_all (Rd_fits cap) q"
    and "link_now lv rd = (map frame q, credits, 0)" and "b \<le> credits"
  shows "Rd_channel lib cap lv b c (w, r, rd) q"
  using assms by (auto simp: Rd_channel_def)

lemma Rd_send_law:
  assumes chan: "Rd_channel lib cap lv (Suc b) c (w, r, rd) q" and fits: "Rd_fits cap m"
  shows "\<exists>s'. Rd_send lib m (w, r, rd) = Inr (True, s') \<and> Rd_channel lib cap lv b c s' (q @ [m])"
    and "\<exists>s'. Rd_send_direct lib m (w, r, rd) = Inr (True, s') \<and> Rd_channel lib cap lv b c s' (q @ [m])"
proof -
  obtain bufs credits where link: "easyrdma_link lib (im_connectedWriteSession w) (im_connectedReadSession r)
      timeoutMs cap bufs lv"
    and caps: "cap < 2 ^ 63" "0 < bufs" "list_all (Rd_fits cap) q"
    and now: "link_now lv rd = (map frame q, credits, 0)" "Suc b \<le> credits"
    using Rd_channelE [OF chan] by metis
  obtain k where k: "credits = Suc k" "b \<le> k" using now(2) by (cases credits) auto
  have fit: "length (frame m) \<le> cap" using fits by (simp only: Rd_fits_def)
  have now': "link_now lv rd = (map frame q, Suc k, 0)" using now(1) k(1) by simp
  have step: "Rd_channel lib cap lv b c (w', r, rd') (q @ [m])"
    if "same_sessions w' w" and "link_now lv rd' = (map frame q @ [frame m], k, 0)" for w' rd'
    using that caps fits k(2) by (intro Rd_channelI [OF link]) (simp_all add: same_sessions_def)
  obtain w' rd' where "Imp_WriteLengthPrefixed lib w m (of_nat (length m)) rd = Inr (True, w', rd')"
    "same_sessions w' w" "link_now lv rd' = (map frame q @ [frame m], k, 0)"
    using Imp_WriteLengthPrefixed_total [OF link refl now' fit caps(1)] by blast
  then show "\<exists>s'. Rd_send lib m (w, r, rd) = Inr (True, s') \<and> Rd_channel lib cap lv b c s' (q @ [m])"
    using step by (simp add: Rd_send_def)
  obtain p w1 rd1 rd2 w2 rd3 where "Imp_BeginDirectWrite lib w rd = Inr (p, w1, rd1)"
    "direct_fill p m rd1 = Inr rd2" "Imp_FinishDirectWrite lib w1 (of_nat (length m)) rd2 = Inr (True, w2, rd3)"
    "same_sessions w2 w" "link_now lv rd3 = (map frame q @ [frame m], k, 0)"
    using Imp_direct_write_total [OF link refl now' fit caps(1)] by blast
  then show "\<exists>s'. Rd_send_direct lib m (w, r, rd) = Inr (True, s') \<and> Rd_channel lib cap lv b c s' (q @ [m])"
    using step by (simp add: Rd_send_direct_def)
qed

lemma Rd_receive_law:
  assumes chan: "Rd_channel lib cap lv b c (w, r, rd) (m # q)"
  shows "\<exists>s'. Rd_receive lib (w, r, rd) = Inr (m, s') \<and> Rd_channel lib cap lv b c' s' q"
proof -
  obtain bufs credits where link: "easyrdma_link lib (im_connectedWriteSession w) (im_connectedReadSession r)
      timeoutMs cap bufs lv"
    and caps: "cap < 2 ^ 63" "0 < bufs" "list_all (Rd_fits cap) (m # q)"
    and now: "link_now lv rd = (map frame (m # q), credits, 0)" "b \<le> credits"
    using Rd_channelE [OF chan] by metis
  have now': "link_now lv rd = (frame m # map frame q, credits, 0)" using now(1) by simp
  have fit: "length (frame m) \<le> cap" using caps(3) by (simp add: Rd_fits_def)
  obtain p r1 rd1 rg where begin_read: "Imp_BeginDirectReadLengthPrefixed lib r 0 rd = Inr (p, of_nat (length m), r1, rd1)"
    and view: "direct_view p (of_nat (length m)) rd1 = Inr m" and same1: "same_sessions r1 r"
    and now1: "link_now lv rd1 = (map frame q, credits, Suc 0)" and buf: "im_readBuffer r1 = Some rg"
    using Imp_BeginDirectReadLengthPrefixed_total [OF link refl now' fit caps(1,2)] by blast
  have rx: "im_connectedReadSession r1 = im_connectedReadSession r" using same1 by (simp add: same_sessions_def)
  obtain r2 rd2 where finish: "Imp_FinishDirectRead lib r1 rd1 = Inr (True, r2, rd2)"
    and same2: "same_sessions r2 r1" and now2: "link_now lv rd2 = (map frame q, Suc credits, 0)"
    using Imp_FinishDirectRead_total [OF link rx now1 buf] by blast
  have "Rd_channel lib cap lv b c' (w, r2, rd2) q"
    using caps now(2) same1 same2 now2 by (intro Rd_channelI [OF link, where credits = "Suc credits"]) (simp_all add: same_sessions_def)
  then show ?thesis using begin_read view finish by (simp add: Rd_receive_def)
qed

interpretation rdma_channel:
  message_channel "Rd_send lib" "Rd_receive lib" "Rd_channel lib cap lv" "\<lambda>m. 1" "Rd_fits cap"
  for lib cap lv
proof unfold_locales
  fix m b c s q
  assume chan: "Rd_channel lib cap lv (1 + b) c s q" and fits: "Rd_fits cap m"
  obtain w r rd where s: "s = (w, r, rd)" by (cases s)
  have "Rd_channel lib cap lv (Suc b) c (w, r, rd) q" using chan s by simp
  then show "\<exists>s'. Rd_send lib m s = Inr (True, s') \<and> Rd_channel lib cap lv b c s' (q @ [m])"
    unfolding s using fits by (rule Rd_send_law(1))
next
  fix b m c s q
  assume chan: "Rd_channel lib cap lv b (1 + c) s (m # q)"
  obtain w r rd where s: "s = (w, r, rd)" by (cases s)
  show "\<exists>s'. Rd_receive lib s = Inr (m, s') \<and> Rd_channel lib cap lv b c s' q"
    using chan unfolding s by (rule Rd_receive_law)
qed

interpretation rdma_direct_channel:
  message_channel "Rd_send_direct lib" "Rd_receive lib" "Rd_channel lib cap lv" "\<lambda>m. 1" "Rd_fits cap"
  for lib cap lv
proof unfold_locales
  fix m b c s q
  assume chan: "Rd_channel lib cap lv (1 + b) c s q" and fits: "Rd_fits cap m"
  obtain w r rd where s: "s = (w, r, rd)" by (cases s)
  have "Rd_channel lib cap lv (Suc b) c (w, r, rd) q" using chan s by simp
  then show "\<exists>s'. Rd_send_direct lib m s = Inr (True, s') \<and> Rd_channel lib cap lv b c s' (q @ [m])"
    unfolding s using fits by (rule Rd_send_law(2))
next
  fix b m c s q
  assume "Rd_channel lib cap lv b (1 + c) s (m # q)"
  then show "\<exists>s'. Rd_receive lib s = Inr (m, s') \<and> Rd_channel lib cap lv b c s' q"
    by (rule rdma_channel.recv_law)
qed

section \<open>Raw messages\<close>

lemma Imp_Write_total:
  assumes link: "easyrdma_link lib tx rx timeoutMs cap bufs lv" and tx: "im_connectedWriteSession w = tx"
    and now: "link_now lv rd = (q, Suc c, h)"
    and fits: "length m \<le> cap" "cap < 2 ^ 63"
  shows "\<exists>w' rd'. Imp_Write lib w m (of_nat (length m)) rd = Inr (True, w', rd') \<and>
    same_sessions w' w \<and> link_now lv rd' = (q @ [m], c, h)"
proof -
  have credits: "0 < lk_credits (lv (rd_lib rd))" using now by (simp add: link_now_def)
  obtain rg blk rd1 where acq: "er_AcquireSendRegion lib tx timeoutMs (im_writeBuffer w) rd =
      Inr (er_Error_Success lib, Some rg, rd1)" "rg_buffer rg \<noteq> 0" "rd_mem rd1 (rg_buffer rg) = Some blk"
      "length blk = cap"
    and lv: "lv (rd_lib rd1) = (lv (rd_lib rd))\<lparr>lk_lent := insert (rg_buffer rg) (lk_lent (lv (rd_lib rd)))\<rparr>"
    by (rule link_acquires_send [OF link credits])
  let ?blk = "mem_write 0 m blk" and ?rg = "rg\<lparr>rg_usedSize := of_nat (length m)\<rparr>"
  let ?rd = "rd1\<lparr>rd_mem := (rd_mem rd1)(rg_buffer rg \<mapsto> ?blk)\<rparr>"
  have n: "unat (of_nat (length m) :: int64) = length m" using fits by simp
  have len: "length ?blk = cap" using fits(1) acq(4) by (simp add: length_mem_write)
  have sent: "take (length m) ?blk = m"
    using read_write_same [of 0 m blk] fits(1) acq(4) by (simp add: mem_read_def)
  have size: "unat (rg_usedSize ?rg) \<le> length ?blk" and lent: "rg_buffer ?rg \<in> lk_lent (lv (rd_lib ?rd))"
    and mem: "rd_mem ?rd (rg_buffer ?rg) = Some ?blk" and credits': "0 < lk_credits (lv (rd_lib ?rd))"
    using n len fits(1) lv credits by simp_all
  obtain rb rd' where q: "er_QueueBufferRegion lib tx (Some ?rg) ?rd = Inr (er_Error_Success lib, rb, rd')"
    and lv': "lv (rd_lib rd') = (lv (rd_lib ?rd))
      \<lparr>lk_queued := lk_queued (lv (rd_lib ?rd)) @ [take (unat (rg_usedSize ?rg)) ?blk],
       lk_credits := lk_credits (lv (rd_lib ?rd)) - 1,
       lk_lent := lk_lent (lv (rd_lib ?rd)) - {rg_buffer ?rg}\<rparr>"
    by (rule link_queues [OF link lent mem size credits'])
  have "Imp_Write lib w m (of_nat (length m)) rd =
      Inr (True, w\<lparr>im_writeBuffer := rb\<rparr>, rd')"
    using acq fits tx n q
    by (simp add: Imp_Write_def memcpy_to_region_def region_write_def buf_write_def Imp_queue_write_def
        set_usedSize_def)
  then show ?thesis using lv lv' now n sent by (simp add: same_sessions_def link_now_def)
qed

lemma Imp_Read_total:
  assumes link: "easyrdma_link lib tx rx timeoutMs cap bufs lv" and rx: "im_connectedReadSession r = rx"
    and now: "link_now lv rd = (m # q, c, h)"
    and fits: "length m \<le> cap" "cap < 2 ^ 63" "h < bufs" "length m \<le> length dst"
  shows "\<exists>r' rd'. Imp_Read lib r (Some dst) n nread rd =
      Inr (True, Some (if length m \<le> unat n then mem_write 0 m dst else dst), of_nat (length m), r', rd') \<and>
    same_sessions r' r \<and> link_now lv rd' = (q, Suc c, h)"
proof -
  have queued: "lk_queued (lv (rd_lib rd)) = m # q" and held: "lk_held (lv (rd_lib rd)) < bufs"
    using now fits(3) by (simp_all add: link_now_def)
  obtain rg blk rd1 where acq: "er_AcquireReceivedRegion lib rx timeoutMs
      (Some \<lparr>rg_buffer = 0, rg_usedSize = 0\<rparr>) rd = Inr (er_Error_Success lib, Some rg, rd1)"
      "rg_buffer rg \<noteq> 0" "rd_mem rd1 (rg_buffer rg) = Some blk"
    and blk: "unat (rg_usedSize rg) \<le> length blk" "take (unat (rg_usedSize rg)) blk = m"
    and lv: "lv (rd_lib rd1) = (lv (rd_lib rd))\<lparr>lk_queued := q, lk_held := Suc (lk_held (lv (rd_lib rd)))\<rparr>"
    by (rule link_acquires_received [OF link queued fits(1) held])
  have used: "unat (rg_usedSize rg) = length m" using blk by auto
  then have size: "rg_usedSize rg = of_nat (length m)" by (metis of_nat_unat ucast_id)
  have fit: "rg_usedSize rg \<le> n \<longleftrightarrow> length m \<le> unat n" using used by (simp add: word_le_nat_alt)
  have held1: "0 < lk_held (lv (rd_lib rd1))" using lv by simp
  obtain e rb rd2 where rel: "er_ReleaseReceivedBufferRegion lib rx (Some rg) rd1 = Inr (e, rb, rd2)"
    and lv2: "lv (rd_lib rd2) = (lv (rd_lib rd1))
      \<lparr>lk_held := lk_held (lv (rd_lib rd1)) - 1, lk_credits := Suc (lk_credits (lv (rd_lib rd1)))\<rparr>"
    by (rule link_releases [OF link held1])
  have copy: "memcpy_from_region dst (Some rg) 0 (rg_usedSize rg) rd1 = Inr (mem_write 0 m dst)"
    using acq(2,3) blk used fits(4)
    by (simp add: memcpy_from_region_def region_read_def buf_read_def buf_write_def mem_read_def)
  have "acquire_received lib rx (Some \<lparr>rg_buffer = 0, rg_usedSize = 0\<rparr>) rd =
      Some (Inr (er_Error_Success lib, Some rg, rd1))"
    using acq(1) link by (subst acquire_received.simps) (auto simp: easyrdma_link_def)
  then have "Imp_Read lib r (Some dst) n nread rd =
      Inr (True, Some (if length m \<le> unat n then mem_write 0 m dst else dst), of_nat (length m),
        r\<lparr>im_readBuffer := rb\<rparr>, rd2)"
    using rx copy rel fit size by (simp add: Imp_Read_def)
  then show ?thesis using now lv lv2 by (simp add: same_sessions_def link_now_def)
qed

section \<open>Properties of the transport\<close>

text \<open>
  C12. Over a connection of a library that keeps its promises, all messages sent with length prefixes,
  in one call or in place through \<open>BeginDirectWrite\<close> and \<open>FinishDirectWrite\<close>, are received whole
  and in the order of sending.
\<close>

theorem rdma_messages_fifo:
  assumes "easyrdma_link lib (im_connectedWriteSession w) (im_connectedReadSession r) timeoutMs cap bufs lv"
    and "cap < 2 ^ 63" and "0 < bufs" and "link_now lv rd = ([], credits, 0)" and "length ms \<le> credits"
    and "list_all (Rd_fits cap) ms"
  shows "(\<exists>s1 s2. send_all (Rd_send lib) ms (w, r, rd) = Inr (True, s1) \<and>
      recv_all (Rd_receive lib) (length ms) s1 = Inr (ms, s2)) \<and>
    (\<exists>s1 s2. send_all (Rd_send_direct lib) ms (w, r, rd) = Inr (True, s1) \<and>
      recv_all (Rd_receive lib) (length ms) s1 = Inr (ms, s2))"
proof -
  have n: "sum_list (map (\<lambda>m. 1) ms) = length ms" by (induction ms) simp_all
  have "Rd_channel lib cap lv (sum_list (map (\<lambda>m. 1) ms) + 0) (sum_list (map (\<lambda>m. 1) ms) + 0) (w, r, rd) []"
    using assms unfolding n by (intro Rd_channelI [OF assms(1)]) simp_all
  then show ?thesis
    using rdma_channel.send_recv_all rdma_direct_channel.send_recv_all assms(6) by blast
qed

definition example_imp :: "RdmaSidebandDataImp" where
  "example_imp = \<lparr>im_lowLatency = False, im_connectedWriteSession = 1, im_connectedReadSession = 2,
     im_writeBuffer = None, im_readBuffer = None, im_bufferSize = 16\<rparr>"

lemma example_link: "easyrdma_link (fifo_lib 16 2) (im_connectedWriteSession example_imp)
    (im_connectedReadSession example_imp) timeoutMs 16 2 ff_link"
  using fifo_easyrdma_link [of 16 2 timeoutMs] by (simp add: example_imp_def)

lemma example_link_now: "link_now ff_link (fifo_start n) = ([], n, 0)"
  by (simp add: link_now_def fifo_start_def)

theorem rdma_messages_fifo_witness:
  "(\<exists>s1 s2. send_all (Rd_send (fifo_lib 16 2)) [[7, 8], []] (example_imp, example_imp, fifo_start 2) = Inr (True, s1) \<and>
      recv_all (Rd_receive (fifo_lib 16 2)) (length [[7, 8], [] :: byte list]) s1 = Inr ([[7, 8], []], s2)) \<and>
    (\<exists>s1 s2. send_all (Rd_send_direct (fifo_lib 16 2)) [[7, 8], []] (example_imp, example_imp, fifo_start 2) = Inr (True, s1) \<and>
      recv_all (Rd_receive (fifo_lib 16 2)) (length [[7, 8], [] :: byte list]) s1 = Inr ([[7, 8], []], s2))"
  by (rule rdma_messages_fifo [OF example_link _ _ example_link_now])
    (simp_all add: Rd_fits_def sizeof_int64_def)

text \<open>
  C31. A message written raw is read back whole if it fits the reader's buffer size. If it does not,
  \<open>Read\<close> still reports success and the message's size, copies nothing and gives the buffer back: the
  message is lost.
\<close>

theorem rdma_raw_roundtrip:
  assumes "easyrdma_link lib (im_connectedWriteSession w) (im_connectedReadSession r) timeoutMs cap bufs lv"
    and "cap < 2 ^ 63" and "0 < bufs" and "link_now lv rd = ([], Suc c, 0)"
    and "length m \<le> cap" and "length m \<le> length dst"
  shows "\<exists>w' rd1 r' rd2. Imp_Write lib w m (of_nat (length m)) rd = Inr (True, w', rd1) \<and>
    Imp_Read lib r (Some dst) n nread rd1 =
      Inr (True, Some (if length m \<le> unat n then mem_write 0 m dst else dst), of_nat (length m), r', rd2) \<and>
    link_now lv rd2 = ([], Suc c, 0)"
proof -
  obtain w' rd1 where w: "Imp_Write lib w m (of_nat (length m)) rd = Inr (True, w', rd1)"
    and now: "link_now lv rd1 = ([m], c, 0)"
    using Imp_Write_total [OF assms(1) refl assms(4,5,2)] by auto
  show ?thesis
    using w Imp_Read_total [OF assms(1) refl now assms(5,2,3,6), of n nread] by blast
qed

theorem rdma_raw_roundtrip_witness:
  "\<exists>w' rd1 r' rd2. Imp_Write (fifo_lib 16 2) example_imp [1, 2, 3] (of_nat (length [1, 2, 3 :: byte]))
      (fifo_start (Suc 0)) = Inr (True, w', rd1) \<and>
    Imp_Read (fifo_lib 16 2) example_imp (Some [0, 0, 0]) 2 0 rd1 =
      Inr (True, Some (if length [1, 2, 3 :: byte] \<le> unat (2 :: int64) then mem_write 0 [1, 2, 3] [0, 0, 0] else [0, 0, 0]),
        of_nat (length [1, 2, 3 :: byte]), r', rd2) \<and>
    link_now ff_link rd2 = ([], Suc 0, 0)"
  by (rule rdma_raw_roundtrip [OF example_link _ _ example_link_now]) simp_all

text \<open>
  Reading a message through \<open>ReadLengthPrefix\<close> and \<open>ReadFromLengthPrefixed\<close> delivers it, but the
  received buffer is never given back: the sender gets no credit for it, and with every message the
  program holds one buffer more.
\<close>

theorem rdma_prefixed_read_keeps_buffer:
  assumes "easyrdma_link lib tx (im_connectedReadSession r) timeoutMs cap bufs lv"
    and "cap < 2 ^ 63" and "h < bufs" and "link_now lv rd = (frame m # q, c, h)"
    and "length (frame m) \<le> cap" and "length dst = length m"
  shows "\<exists>r' rd'. Imp_ReadLengthPrefix lib r rd = Inr (of_nat (length m), r', rd') \<and>
    Imp_ReadFromLengthPrefixed r' dst (of_nat (length m)) rd' = Inr (True, m, of_nat (length m)) \<and>
    link_now lv rd' = (q, c, Suc h)"
proof -
  obtain r' rd' where rd: "Imp_Read lib r None 0 0 rd = Inr (True, None, 0, r', rd')"
    and now: "link_now lv rd' = (q, c, Suc h)" and "holds_message m r' rd'"
    using Imp_Read_held [OF assms(1) refl assms(4,5,3)] by blast
  then obtain rg rest where buf: "im_readBuffer r' = Some rg" "rg_buffer rg \<noteq> 0"
    and mem: "rd_mem rd' (rg_buffer rg) = Some (frame m @ rest)"
    by (auto simp: holds_message_def)
  have "unat (of_nat (length m) :: int64) = length m" using assms(2,5) by simp
  then show ?thesis
    using rd now region_read_frame [OF buf mem] assms(6)
    by (simp add: Imp_ReadLengthPrefix_def Imp_ReadFromLengthPrefixed_def memcpy_from_region_def buf_write_def
        mem_write_all)
qed

theorem rdma_prefixed_read_keeps_buffer_witness:
  "\<exists>r' rd'. Imp_ReadLengthPrefix (fifo_lib 16 2) example_imp
      (fifo_start 1\<lparr>rd_lib := \<lparr>ff_link = \<lparr>lk_queued = [frame [9]], lk_credits = 1, lk_held = 0, lk_lent = {}\<rparr>, ff_next = 1\<rparr>\<rparr>) =
        Inr (of_nat (length [9 :: byte]), r', rd') \<and>
    Imp_ReadFromLengthPrefixed r' [0] (of_nat (length [9 :: byte])) rd' = Inr (True, [9], of_nat (length [9 :: byte])) \<and>
    link_now ff_link rd' = ([], 1, Suc 0)"
  by (rule rdma_prefixed_read_keeps_buffer [OF example_link])
    (simp_all add: link_now_def sizeof_int64_def)

text \<open>
  When no send buffer can be had, \<open>Write\<close> reports failure; \<open>WriteLengthPrefixed\<close> and
  \<open>BeginDirectWrite\<close> do not look at the result and use the region variable, which nothing has
  initialised yet.
\<close>

theorem rdma_acquire_failure:
  assumes "er_AcquireSendRegion lib (im_connectedWriteSession w) timeoutMs None rd = Inr (e, None, rd')"
    and "e \<noteq> er_Error_Success lib" and "im_writeBuffer w = None"
  shows "Imp_Write lib w bytes n rd = Inr (False, w, rd') \<and>
    Imp_WriteLengthPrefixed lib w bytes n rd = Inl BadAccess \<and>
    Imp_BeginDirectWrite lib w rd = Inl BadAccess"
  using assms
  by (simp add: Imp_Write_def Imp_WriteLengthPrefixed_def Imp_BeginDirectWrite_def region_write_def)

theorem rdma_acquire_failure_witness:
  "Imp_Write (fifo_lib 16 2) (example_imp\<lparr>im_connectedWriteSession := 5\<rparr>) [1] 1 (fifo_start 2) =
      Inr (False, example_imp\<lparr>im_connectedWriteSession := 5\<rparr>, fifo_start 2) \<and>
    Imp_WriteLengthPrefixed (fifo_lib 16 2) (example_imp\<lparr>im_connectedWriteSession := 5\<rparr>) [1] 1 (fifo_start 2) =
      Inl BadAccess \<and>
    Imp_BeginDirectWrite (fifo_lib 16 2) (example_imp\<lparr>im_connectedWriteSession := 5\<rparr>) (fifo_start 2) = Inl BadAccess"
  by (rule rdma_acquire_failure [where e = "- 2"])
    (simp_all add: fifo_lib_def fifo_AcquireSend_def example_imp_def Let_def)

end
