(* ===== verification/SidebandObjects.thy ===== *)
theory SidebandObjects
  imports DoubleBuffer SocketTransport RdmaTransport
begin

text \<open>
  The objects of a process and the virtual operations of \<open>SidebandData\<close>. A token is the address of
  an object; \<open>mc_objects\<close> is the heap of live objects. Calling an operation is a dispatch on the
  class of the object (\<^verbatim>\<open>src/sideband_internal.h\<close>), and the C functions of
  \<^verbatim>\<open>src/sideband_data.h\<close> are calls through a token.
\<close>

section \<open>State\<close>

datatype sideband =
  ShmSideband SharedMemorySidebandData
| DblSideband DoubleBufferedSharedMemorySidebandData
| SocketSideband SocketSidebandData
| RdmaSideband RdmaSidebandData

type_synonym token = int64

record 's machine =
  mc_objects :: "token \<rightharpoonup> sideband"
  mc_next :: token \<comment> \<open>the address of the next object\<close>
  mc_shm :: posix_shm
  mc_net :: net
  mc_rdma :: "'s rdma"

text \<open>
  \<open>new\<close> hands out addresses in ascending order, which stay unused after \<open>delete\<close>; when there are
  none left it throws. A null or dangling token is undefined behaviour.
\<close>

definition new_object :: "sideband \<Rightarrow> ('s, 'a) machine_scheme \<Rightarrow> stop + (token \<times> ('s, 'a) machine_scheme)" where
  "new_object obj mc =
     (if mc_next mc + 1 = 0 then Inl (Throws ''bad_alloc'')
      else Inr (mc_next mc, mc\<lparr>mc_objects := (mc_objects mc)(mc_next mc \<mapsto> obj), mc_next := mc_next mc + 1\<rparr>))"

definition deref :: "token \<Rightarrow> ('s, 'a) machine_scheme \<Rightarrow> stop + sideband" where
  "deref t mc =
     (if t = 0 then Inl NullPointer
      else (case mc_objects mc t of None \<Rightarrow> Inl BadAccess | Some obj \<Rightarrow> Inr obj))"

text \<open>The pointers that the direct operations and \<open>SerializeBuffer\<close> return.\<close>

datatype pointer = NullPtr | InMapping ptr | InRegion rdma_ptr | InSerializeBuffer token

definition mapping_pointer :: "ptr \<Rightarrow> pointer" where
  "mapping_pointer p = (if p = nullptr then NullPtr else InMapping p)"

definition region_pointer :: "rdma_ptr \<Rightarrow> pointer" where
  "region_pointer p = (if p = (0, 0) then NullPtr else InRegion p)"

text \<open>Running an operation of one transport inside the machine.\<close>

definition in_shm :: "('o \<Rightarrow> sideband) \<Rightarrow> (stop + ('r \<times> 'o \<times> posix_shm)) \<Rightarrow> ('s, 'a) machine_scheme \<Rightarrow>
    stop + ('r \<times> sideband \<times> ('s, 'a) machine_scheme)" where
  "in_shm C r mc = andThen r (\<lambda>(x, this, px). Inr (x, C this, mc\<lparr>mc_shm := px\<rparr>))"

definition in_net :: "SocketSidebandData \<Rightarrow> (stop + ('r \<times> net)) \<Rightarrow> ('s, 'a) machine_scheme \<Rightarrow>
    stop + ('r \<times> sideband \<times> ('s, 'a) machine_scheme)" where
  "in_net this r mc = andThen r (\<lambda>(x, net). Inr (x, SocketSideband this, mc\<lparr>mc_net := net\<rparr>))"

definition in_rdma :: "(stop + ('r \<times> RdmaSidebandData \<times> 's rdma)) \<Rightarrow> ('s, 'a) machine_scheme \<Rightarrow>
    stop + ('r \<times> sideband \<times> ('s, 'a) machine_scheme)" where
  "in_rdma r mc = andThen r (\<lambda>(x, this, rd). Inr (x, RdmaSideband this, mc\<lparr>mc_rdma := rd\<rparr>))"

text \<open>The constructors of all classes start with the one of the base class.\<close>

lemma new_base:
  "SidebandData.truncate (Shm_new id0 n) = SidebandData_new n"
  "SidebandData.truncate (Dbl_new id0 n) = SidebandData_new n"
  "SidebandData.truncate (So_new id0 n low) = SidebandData_new n"
  "SidebandData.truncate (So_new_accepted fd n low) = SidebandData_new n"
  "SidebandData.truncate (Rdma_new id0 imp) = SidebandData_new (im_bufferSize imp)"
  by (simp_all add: SidebandData.defs Shm_new_def Dbl_new_def So_new_def So_new_accepted_def Rdma_new_def
      Imp_BufferSize_def SidebandData_new_def)

section \<open>Virtual operations\<close>

definition UsageId :: "sideband \<Rightarrow> string" where
  "UsageId obj = (case obj of
     ShmSideband this \<Rightarrow> Shm_UsageId this | DblSideband this \<Rightarrow> Dbl_UsageId this
   | SocketSideband this \<Rightarrow> So_UsageId this | RdmaSideband this \<Rightarrow> Rdma_UsageId this)"

definition Sideband_delete :: "'s easyrdma \<Rightarrow> sideband \<Rightarrow> ('s, 'a) machine_scheme \<Rightarrow>
    stop + ('s, 'a) machine_scheme" where
  "Sideband_delete lib obj mc = (case obj of
     ShmSideband this \<Rightarrow> Inr (mc\<lparr>mc_shm := Shm_delete this (mc_shm mc)\<rparr>)
   | DblSideband this \<Rightarrow> Inr (mc\<lparr>mc_shm := Dbl_delete this (mc_shm mc)\<rparr>)
   | SocketSideband this \<Rightarrow> Inr (mc\<lparr>mc_net := So_delete this (mc_net mc)\<rparr>)
   | RdmaSideband this \<Rightarrow> andThen (Rdma_delete lib this (mc_rdma mc)) (\<lambda>rd. Inr (mc\<lparr>mc_rdma := rd\<rparr>)))"

definition Sideband_Write :: "'s easyrdma \<Rightarrow> sideband \<Rightarrow> byte list \<Rightarrow> int64 \<Rightarrow> ('s, 'a) machine_scheme \<Rightarrow>
    stop + (bool \<times> sideband \<times> ('s, 'a) machine_scheme)" where
  "Sideband_Write lib obj bytes n mc = (case obj of
     ShmSideband this \<Rightarrow> in_shm ShmSideband (Shm_Write this bytes n (mc_shm mc)) mc
   | DblSideband this \<Rightarrow> in_shm DblSideband (Dbl_Write this bytes n (mc_shm mc)) mc
   | SocketSideband this \<Rightarrow> in_net this (So_Write this bytes n (mc_net mc)) mc
   | RdmaSideband this \<Rightarrow> in_rdma (Rdma_Write lib this bytes n (mc_rdma mc)) mc)"

text \<open>The four results of a read are regrouped so that the object and the state come last.\<close>

definition read_result :: "(stop + (bool \<times> byte list \<times> int64 \<times> 'z)) \<Rightarrow>
    stop + ((bool \<times> byte list \<times> int64) \<times> 'z)" where
  "read_result r = andThen r (\<lambda>(ok, bytes, n, z). Inr ((ok, bytes, n), z))"

definition Sideband_Read :: "'s easyrdma \<Rightarrow> sideband \<Rightarrow> byte list \<Rightarrow> int64 \<Rightarrow> int64 \<Rightarrow>
    ('s, 'a) machine_scheme \<Rightarrow>
    stop + ((bool \<times> byte list \<times> int64) \<times> sideband \<times> ('s, 'a) machine_scheme)" where
  "Sideband_Read lib obj bytes n nread mc = (case obj of
     ShmSideband this \<Rightarrow> in_shm ShmSideband (read_result (Shm_Read this bytes n nread (mc_shm mc))) mc
   | DblSideband this \<Rightarrow> in_shm DblSideband (read_result (Dbl_Read this bytes n nread (mc_shm mc))) mc
   | SocketSideband this \<Rightarrow> in_net this (read_result (So_Read this bytes n nread (mc_net mc))) mc
   | RdmaSideband this \<Rightarrow> in_rdma (andThen (Rdma_Read lib this (Some bytes) n nread (mc_rdma mc))
       (\<lambda>(ok, dst, k, z). Inr ((ok, case dst of None \<Rightarrow> bytes | Some b \<Rightarrow> b, k), z))) mc)"

definition Sideband_WriteLengthPrefixed :: "'s easyrdma \<Rightarrow> sideband \<Rightarrow> byte list \<Rightarrow> int64 \<Rightarrow>
    ('s, 'a) machine_scheme \<Rightarrow> stop + (bool \<times> sideband \<times> ('s, 'a) machine_scheme)" where
  "Sideband_WriteLengthPrefixed lib obj bytes n mc = (case obj of
     ShmSideband this \<Rightarrow> in_shm ShmSideband (Shm_WriteLengthPrefixed this bytes n (mc_shm mc)) mc
   | DblSideband this \<Rightarrow> in_shm DblSideband (Dbl_WriteLengthPrefixed this bytes n (mc_shm mc)) mc
   | SocketSideband this \<Rightarrow> in_net this (So_WriteLengthPrefixed this bytes n (mc_net mc)) mc
   | RdmaSideband this \<Rightarrow> in_rdma (Rdma_WriteLengthPrefixed lib this bytes n (mc_rdma mc)) mc)"

definition Sideband_ReadFromLengthPrefixed :: "sideband \<Rightarrow> byte list \<Rightarrow> int64 \<Rightarrow> int64 \<Rightarrow>
    ('s, 'a) machine_scheme \<Rightarrow>
    stop + ((bool \<times> byte list \<times> int64) \<times> sideband \<times> ('s, 'a) machine_scheme)" where
  "Sideband_ReadFromLengthPrefixed obj bytes n nread mc = (case obj of
     ShmSideband this \<Rightarrow> in_shm ShmSideband (read_result (Shm_ReadFromLengthPrefixed this bytes n nread (mc_shm mc))) mc
   | DblSideband this \<Rightarrow> in_shm DblSideband (read_result (Dbl_ReadFromLengthPrefixed this bytes n nread (mc_shm mc))) mc
   | SocketSideband this \<Rightarrow> in_net this (read_result (So_ReadFromLengthPrefixed this bytes n nread (mc_net mc))) mc
   | RdmaSideband this \<Rightarrow> andThen (Rdma_ReadFromLengthPrefixed this bytes n (mc_rdma mc))
       (\<lambda>r. Inr (r, obj, mc)))"

definition Sideband_ReadLengthPrefix :: "'s easyrdma \<Rightarrow> sideband \<Rightarrow> ('s, 'a) machine_scheme \<Rightarrow>
    stop + (int64 \<times> sideband \<times> ('s, 'a) machine_scheme)" where
  "Sideband_ReadLengthPrefix lib obj mc = (case obj of
     ShmSideband this \<Rightarrow> in_shm ShmSideband (Shm_ReadLengthPrefix this (mc_shm mc)) mc
   | DblSideband this \<Rightarrow> in_shm DblSideband (Dbl_ReadLengthPrefix this (mc_shm mc)) mc
   | SocketSideband this \<Rightarrow> in_net this (So_ReadLengthPrefix this (mc_net mc)) mc
   | RdmaSideband this \<Rightarrow> in_rdma (Rdma_ReadLengthPrefix lib this (mc_rdma mc)) mc)"

text \<open>The defaults of the base class are the ones the socket transport keeps.\<close>

definition Sideband_SupportsDirectReadWrite :: "sideband \<Rightarrow> bool" where
  "Sideband_SupportsDirectReadWrite obj = (case obj of
     ShmSideband this \<Rightarrow> Shm_SupportsDirectReadWrite | DblSideband this \<Rightarrow> Dbl_SupportsDirectReadWrite
   | SocketSideband this \<Rightarrow> So_SupportsDirectReadWrite | RdmaSideband this \<Rightarrow> Imp_SupportsDirectReadWrite)"

definition Sideband_BeginDirectRead :: "'s easyrdma \<Rightarrow> sideband \<Rightarrow> int64 \<Rightarrow> ('s, 'a) machine_scheme \<Rightarrow>
    stop + (pointer \<times> sideband \<times> ('s, 'a) machine_scheme)" where
  "Sideband_BeginDirectRead lib obj n mc = (case obj of
     ShmSideband this \<Rightarrow> in_shm ShmSideband
       (case Shm_BeginDirectRead this n (mc_shm mc) of (p, z) \<Rightarrow> Inr (mapping_pointer p, z)) mc
   | DblSideband this \<Rightarrow> in_shm DblSideband
       (case Dbl_BeginDirectRead this n (mc_shm mc) of (p, z) \<Rightarrow> Inr (mapping_pointer p, z)) mc
   | SocketSideband this \<Rightarrow> Inr (NullPtr, obj, mc)
   | RdmaSideband this \<Rightarrow> in_rdma (andThen (Rdma_BeginDirectRead lib this n (mc_rdma mc))
       (\<lambda>(p, z). Inr (region_pointer p, z))) mc)"

definition Sideband_BeginDirectReadLengthPrefixed :: "'s easyrdma \<Rightarrow> sideband \<Rightarrow> int64 \<Rightarrow>
    ('s, 'a) machine_scheme \<Rightarrow> stop + ((pointer \<times> int64) \<times> sideband \<times> ('s, 'a) machine_scheme)" where
  "Sideband_BeginDirectReadLengthPrefixed lib obj n mc = (case obj of
     ShmSideband this \<Rightarrow> in_shm ShmSideband (andThen (Shm_BeginDirectReadLengthPrefixed this n (mc_shm mc))
       (\<lambda>(p, k, z). Inr ((mapping_pointer p, k), z))) mc
   | DblSideband this \<Rightarrow> in_shm DblSideband (andThen (Dbl_BeginDirectReadLengthPrefixed this n (mc_shm mc))
       (\<lambda>(p, k, z). Inr ((mapping_pointer p, k), z))) mc
   | SocketSideband this \<Rightarrow> Inr ((NullPtr, n), obj, mc)
   | RdmaSideband this \<Rightarrow> in_rdma (andThen (Rdma_BeginDirectReadLengthPrefixed lib this n (mc_rdma mc))
       (\<lambda>(p, k, z). Inr ((region_pointer p, k), z))) mc)"

definition Sideband_FinishDirectRead :: "'s easyrdma \<Rightarrow> sideband \<Rightarrow> ('s, 'a) machine_scheme \<Rightarrow>
    stop + (bool \<times> sideband \<times> ('s, 'a) machine_scheme)" where
  "Sideband_FinishDirectRead lib obj mc = (case obj of
     ShmSideband this \<Rightarrow> Inr (Shm_FinishDirectRead this, obj, mc)
   | DblSideband this \<Rightarrow> (case Dbl_FinishDirectRead this of (ok, this) \<Rightarrow> Inr (ok, DblSideband this, mc))
   | SocketSideband this \<Rightarrow> Inr (False, obj, mc)
   | RdmaSideband this \<Rightarrow> in_rdma (Rdma_FinishDirectRead lib this (mc_rdma mc)) mc)"

definition Sideband_BeginDirectWrite :: "'s easyrdma \<Rightarrow> sideband \<Rightarrow> ('s, 'a) machine_scheme \<Rightarrow>
    stop + (pointer \<times> sideband \<times> ('s, 'a) machine_scheme)" where
  "Sideband_BeginDirectWrite lib obj mc = (case obj of
     ShmSideband this \<Rightarrow> in_shm ShmSideband
       (case Shm_BeginDirectWrite this (mc_shm mc) of (p, z) \<Rightarrow> Inr (mapping_pointer p, z)) mc
   | DblSideband this \<Rightarrow> in_shm DblSideband
       (case Dbl_BeginDirectWrite this (mc_shm mc) of (p, z) \<Rightarrow> Inr (mapping_pointer p, z)) mc
   | SocketSideband this \<Rightarrow> Inr (NullPtr, obj, mc)
   | RdmaSideband this \<Rightarrow> in_rdma (andThen (Rdma_BeginDirectWrite lib this (mc_rdma mc))
       (\<lambda>(p, z). Inr (region_pointer p, z))) mc)"

definition Sideband_FinishDirectWrite :: "'s easyrdma \<Rightarrow> sideband \<Rightarrow> int64 \<Rightarrow> ('s, 'a) machine_scheme \<Rightarrow>
    stop + (bool \<times> sideband \<times> ('s, 'a) machine_scheme)" where
  "Sideband_FinishDirectWrite lib obj n mc = (case obj of
     ShmSideband this \<Rightarrow> Inr (Shm_FinishDirectWrite this n, obj, mc)
   | DblSideband this \<Rightarrow> (case Dbl_FinishDirectWrite this n of (ok, this) \<Rightarrow> Inr (ok, DblSideband this, mc))
   | SocketSideband this \<Rightarrow> Inr (False, obj, mc)
   | RdmaSideband this \<Rightarrow> in_rdma (Rdma_FinishDirectWrite lib this n (mc_rdma mc)) mc)"

text \<open>The base class's own, non-virtual operation.\<close>

definition Sideband_SerializeBuffer :: "sideband \<Rightarrow> stop + sideband" where
  "Sideband_SerializeBuffer obj = (case obj of
     ShmSideband this \<Rightarrow> andThen (SerializeBuffer this) (\<lambda>this. Inr (ShmSideband this))
   | DblSideband this \<Rightarrow> andThen (SerializeBuffer this) (\<lambda>this. Inr (DblSideband this))
   | SocketSideband this \<Rightarrow> andThen (SerializeBuffer this) (\<lambda>this. Inr (SocketSideband this))
   | RdmaSideband this \<Rightarrow> andThen (SerializeBuffer this) (\<lambda>this. Inr (RdmaSideband this)))"

section \<open>Calls through a token\<close>

definition call :: "token \<Rightarrow> (sideband \<Rightarrow> ('s, 'a) machine_scheme \<Rightarrow>
    stop + ('r \<times> sideband \<times> ('s, 'a) machine_scheme)) \<Rightarrow> ('s, 'a) machine_scheme \<Rightarrow>
    stop + ('r \<times> ('s, 'a) machine_scheme)" where
  "call t f mc =
     andThen (deref t mc) (\<lambda>obj. andThen (f obj mc) (\<lambda>(x, obj, mc).
       Inr (x, mc\<lparr>mc_objects := (mc_objects mc)(t \<mapsto> obj)\<rparr>)))"

text \<open>\<open>return result ? 0 : -1\<close>\<close>

definition status :: "(stop + (bool \<times> 'm)) \<Rightarrow> stop + (int32 \<times> 'm)" where
  "status r = andThen r (\<lambda>(ok, mc). Inr (if ok then 0 else - 1, mc))"

definition pointer_status :: "(stop + (pointer \<times> 'm)) \<Rightarrow> stop + (int32 \<times> pointer \<times> 'm)" where
  "pointer_status r = andThen r (\<lambda>(p, mc). Inr (if p \<noteq> NullPtr then 0 else - 1, p, mc))"

definition SidebandData_Write :: "'s easyrdma \<Rightarrow> token \<Rightarrow> byte list \<Rightarrow> int64 \<Rightarrow> ('s, 'a) machine_scheme \<Rightarrow>
    stop + (int32 \<times> ('s, 'a) machine_scheme)" where
  "SidebandData_Write lib t bytes n mc = status (call t (\<lambda>obj. Sideband_Write lib obj bytes n) mc)"

definition read_status :: "(stop + ((bool \<times> byte list \<times> int64) \<times> 'm)) \<Rightarrow>
    stop + (int32 \<times> byte list \<times> int64 \<times> 'm)" where
  "read_status r = andThen r (\<lambda>((ok, bytes, n), mc). Inr (if ok then 0 else - 1, bytes, n, mc))"

definition SidebandData_Read :: "'s easyrdma \<Rightarrow> token \<Rightarrow> byte list \<Rightarrow> int64 \<Rightarrow> int64 \<Rightarrow>
    ('s, 'a) machine_scheme \<Rightarrow> stop + (int32 \<times> byte list \<times> int64 \<times> ('s, 'a) machine_scheme)" where
  "SidebandData_Read lib t bytes n nread mc =
     read_status (call t (\<lambda>obj. Sideband_Read lib obj bytes n nread) mc)"

definition SidebandData_WriteLengthPrefixed :: "'s easyrdma \<Rightarrow> token \<Rightarrow> byte list \<Rightarrow> int64 \<Rightarrow>
    ('s, 'a) machine_scheme \<Rightarrow> stop + (int32 \<times> ('s, 'a) machine_scheme)" where
  "SidebandData_WriteLengthPrefixed lib t bytes n mc =
     status (call t (\<lambda>obj. Sideband_WriteLengthPrefixed lib obj bytes n) mc)"

definition SidebandData_ReadFromLengthPrefixed :: "token \<Rightarrow> byte list \<Rightarrow> int64 \<Rightarrow> int64 \<Rightarrow>
    ('s, 'a) machine_scheme \<Rightarrow> stop + (int32 \<times> byte list \<times> int64 \<times> ('s, 'a) machine_scheme)" where
  "SidebandData_ReadFromLengthPrefixed t bytes n nread mc =
     read_status (call t (\<lambda>obj. Sideband_ReadFromLengthPrefixed obj bytes n nread) mc)"

definition SidebandData_ReadLengthPrefix :: "'s easyrdma \<Rightarrow> token \<Rightarrow> ('s, 'a) machine_scheme \<Rightarrow>
    stop + (int32 \<times> int64 \<times> ('s, 'a) machine_scheme)" where
  "SidebandData_ReadLengthPrefix lib t mc =
     andThen (call t (Sideband_ReadLengthPrefix lib) mc) (\<lambda>(n, mc). Inr (0, n, mc))"

definition SidebandData_SupportsDirectReadWrite :: "token \<Rightarrow> ('s, 'a) machine_scheme \<Rightarrow> stop + int32" where
  "SidebandData_SupportsDirectReadWrite t mc =
     andThen (deref t mc) (\<lambda>obj. Inr (if Sideband_SupportsDirectReadWrite obj then 1 else 0))"

definition SidebandData_BeginDirectRead :: "'s easyrdma \<Rightarrow> token \<Rightarrow> int64 \<Rightarrow> ('s, 'a) machine_scheme \<Rightarrow>
    stop + (int32 \<times> pointer \<times> ('s, 'a) machine_scheme)" where
  "SidebandData_BeginDirectRead lib t n mc =
     pointer_status (call t (\<lambda>obj. Sideband_BeginDirectRead lib obj n) mc)"

definition SidebandData_BeginDirectReadLengthPrefixed :: "'s easyrdma \<Rightarrow> token \<Rightarrow> int64 \<Rightarrow>
    ('s, 'a) machine_scheme \<Rightarrow> stop + (int32 \<times> pointer \<times> int64 \<times> ('s, 'a) machine_scheme)" where
  "SidebandData_BeginDirectReadLengthPrefixed lib t n mc =
     andThen (call t (\<lambda>obj. Sideband_BeginDirectReadLengthPrefixed lib obj n) mc)
       (\<lambda>((p, k), mc). Inr (if p \<noteq> NullPtr then 0 else - 1, p, k, mc))"

definition SidebandData_FinishDirectRead :: "'s easyrdma \<Rightarrow> token \<Rightarrow> ('s, 'a) machine_scheme \<Rightarrow>
    stop + (int32 \<times> ('s, 'a) machine_scheme)" where
  "SidebandData_FinishDirectRead lib t mc = status (call t (Sideband_FinishDirectRead lib) mc)"

definition SidebandData_BeginDirectWrite :: "'s easyrdma \<Rightarrow> token \<Rightarrow> ('s, 'a) machine_scheme \<Rightarrow>
    stop + (int32 \<times> pointer \<times> ('s, 'a) machine_scheme)" where
  "SidebandData_BeginDirectWrite lib t mc = pointer_status (call t (Sideband_BeginDirectWrite lib) mc)"

definition SidebandData_FinishDirectWrite :: "'s easyrdma \<Rightarrow> token \<Rightarrow> int64 \<Rightarrow> ('s, 'a) machine_scheme \<Rightarrow>
    stop + (int32 \<times> ('s, 'a) machine_scheme)" where
  "SidebandData_FinishDirectWrite lib t n mc =
     status (call t (\<lambda>obj. Sideband_FinishDirectWrite lib obj n) mc)"

definition SidebandData_SerializeBuffer :: "token \<Rightarrow> ('s, 'a) machine_scheme \<Rightarrow>
    stop + (int32 \<times> pointer \<times> ('s, 'a) machine_scheme)" where
  "SidebandData_SerializeBuffer t mc =
     andThen (call t (\<lambda>obj mc. andThen (Sideband_SerializeBuffer obj) (\<lambda>obj. Inr ((), obj, mc))) mc)
       (\<lambda>(u, mc). Inr (0, InSerializeBuffer t, mc))"

section \<open>What an operation leaves alone\<close>

text \<open>
  No operation changes the usage id of its object, the heap of objects or anything outside the
  machine.
\<close>

definition keeps_frame :: "sideband \<Rightarrow> ('s, 'a) machine_scheme \<Rightarrow>
    (stop + ('r \<times> sideband \<times> ('s, 'a) machine_scheme)) \<Rightarrow> bool" where
  "keeps_frame obj mc r \<longleftrightarrow> (\<forall>x obj' mc'. r = Inr (x, obj', mc') \<longrightarrow>
     UsageId obj' = UsageId obj \<and> mc_objects mc' = mc_objects mc \<and> mc_next mc' = mc_next mc \<and>
     machine.more mc' = machine.more mc)"

named_theorems frame_intros "operations keep the frame"

lemma Shm_GetBuffer_usageId:
  "Shm_GetBuffer this px = (p, this', px') \<Longrightarrow> shm_usageId this' = shm_usageId this"
  by (auto simp: Shm_GetBuffer_def Shm_Init_def Let_def split: prod.splits if_splits)

lemma keeps_frame_in_shm:
  assumes "\<And>x this' px'. r = Inr (x, this', px') \<Longrightarrow> UsageId (C this') = UsageId obj"
  shows "keeps_frame obj mc (in_shm C r mc)"
  using assms by (auto simp: keeps_frame_def in_shm_def andThen_eq_Inr_iff)

lemma keeps_frame_in_net: "keeps_frame (SocketSideband this) mc (in_net this r mc)"
  by (auto simp: keeps_frame_def in_net_def andThen_eq_Inr_iff)

lemma keeps_frame_in_rdma:
  assumes "\<And>x this' rd'. r = Inr (x, this', rd') \<Longrightarrow> rs_id this' = rs_id this"
  shows "keeps_frame (RdmaSideband this) mc (in_rdma r mc)"
  using assms by (auto simp: keeps_frame_def in_rdma_def andThen_eq_Inr_iff UsageId_def Rdma_UsageId_def)

lemma Shm_ids:
  "Shm_Write this bytes n px = Inr (ok, this', px') \<Longrightarrow> shm_usageId this' = shm_usageId this"
  "Shm_Read this dst n nread px = Inr (ok, dst', nread', this', px') \<Longrightarrow> shm_usageId this' = shm_usageId this"
  "Shm_WriteLengthPrefixed this bytes n px = Inr (ok, this', px') \<Longrightarrow> shm_usageId this' = shm_usageId this"
  "Shm_ReadFromLengthPrefixed this dst n nread px = Inr (ok, dst', nread', this', px') \<Longrightarrow>
    shm_usageId this' = shm_usageId this"
  "Shm_ReadLengthPrefix this px = Inr (k, this', px') \<Longrightarrow> shm_usageId this' = shm_usageId this"
  "Shm_BeginDirectReadLengthPrefixed this n px = Inr (p, k, this', px') \<Longrightarrow> shm_usageId this' = shm_usageId this"
  by (auto simp: Shm_Write_def Shm_Read_def Shm_WriteLengthPrefixed_def Shm_ReadFromLengthPrefixed_def
      Shm_ReadLengthPrefix_def Shm_BeginDirectReadLengthPrefixed_def andThen_eq_Inr_iff Let_def
      dest: Shm_GetBuffer_usageId split: prod.splits if_splits)

lemma db_id_set_cur [simp]: "db_id (Dbl_set_cur b this) = db_id this"
  by (simp add: Dbl_set_cur_def) (cases "db_current this", simp_all)

lemma db_id_swap [simp]: "db_id (Dbl_swap this) = db_id this"
  by (simp add: Dbl_swap_def)

lemma Dbl_ids:
  "Dbl_Write this' bytes n px = Inr (ok, d', px') \<Longrightarrow> db_id d' = db_id this'"
  "Dbl_Read this' dst n nread px = Inr (ok, dst', nread', d', px') \<Longrightarrow> db_id d' = db_id this'"
  "Dbl_WriteLengthPrefixed this' bytes n px = Inr (ok, d', px') \<Longrightarrow> db_id d' = db_id this'"
  "Dbl_ReadFromLengthPrefixed this' dst n nread px = Inr (ok, dst', nread', d', px') \<Longrightarrow> db_id d' = db_id this'"
  "Dbl_ReadLengthPrefix this' px = Inr (k, d', px') \<Longrightarrow> db_id d' = db_id this'"
  "Dbl_BeginDirectReadLengthPrefixed this' n px = Inr (p, k, d', px') \<Longrightarrow> db_id d' = db_id this'"
  by (auto simp: Dbl_Write_def Dbl_Read_def Dbl_WriteLengthPrefixed_def Dbl_ReadFromLengthPrefixed_def
      Dbl_ReadLengthPrefix_def Dbl_BeginDirectReadLengthPrefixed_def andThen_eq_Inr_iff Let_def
      split: if_splits)

lemma Rdma_lift_id: "Rdma_lift this r = Inr (x, this', rd') \<Longrightarrow> rs_id this' = rs_id this"
  by (auto simp: Rdma_lift_def andThen_eq_Inr_iff)

lemmas id_defs = UsageId_def Shm_UsageId_def Dbl_UsageId_def

lemma keeps_frame_Write [frame_intros]: "keeps_frame obj mc (Sideband_Write lib obj bytes n mc)"
  by (cases obj) (auto simp: Sideband_Write_def Rdma_Write_def id_defs
      intro!: keeps_frame_in_shm keeps_frame_in_net keeps_frame_in_rdma dest: Shm_ids Dbl_ids Rdma_lift_id)

lemma keeps_frame_Read [frame_intros]: "keeps_frame obj mc (Sideband_Read lib obj bytes n nread mc)"
  by (cases obj) (auto simp: Sideband_Read_def Rdma_Read_def id_defs read_result_def andThen_eq_Inr_iff
      intro!: keeps_frame_in_shm keeps_frame_in_net keeps_frame_in_rdma dest: Shm_ids Dbl_ids)

lemma keeps_frame_WriteLengthPrefixed [frame_intros]:
  "keeps_frame obj mc (Sideband_WriteLengthPrefixed lib obj bytes n mc)"
  by (cases obj) (auto simp: Sideband_WriteLengthPrefixed_def Rdma_WriteLengthPrefixed_def id_defs
      intro!: keeps_frame_in_shm keeps_frame_in_net keeps_frame_in_rdma dest: Shm_ids Dbl_ids Rdma_lift_id)

lemma keeps_frame_ReadFromLengthPrefixed [frame_intros]:
  "keeps_frame obj mc (Sideband_ReadFromLengthPrefixed obj bytes n nread mc)"
proof (cases obj)
  case (RdmaSideband this)
  then show ?thesis by (auto simp: Sideband_ReadFromLengthPrefixed_def keeps_frame_def andThen_eq_Inr_iff)
qed (auto simp: Sideband_ReadFromLengthPrefixed_def id_defs read_result_def andThen_eq_Inr_iff
      intro!: keeps_frame_in_shm keeps_frame_in_net dest: Shm_ids Dbl_ids)

lemma keeps_frame_ReadLengthPrefix [frame_intros]: "keeps_frame obj mc (Sideband_ReadLengthPrefix lib obj mc)"
  by (cases obj) (auto simp: Sideband_ReadLengthPrefix_def Rdma_ReadLengthPrefix_def id_defs
      intro!: keeps_frame_in_shm keeps_frame_in_net keeps_frame_in_rdma dest: Shm_ids Dbl_ids Rdma_lift_id)

lemma keeps_frame_Inr [simp]: "keeps_frame obj mc (Inr (x, obj, mc))"
  by (simp add: keeps_frame_def)

lemma keeps_frame_BeginDirectRead [frame_intros]: "keeps_frame obj mc (Sideband_BeginDirectRead lib obj n mc)"
  by (cases obj) (auto simp: Sideband_BeginDirectRead_def Rdma_BeginDirectRead_def Shm_BeginDirectRead_def
      Dbl_BeginDirectRead_def id_defs andThen_eq_Inr_iff intro!: keeps_frame_in_shm keeps_frame_in_rdma
      dest: Shm_GetBuffer_usageId Rdma_lift_id split: prod.splits)

lemma keeps_frame_BeginDirectReadLengthPrefixed [frame_intros]:
  "keeps_frame obj mc (Sideband_BeginDirectReadLengthPrefixed lib obj n mc)"
  by (cases obj) (auto simp: Sideband_BeginDirectReadLengthPrefixed_def Rdma_BeginDirectReadLengthPrefixed_def
      id_defs andThen_eq_Inr_iff intro!: keeps_frame_in_shm keeps_frame_in_rdma dest: Shm_ids Dbl_ids)

lemma keeps_frame_FinishDirectRead [frame_intros]: "keeps_frame obj mc (Sideband_FinishDirectRead lib obj mc)"
proof (cases obj)
  case (RdmaSideband this)
  then show ?thesis by (auto simp: Sideband_FinishDirectRead_def Rdma_FinishDirectRead_def
      intro!: keeps_frame_in_rdma dest: Rdma_lift_id)
qed (auto simp: Sideband_FinishDirectRead_def Dbl_FinishDirectRead_def keeps_frame_def id_defs)

lemma keeps_frame_FinishDirectWrite [frame_intros]:
  "keeps_frame obj mc (Sideband_FinishDirectWrite lib obj n mc)"
proof (cases obj)
  case (RdmaSideband this)
  then show ?thesis by (auto simp: Sideband_FinishDirectWrite_def Rdma_FinishDirectWrite_def
      intro!: keeps_frame_in_rdma dest: Rdma_lift_id)
qed (auto simp: Sideband_FinishDirectWrite_def Dbl_FinishDirectWrite_def keeps_frame_def id_defs)

lemma keeps_frame_SerializeBuffer [frame_intros]:
  "keeps_frame obj mc (andThen (Sideband_SerializeBuffer obj) (\<lambda>obj. Inr ((), obj, mc)))"
  by (cases obj) (auto simp: keeps_frame_def Sideband_SerializeBuffer_def SerializeBuffer_def id_defs
      So_UsageId_def Rdma_UsageId_def andThen_eq_Inr_iff split: if_splits)

lemma keeps_frame_BeginDirectWrite [frame_intros]: "keeps_frame obj mc (Sideband_BeginDirectWrite lib obj mc)"
  by (cases obj) (auto simp: Sideband_BeginDirectWrite_def Rdma_BeginDirectWrite_def Shm_BeginDirectWrite_def
      Dbl_BeginDirectWrite_def id_defs andThen_eq_Inr_iff intro!: keeps_frame_in_shm keeps_frame_in_rdma
      dest: Shm_GetBuffer_usageId Rdma_lift_id split: prod.splits)

text \<open>Hence a call through a token changes no more than the object behind it, and not its usage id.\<close>

definition same_objects :: "('s, 'a) machine_scheme \<Rightarrow> ('s, 'a) machine_scheme \<Rightarrow> bool" where
  "same_objects mc mc' \<longleftrightarrow>
     (\<forall>t. map_option UsageId (mc_objects mc' t) = map_option UsageId (mc_objects mc t)) \<and>
     mc_next mc' = mc_next mc \<and> machine.more mc' = machine.more mc"

lemma same_objects_trans: "same_objects a b \<Longrightarrow> same_objects b c \<Longrightarrow> same_objects a c"
  by (auto simp: same_objects_def)

lemma call_same_objects:
  assumes "call t f mc = Inr (x, mc')" and "\<And>obj. keeps_frame obj mc (f obj mc)"
  shows "same_objects mc mc'"
proof -
  obtain obj obj' mc1 where obj: "mc_objects mc t = Some obj" and f: "f obj mc = Inr (x, obj', mc1)"
    and mc': "mc' = mc1\<lparr>mc_objects := (mc_objects mc1)(t \<mapsto> obj')\<rparr>"
    using assms(1) by (auto simp: call_def deref_def andThen_eq_Inr_iff split: if_splits option.splits)
  have "UsageId obj' = UsageId obj" "mc_objects mc1 = mc_objects mc" "mc_next mc1 = mc_next mc"
    "machine.more mc1 = machine.more mc"
    using assms(2) [of obj] f by (auto simp: keeps_frame_def)
  then show ?thesis using obj mc' by (auto simp: same_objects_def)
qed

lemma status_call: "status (call t f mc) = Inr (k, mc') \<Longrightarrow> \<exists>x. call t f mc = Inr (x, mc')"
  by (auto simp: status_def andThen_eq_Inr_iff)

lemma read_status_call: "read_status (call t f mc) = Inr (k, bytes, n, mc') \<Longrightarrow> \<exists>x. call t f mc = Inr (x, mc')"
  by (auto simp: read_status_def andThen_eq_Inr_iff)

lemma pointer_status_call: "pointer_status (call t f mc) = Inr (k, p, mc') \<Longrightarrow> \<exists>x. call t f mc = Inr (x, mc')"
  by (auto simp: pointer_status_def andThen_eq_Inr_iff)

lemmas call_frame = call_same_objects frame_intros

lemma data_calls_same_objects:
  "SidebandData_Write lib t bytes n mc = Inr (k, mc') \<Longrightarrow> same_objects mc mc'"
  "SidebandData_Read lib t bytes n nread mc = Inr (k, dst, nread', mc') \<Longrightarrow> same_objects mc mc'"
  "SidebandData_WriteLengthPrefixed lib t bytes n mc = Inr (k, mc') \<Longrightarrow> same_objects mc mc'"
  "SidebandData_ReadFromLengthPrefixed t bytes n nread mc = Inr (k, dst, nread', mc') \<Longrightarrow> same_objects mc mc'"
  "SidebandData_ReadLengthPrefix lib t mc = Inr (k, len, mc') \<Longrightarrow> same_objects mc mc'"
  "SidebandData_BeginDirectRead lib t n mc = Inr (k, p, mc') \<Longrightarrow> same_objects mc mc'"
  "SidebandData_BeginDirectReadLengthPrefixed lib t n mc = Inr (k, p, len, mc') \<Longrightarrow> same_objects mc mc'"
  "SidebandData_FinishDirectRead lib t mc = Inr (k, mc') \<Longrightarrow> same_objects mc mc'"
  "SidebandData_BeginDirectWrite lib t mc = Inr (k, p, mc') \<Longrightarrow> same_objects mc mc'"
  "SidebandData_FinishDirectWrite lib t n mc = Inr (k, mc') \<Longrightarrow> same_objects mc mc'"
  "SidebandData_SerializeBuffer t mc = Inr (k, p, mc') \<Longrightarrow> same_objects mc mc'"
  by (auto simp: SidebandData_Write_def SidebandData_Read_def SidebandData_WriteLengthPrefixed_def
      SidebandData_ReadFromLengthPrefixed_def SidebandData_ReadLengthPrefix_def SidebandData_BeginDirectRead_def
      SidebandData_BeginDirectReadLengthPrefixed_def SidebandData_FinishDirectRead_def
      SidebandData_BeginDirectWrite_def SidebandData_FinishDirectWrite_def SidebandData_SerializeBuffer_def
      andThen_eq_Inr_iff dest!: status_call read_status_call pointer_status_call intro: call_frame)

text \<open>One call through a token that returns, with any arguments and results.\<close>

inductive data_call :: "'s easyrdma \<Rightarrow> token \<Rightarrow> ('s, 'a) machine_scheme \<Rightarrow> ('s, 'a) machine_scheme \<Rightarrow> bool" for lib t where
  "SidebandData_Write lib t bytes n mc = Inr (k, mc') \<Longrightarrow> data_call lib t mc mc'"
| "SidebandData_Read lib t bytes n nread mc = Inr (k, dst, nread', mc') \<Longrightarrow> data_call lib t mc mc'"
| "SidebandData_WriteLengthPrefixed lib t bytes n mc = Inr (k, mc') \<Longrightarrow> data_call lib t mc mc'"
| "SidebandData_ReadFromLengthPrefixed t bytes n nread mc = Inr (k, dst, nread', mc') \<Longrightarrow> data_call lib t mc mc'"
| "SidebandData_ReadLengthPrefix lib t mc = Inr (k, len, mc') \<Longrightarrow> data_call lib t mc mc'"
| "SidebandData_BeginDirectRead lib t n mc = Inr (k, p, mc') \<Longrightarrow> data_call lib t mc mc'"
| "SidebandData_BeginDirectReadLengthPrefixed lib t n mc = Inr (k, p, len, mc') \<Longrightarrow> data_call lib t mc mc'"
| "SidebandData_FinishDirectRead lib t mc = Inr (k, mc') \<Longrightarrow> data_call lib t mc mc'"
| "SidebandData_BeginDirectWrite lib t mc = Inr (k, p, mc') \<Longrightarrow> data_call lib t mc mc'"
| "SidebandData_FinishDirectWrite lib t n mc = Inr (k, mc') \<Longrightarrow> data_call lib t mc mc'"
| "SidebandData_SerializeBuffer t mc = Inr (k, p, mc') \<Longrightarrow> data_call lib t mc mc'"

inductive_cases data_callE: "data_call lib t mc mc'"

lemma data_call_same_objects: "data_call lib t mc mc' \<Longrightarrow> same_objects mc mc'"
  by (erule data_callE) (erule data_calls_same_objects)+

end
