(* ===== verification/Addresses.thy ===== *)
theory Addresses
  imports ConnectionId SidebandBase
begin

text \<open>
  Where a client connects to: the address the server reports (\<open>GetConnectionAddress\<close> of
  \<^verbatim>\<open>src/sideband_data.cc\<close>, \<open>GetSocketsAddress\<close>, \<open>GetSocketsPort\<close> and
  \<open>SplitUrlString\<close> of \<^verbatim>\<open>src/sideband_sockets.cc\<close>, \<open>GetRdmaAddress\<close> of
  \<^verbatim>\<open>src/sideband_rdma.cc\<close>). The parameter \<open>ifs\<close> is the list of addresses that
  \<open>easyrdma_Enumerate\<close> reports for this machine.
\<close>

section \<open>Definitions\<close>

text \<open>The statics \<open>s_SidebandSocketsAddress\<close> and \<open>s_SidebandSocketsPort\<close>.\<close>

record socket_config =
  sc_address :: string
  sc_port :: int

text \<open>
  The loop of \<open>std::getline\<close> with \<open>':'\<close>: a line ends at the delimiter, which is consumed, or at the end
  of the input; an empty rest gives no further line.
\<close>

function SplitUrlString :: "string \<Rightarrow> string list" where
  "SplitUrlString s =
     (if s = [] then []
      else takeWhile (\<lambda>c. c \<noteq> CHR '':'') s # SplitUrlString (tl (dropWhile (\<lambda>c. c \<noteq> CHR '':'') s)))"
  by pat_completeness auto
termination
proof (relation "measure length", goal_cases)
  case (2 s)
  then show ?case
    using length_dropWhile_le [of "\<lambda>c. c \<noteq> CHR '':''" s] by (cases s) auto
qed simp

declare SplitUrlString.simps [simp del]

definition GetRdmaAddress :: "string list \<Rightarrow> stop + string" where
  "GetRdmaAddress ifs =
     (if length ifs = 0 then Inr ''''
      else if length ifs \<noteq> 1 then Inl AssertionFailed
      else Inr (hd ifs))"

definition GetSocketsAddress :: "socket_config \<Rightarrow> string list \<Rightarrow> stop + string" where
  "GetSocketsAddress cfg ifs =
     (if 0 < length (sc_address cfg) then Inr (sc_address cfg)
      else andThen (GetRdmaAddress ifs) (\<lambda>rdmaAddress.
        if 0 < length rdmaAddress then Inr rdmaAddress else Inr ''localhost''))"

definition GetSocketsPort :: "socket_config \<Rightarrow> string" where
  "GetSocketsPort cfg = (if 0 < sc_port cfg then show_int (sc_port cfg) else ''50055'')"

text \<open>
  The block that was meant as the \<open>else\<close> branch of the RDMA test has no \<open>else\<close>: it runs always and
  overwrites the address.
\<close>

definition GetConnectionAddress ::
  "socket_config \<Rightarrow> string list \<Rightarrow> SidebandStrategy \<Rightarrow> stop + string" where
  "GetConnectionAddress cfg ifs strategy =
     andThen
       (if strategy = RDMA \<or> strategy = RDMA_LOW_LATENCY
        then andThen (GetRdmaAddress ifs) (\<lambda>a. Inr (a @ '':50060'')) else Inr '''')
       (\<lambda>address. andThen (GetSocketsAddress cfg ifs) (\<lambda>a.
          Inr (a @ '':'' @ GetSocketsPort cfg)))"

text \<open>
  \<open>sprintf(address, url)\<close> with the URL as the format: \<open>%%\<close> prints a percent sign, any other
  conversion reads an argument that was not passed. The caller's array has 1024 bytes.
\<close>

fun sprintf_no_args :: "string \<Rightarrow> stop + string" where
  "sprintf_no_args [] = Inr []"
| "sprintf_no_args [c] = (if c = CHR ''%'' then Inl BadAccess else Inr [c])"
| "sprintf_no_args (c # d # s) =
     (if c = CHR ''%'' then
        if d = CHR ''%'' then andThen (sprintf_no_args s) (\<lambda>r. Inr (CHR ''%'' # r)) else Inl BadAccess
      else andThen (sprintf_no_args (d # s)) (\<lambda>r. Inr (c # r)))"

definition GetSidebandConnectionAddress ::
  "socket_config \<Rightarrow> string list \<Rightarrow> SidebandStrategy \<Rightarrow> stop + (int \<times> string)" where
  "GetSidebandConnectionAddress cfg ifs strategy =
     andThen (GetConnectionAddress cfg ifs strategy) (\<lambda>url.
     andThen (sprintf_no_args url) (\<lambda>address.
       if 1024 < length address + 1 then Inl BadAccess else Inr (0, address)))"

section \<open>Splitting\<close>

lemma SplitUrlString_Nil [simp]: "SplitUrlString [] = []"
  by (simp add: SplitUrlString.simps)

lemma SplitUrlString_last:
  "CHR '':'' \<notin> set t \<Longrightarrow> t \<noteq> [] \<Longrightarrow> SplitUrlString t = [t]"
proof -
  assume t: "CHR '':'' \<notin> set t" "t \<noteq> []"
  then have tw: "takeWhile (\<lambda>c. c \<noteq> CHR '':'') t = t" by (auto simp: takeWhile_eq_all_conv)
  have dw: "dropWhile (\<lambda>c. c \<noteq> CHR '':'') t = []" using t by (auto simp: dropWhile_eq_Nil_conv)
  show ?thesis
    by (subst SplitUrlString.simps) (simp only: tw dw t(2) list.sel SplitUrlString_Nil if_False)
qed

lemma SplitUrlString_token:
  assumes "CHR '':'' \<notin> set t"
  shows "SplitUrlString (t @ CHR '':'' # rest) = t # SplitUrlString rest"
proof -
  have "takeWhile (\<lambda>c. c \<noteq> CHR '':'') (t @ CHR '':'' # rest) = t"
    and "dropWhile (\<lambda>c. c \<noteq> CHR '':'') (t @ CHR '':'' # rest) = CHR '':'' # rest"
    using assms by (auto simp: takeWhile_append dropWhile_append)
  then show ?thesis by (subst SplitUrlString.simps) simp
qed

lemma SplitUrlString_no_colon: "\<forall>t \<in> set (SplitUrlString s). CHR '':'' \<notin> set t"
proof (induction s rule: SplitUrlString.induct)
  case (1 s)
  show ?case
  proof (cases "s = []")
    case False
    have "CHR '':'' \<notin> set (takeWhile (\<lambda>c. c \<noteq> CHR '':'') s)" using set_takeWhileD by fastforce
    with False "1.IH" show ?thesis by (subst SplitUrlString.simps) simp
  qed simp
qed

lemma show_int_chars: "0 \<le> i \<Longrightarrow> c \<in> set (show_int i) \<Longrightarrow> is_digit c"
  using show_nat_digits by (auto simp: show_int_def)

lemma show_int_nonempty [simp]: "show_int i \<noteq> []"
  by (simp add: show_int_def)

lemma GetRdmaAddress_ok: "length ifs \<le> 1 \<Longrightarrow> \<exists>r. GetRdmaAddress ifs = Inr r"
  by (cases ifs) (auto simp: GetRdmaAddress_def)

section \<open>Properties of the address\<close>

text \<open>The port a client is sent to.\<close>

definition sockets_port :: "socket_config \<Rightarrow> int" where
  "sockets_port cfg = (if 0 < sc_port cfg then sc_port cfg else 50055)"

lemma GetSocketsPort_parses:
  assumes "sc_port cfg < 2 ^ 31"
  shows "stoi (GetSocketsPort cfg) = Inr (sockets_port cfg)"
    and "CHR '':'' \<notin> set (GetSocketsPort cfg)" and "GetSocketsPort cfg \<noteq> []"
proof -
  have "''50055'' = show_int 50055"
    by (simp add: show_int_def show_nat.simps digit_def char_of_def bit_0)
  then have port: "GetSocketsPort cfg = show_int (sockets_port cfg)"
    by (simp add: GetSocketsPort_def sockets_port_def)
  have range: "- (2 ^ 31) \<le> sockets_port cfg" "sockets_port cfg < 2 ^ 31"
    using assms by (simp_all add: sockets_port_def)
  show "stoi (GetSocketsPort cfg) = Inr (sockets_port cfg)"
    unfolding port by (rule stoi_show_int [OF range])
  have "\<forall>c \<in> set (show_int (sockets_port cfg)). is_digit c"
    using show_int_chars [of "sockets_port cfg"] by (auto simp: sockets_port_def)
  then show "CHR '':'' \<notin> set (GetSocketsPort cfg)" unfolding port using not_digit(3) by blast
  show "GetSocketsPort cfg \<noteq> []" by (simp add: port)
qed

text \<open>The URL a server reports is taken apart into its address and this port.\<close>

lemma GetConnectionAddress_splits:
  assumes "GetSocketsAddress cfg ifs = Inr a" and "CHR '':'' \<notin> set a"
    and "sc_port cfg < 2 ^ 31" and "GetRdmaAddress ifs = Inr r \<or> strategy \<notin> {RDMA, RDMA_LOW_LATENCY}"
  shows "\<exists>url port. GetConnectionAddress cfg ifs strategy = Inr url \<and>
    SplitUrlString url = [a, port] \<and> stoi port = Inr (sockets_port cfg)"
proof -
  have "GetConnectionAddress cfg ifs strategy = Inr (a @ '':'' @ GetSocketsPort cfg)"
    using assms(1,4) by (auto simp: GetConnectionAddress_def)
  moreover have "SplitUrlString (a @ '':'' @ GetSocketsPort cfg) = [a, GetSocketsPort cfg]"
    using assms(2) GetSocketsPort_parses(2,3) [OF assms(3)]
    by (simp add: SplitUrlString_token SplitUrlString_last)
  ultimately show ?thesis using GetSocketsPort_parses(1) [OF assms(3)] by blast
qed

text \<open>
  The strategy makes no difference to the reported address: an RDMA client is sent to the
  sockets port, not to the RDMA port 50060 that the first branch computes.
\<close>

theorem connection_address_ignores_strategy:
  assumes "length ifs \<le> 1"
  shows "GetConnectionAddress cfg ifs strategy = GetConnectionAddress cfg ifs SOCKETS"
  using GetRdmaAddress_ok [OF assms] by (auto simp: GetConnectionAddress_def)

theorem connection_address_ignores_strategy_witness:
  "GetConnectionAddress \<lparr>sc_address = '''', sc_port = 0\<rparr> [''10.0.0.7''] RDMA =
    GetConnectionAddress \<lparr>sc_address = '''', sc_port = 0\<rparr> [''10.0.0.7''] SOCKETS"
  by (rule connection_address_ignores_strategy) simp

end
