(* ===== verification/Semaphores.thy ===== *)
theory Semaphores
  imports SidebandPrelude
begin

text \<open>
  The class \<open>Semaphore\<close> (\<^verbatim>\<open>src/sideband_semaphore.h\<close>): a count, a mutex and a condition variable.
  \<open>Semaphore_notify\<close> and \<open>Semaphore_wait\<close> are the operations as one step each, which is how the rest of
  the development uses them; \<open>sem_run\<close> is the class with any number of threads, one step per
  statement. The properties relate the two: the threads only ever see the atomic operations, and none
  of them is left asleep while the count allows it to pass.
\<close>

section \<open>The operations as one step\<close>

definition Semaphore_initial :: int32 where
  "Semaphore_initial = 1"

definition Semaphore_notify :: "int32 \<Rightarrow> int32" where
  "Semaphore_notify count = count + 1"

text \<open>\<^term>\<open>Inl Blocks\<close> is a call that does not return before another thread acts.\<close>

definition Semaphore_wait :: "int32 \<Rightarrow> stop + int32" where
  "Semaphore_wait count = (if count = 0 then Inl Blocks else Inr (count - 1))"

section \<open>Threads\<close>

text \<open>
  The statement a thread is about to execute. \<open>Asleep\<close> is inside \<open>cv.wait\<close>; a thread that has been
  woken has to lock the mutex again before \<open>cv.wait\<close> returns.
\<close>

datatype pc = Away
  | NotifyLock | NotifyCount | NotifySignal | NotifyUnlock
  | WaitLock | WaitTest | Asleep | Woken | WaitCount | WaitUnlock

record 't semaphore =
  sem_mtx :: "'t option"
  sem_count :: int32
  sem_pc :: "'t \<Rightarrow> pc"

definition Semaphore_new :: "'t semaphore" where
  "Semaphore_new = \<lparr>sem_mtx = None, sem_count = Semaphore_initial, sem_pc = (\<lambda>t. Away)\<rparr>"

definition at_pc :: "'t \<Rightarrow> pc \<Rightarrow> 't semaphore \<Rightarrow> 't semaphore" where
  "at_pc t p s = s\<lparr>sem_pc := (sem_pc s)(t := p)\<rparr>"

datatype 't sem_event = Notified 't | Passed 't

text \<open>
  The moves of a thread inside \<open>notify\<close> or \<open>wait\<close>, with what they do to the count. \<open>notify_one\<close>
  wakes any one of the sleeping threads, if there is one.
\<close>

inductive sem_move :: "'t semaphore \<Rightarrow> 't sem_event list \<Rightarrow> 't semaphore \<Rightarrow> bool" where
  notify_lock: "sem_pc s t = NotifyLock \<Longrightarrow> sem_mtx s = None \<Longrightarrow>
    sem_move s [] (at_pc t NotifyCount (s\<lparr>sem_mtx := Some t\<rparr>))"
| notify_count: "sem_pc s t = NotifyCount \<Longrightarrow>
    sem_move s [Notified t] (at_pc t NotifySignal (s\<lparr>sem_count := sem_count s + 1\<rparr>))"
| notify_one: "sem_pc s t = NotifySignal \<Longrightarrow> sem_pc s u = Asleep \<Longrightarrow>
    sem_move s [] (at_pc t NotifyUnlock (at_pc u Woken s))"
| notify_none: "sem_pc s t = NotifySignal \<Longrightarrow> Asleep \<notin> range (sem_pc s) \<Longrightarrow>
    sem_move s [] (at_pc t NotifyUnlock s)"
| notify_unlock: "sem_pc s t = NotifyUnlock \<Longrightarrow> sem_move s [] (at_pc t Away (s\<lparr>sem_mtx := None\<rparr>))"
| wait_lock: "sem_pc s t = WaitLock \<Longrightarrow> sem_mtx s = None \<Longrightarrow>
    sem_move s [] (at_pc t WaitTest (s\<lparr>sem_mtx := Some t\<rparr>))"
| wait_sleep: "sem_pc s t = WaitTest \<Longrightarrow> sem_count s = 0 \<Longrightarrow>
    sem_move s [] (at_pc t Asleep (s\<lparr>sem_mtx := None\<rparr>))"
| wait_relock: "sem_pc s t = Woken \<Longrightarrow> sem_mtx s = None \<Longrightarrow>
    sem_move s [] (at_pc t WaitTest (s\<lparr>sem_mtx := Some t\<rparr>))"
| wait_go: "sem_pc s t = WaitTest \<Longrightarrow> sem_count s \<noteq> 0 \<Longrightarrow> sem_move s [] (at_pc t WaitCount s)"
| wait_count: "sem_pc s t = WaitCount \<Longrightarrow>
    sem_move s [Passed t] (at_pc t WaitUnlock (s\<lparr>sem_count := sem_count s - 1\<rparr>))"
| wait_unlock: "sem_pc s t = WaitUnlock \<Longrightarrow> sem_move s [] (at_pc t Away (s\<lparr>sem_mtx := None\<rparr>))"

text \<open>
  A run of the program: moves, new calls, and wake-ups for no reason, which \<open>cv.wait\<close> is allowed.
\<close>

inductive sem_run :: "'t semaphore \<Rightarrow> 't sem_event list \<Rightarrow> bool" where
  sem_start: "sem_run Semaphore_new []"
| sem_call: "sem_run s es \<Longrightarrow> sem_pc s t = Away \<Longrightarrow> p = NotifyLock \<or> p = WaitLock \<Longrightarrow> sem_run (at_pc t p s) es"
| sem_spurious: "sem_run s es \<Longrightarrow> sem_pc s t = Asleep \<Longrightarrow> sem_run (at_pc t Woken s) es"
| sem_moved: "sem_run s es \<Longrightarrow> sem_move s e s' \<Longrightarrow> sem_run s' (es @ e)"

text \<open>The atomic operations in the order of the events.\<close>

fun sem_atomic :: "'t sem_event list \<Rightarrow> int32 \<Rightarrow> stop + int32" where
  "sem_atomic [] c = Inr c"
| "sem_atomic (Notified t # es) c = sem_atomic es (Semaphore_notify c)"
| "sem_atomic (Passed t # es) c = andThen (Semaphore_wait c) (sem_atomic es)"

lemma sem_atomic_append: "sem_atomic (es @ es') c = andThen (sem_atomic es c) (sem_atomic es')"
  by (induction es c rule: sem_atomic.induct) (auto simp: Semaphore_wait_def)

section \<open>The invariant\<close>

text \<open>Sums over the threads in the semaphore.\<close>

definition in_use :: "('t \<Rightarrow> pc) \<Rightarrow> 't set" where
  "in_use f = {t. f t \<noteq> Away}"

definition total :: "(pc \<Rightarrow> nat) \<Rightarrow> ('t \<Rightarrow> pc) \<Rightarrow> nat" where
  "total w f = (\<Sum>t\<in>in_use f. w (f t))"

lemma in_use_upd: "finite (in_use f) \<Longrightarrow> finite (in_use (f(t := p)))"
  by (rule finite_subset [of _ "insert t (in_use f)"]) (auto simp: in_use_def)

lemma total_upd:
  assumes fin: "finite (in_use f)" and zero: "w Away = 0"
  shows "total w (f(t := p)) + w (f t) = total w f + w p"
proof -
  have over: "total w g = (\<Sum>u\<in>insert t (in_use f). w (g u))" if "in_use g \<subseteq> insert t (in_use f)" for g
    unfolding total_def using that fin zero by (intro sum.mono_neutral_left) (auto simp: in_use_def)
  have split: "(\<Sum>u\<in>insert t (in_use f). w (g u)) = w (g t) + (\<Sum>u\<in>in_use f - {t}. w (g u))" for g
    using fin by (rule sum.insert_remove)
  have "in_use (f(t := p)) \<subseteq> insert t (in_use f)" by (auto simp: in_use_def)
  from over [OF this] have "total w (f(t := p)) = w p + (\<Sum>u\<in>in_use f - {t}. w (f u))"
    unfolding split by (simp cong: sum.cong_simp)
  moreover have "total w f = w (f t) + (\<Sum>u\<in>in_use f - {t}. w (f u))"
    using over [of f] by (auto simp: split)
  ultimately show ?thesis by simp
qed

fun holds_mtx :: "pc \<Rightarrow> bool" where
  "holds_mtx NotifyCount = True" | "holds_mtx NotifySignal = True" | "holds_mtx NotifyUnlock = True"
| "holds_mtx WaitTest = True" | "holds_mtx WaitCount = True" | "holds_mtx WaitUnlock = True"
| "holds_mtx _ = False"

text \<open>A thread that will test the count before it sleeps, or wake one that does.\<close>

fun coming :: "pc \<Rightarrow> nat" where
  "coming Woken = 1" | "coming WaitTest = 1" | "coming WaitCount = 1" | "coming NotifySignal = 1"
| "coming _ = 0"

lemma count_word:
  "unat (c + 1 :: int32) \<le> Suc (unat c)" "c \<noteq> 0 \<Longrightarrow> Suc (unat (c - 1 :: int32)) = unat c"
  by (simp add: unat_word_ariths) (simp add: unat_minus_one unat_gt_0)

definition mutex_ok :: "'t semaphore \<Rightarrow> bool" where
  "mutex_ok s \<longleftrightarrow> (\<forall>t. holds_mtx (sem_pc s t) \<longleftrightarrow> sem_mtx s = Some t)"

lemma mutex_okD: "mutex_ok s \<Longrightarrow> holds_mtx (sem_pc s t) \<Longrightarrow> sem_mtx s = Some t"
  by (simp add: mutex_ok_def)

lemma mutex_ok_move: "sem_move s e s' \<Longrightarrow> mutex_ok s \<Longrightarrow> mutex_ok s'"
  by (induction rule: sem_move.induct) (fastforce simp: mutex_ok_def at_pc_def split: if_splits)+

text \<open>A thread that has tested the count still finds it non-zero, since it holds the mutex.\<close>

definition count_ok :: "'t semaphore \<Rightarrow> bool" where
  "count_ok s \<longleftrightarrow> (\<forall>t. sem_pc s t = WaitCount \<longrightarrow> sem_count s \<noteq> 0)"

lemma mutex_ok_same: "mutex_ok s \<Longrightarrow> holds_mtx (sem_pc s t) \<Longrightarrow> holds_mtx (sem_pc s u) \<Longrightarrow> u = t"
  by (simp add: mutex_ok_def)

lemma count_ok_move: "sem_move s e s' \<Longrightarrow> mutex_ok s \<Longrightarrow> count_ok s \<Longrightarrow> count_ok s'"
proof (induction rule: sem_move.induct)
  case (notify_count s t)
  then show ?case using mutex_ok_same [of s t] by (force simp: count_ok_def at_pc_def)
next
  case (wait_count s t)
  then show ?case using mutex_ok_same [of s t] by (force simp: count_ok_def at_pc_def)
qed (auto simp: count_ok_def at_pc_def)

text \<open>As many threads are on their way as the count allows to pass, if any thread sleeps.\<close>

definition awake_ok :: "'t semaphore \<Rightarrow> bool" where
  "awake_ok s \<longleftrightarrow> (\<forall>t. sem_pc s t = Asleep \<longrightarrow> unat (sem_count s) \<le> total coming (sem_pc s))"

lemma finite_move: "sem_move s e s' \<Longrightarrow> finite (in_use (sem_pc s)) \<Longrightarrow> finite (in_use (sem_pc s'))"
  by (induction rule: sem_move.induct) (simp_all add: at_pc_def in_use_upd)

lemma awake_okD: "awake_ok s \<Longrightarrow> sem_pc s t = Asleep \<Longrightarrow> unat (sem_count s) \<le> total coming (sem_pc s)"
  by (simp only: awake_ok_def)

lemma awake_ok_upd:
  assumes "finite (in_use (sem_pc s))" and "awake_ok s" and "sem_pc s' = (sem_pc s)(t := p)"
    and "sem_count s' = 0 \<or>
      p \<noteq> Asleep \<and> unat (sem_count s') + coming (sem_pc s t) \<le> unat (sem_count s) + coming p"
  shows "awake_ok s'"
  unfolding awake_ok_def
proof (intro allI impI)
  fix u assume asleep: "sem_pc s' u = Asleep"
  show "unat (sem_count s') \<le> total coming (sem_pc s')"
  proof (cases "sem_count s' = 0")
    case False
    then have "sem_pc s u = Asleep" using assms(3,4) asleep by (simp split: if_splits)
    then have "unat (sem_count s) \<le> total coming (sem_pc s)" by (rule awake_okD [OF assms(2)])
    then show ?thesis using False assms(3,4) total_upd [OF assms(1), of coming t p] by simp
  qed simp
qed

lemma at_pc_simps [simp]:
  "sem_mtx (at_pc t p s) = sem_mtx s" "sem_count (at_pc t p s) = sem_count s"
  "sem_pc (at_pc t p s) = (sem_pc s)(t := p)"
  by (simp_all add: at_pc_def)

lemma awake_ok_move:
  "sem_move s e s' \<Longrightarrow> finite (in_use (sem_pc s)) \<Longrightarrow> count_ok s \<Longrightarrow> awake_ok s \<Longrightarrow> awake_ok s'"
proof (induction rule: sem_move.induct)
  case (notify_count s t)
  then show ?case using count_word(1) [of "sem_count s"]
    by - (rule awake_ok_upd [of s _ t NotifySignal], simp_all)
next
  case (notify_one s t u)
  have fin: "finite (in_use (sem_pc (at_pc u Woken s)))" using notify_one.prems(1) by (simp add: in_use_upd)
  have "u \<noteq> t" using notify_one.hyps by auto
  then have "unat (sem_count s) + 1 \<le> total coming ((sem_pc s)(u := Woken))"
    using notify_one awake_okD [of s u] total_upd [OF notify_one.prems(1), of coming u Woken] by simp
  then show ?case
    using \<open>u \<noteq> t\<close> notify_one.hyps total_upd [OF fin, of coming t NotifyUnlock] by (simp add: awake_ok_def)
next
  case (wait_count s t)
  then have "sem_count s \<noteq> 0" unfolding count_ok_def by blast
  then show ?case using wait_count count_word(2) [of "sem_count s"]
    by - (rule awake_ok_upd [of s _ t WaitUnlock], simp_all)
next
  case (notify_none s t)
  then show ?case by (auto simp: awake_ok_def) (metis rangeI)
qed (erule (1) awake_ok_upd, simp, simp)+

definition sem_inv :: "'t semaphore \<Rightarrow> bool" where
  "sem_inv s \<longleftrightarrow> finite (in_use (sem_pc s)) \<and> mutex_ok s \<and> count_ok s \<and> awake_ok s"

lemma sem_inv_move: "sem_move s e s' \<Longrightarrow> sem_inv s \<Longrightarrow> sem_inv s'"
  unfolding sem_inv_def by (blast intro: finite_move mutex_ok_move count_ok_move awake_ok_move)

text \<open>Starting a call and waking up for no reason.\<close>

lemma sem_inv_outside:
  assumes "sem_inv s" and "sem_pc s t = Away \<and> (p = NotifyLock \<or> p = WaitLock) \<or> sem_pc s t = Asleep \<and> p = Woken"
  shows "sem_inv (at_pc t p s)"
proof -
  have "awake_ok (at_pc t p s)"
    using assms by - (rule awake_ok_upd [of s _ t p], auto simp: sem_inv_def)
  moreover have "mutex_ok (at_pc t p s)"
  proof -
    have "\<not> holds_mtx (sem_pc s t)" "\<not> holds_mtx p" using assms(2) by auto
    then show ?thesis using assms(1) by (auto simp: sem_inv_def mutex_ok_def)
  qed
  ultimately show ?thesis
    using assms by (auto simp: sem_inv_def in_use_upd count_ok_def)
qed

lemma sem_run_inv: "sem_run s es \<Longrightarrow> sem_inv s"
proof (induction rule: sem_run.induct)
  case sem_start
  show ?case by (simp add: sem_inv_def Semaphore_new_def in_use_def mutex_ok_def count_ok_def awake_ok_def)
qed (auto intro: sem_inv_move sem_inv_outside)

section \<open>Moves end\<close>

text \<open>How many moves a thread can still make; \<open>notify_one\<close> pays for those of the thread it wakes.\<close>

fun rank :: "pc \<Rightarrow> nat" where
  "rank Away = 0" | "rank Asleep = 0"
| "rank NotifyLock = 8" | "rank NotifyCount = 7" | "rank NotifySignal = 6" | "rank NotifyUnlock = 1"
| "rank Woken = 4" | "rank WaitLock = 4" | "rank WaitTest = 3" | "rank WaitCount = 2" | "rank WaitUnlock = 1"

lemma rank_upd:
  assumes "finite (in_use (sem_pc s))" and "sem_pc s' = (sem_pc s)(t := p)" and "rank p < rank (sem_pc s t)"
  shows "total rank (sem_pc s') < total rank (sem_pc s)"
  using assms total_upd [OF assms(1), of rank t p] by simp

lemma move_rank:
  "sem_move s e s' \<Longrightarrow> finite (in_use (sem_pc s)) \<Longrightarrow> total rank (sem_pc s') < total rank (sem_pc s)"
proof (induction rule: sem_move.induct)
  case (notify_one s t u)
  have fin: "finite (in_use ((sem_pc s)(u := Woken)))" using notify_one.prems by (rule in_use_upd)
  have "u \<noteq> t" using notify_one.hyps by auto
  then have "total rank ((sem_pc s)(u := Woken, t := NotifyUnlock)) < total rank (sem_pc s)"
    using notify_one total_upd [OF notify_one.prems, of rank u Woken] total_upd [OF fin, of rank t NotifyUnlock] by simp
  then show ?case by (simp only: at_pc_simps)
qed (erule rank_upd, simp, simp)+

inductive sem_moves :: "nat \<Rightarrow> 't semaphore \<Rightarrow> 't semaphore \<Rightarrow> bool" where
  moves_none: "sem_moves 0 s s"
| moves_more: "sem_moves n s s' \<Longrightarrow> sem_move s' e s'' \<Longrightarrow> sem_moves (Suc n) s s''"

lemma moves_inv: "sem_moves n s s' \<Longrightarrow> sem_inv s \<Longrightarrow> sem_inv s'"
  by (induction rule: sem_moves.induct) (auto intro: sem_inv_move)

lemma moves_rank: "sem_moves n s s' \<Longrightarrow> sem_inv s \<Longrightarrow> n + total rank (sem_pc s') \<le> total rank (sem_pc s)"
proof (induction rule: sem_moves.induct)
  case (moves_more n s s' e s'')
  then have "sem_inv s'" by (blast intro: moves_inv)
  then show ?case using moves_more move_rank [OF moves_more.hyps(2)] by (fastforce simp: sem_inv_def)
qed simp

lemma holder_moves: "holds_mtx (sem_pc s t) \<Longrightarrow> \<exists>e s'. sem_move s e s'"
proof (cases "sem_pc s t")
  case NotifySignal
  then show ?thesis using notify_one [of s t] notify_none [of s t] by (metis rangeE)
next
  case WaitTest
  then show ?thesis using wait_sleep [of s t] wait_go [of s t] by blast
qed (auto intro: notify_count notify_unlock wait_count wait_unlock)

lemma locker_moves:
  "sem_mtx s = None \<Longrightarrow> sem_pc s t \<in> {NotifyLock, WaitLock, Woken} \<Longrightarrow> \<exists>e s'. sem_move s e s'"
  by (auto intro: notify_lock wait_lock wait_relock)

text \<open>Where no thread can move every thread is away or sleeps, and it sleeps only at count zero.\<close>

lemma stuck_state:
  assumes inv: "sem_inv s" and stuck: "\<And>e s'. \<not> sem_move s e s'"
  shows "sem_pc s t = Away \<or> sem_pc s t = Asleep \<and> sem_count s = 0"
proof -
  have free: "\<not> holds_mtx (sem_pc s u)" for u
    using stuck holder_moves [of s u] by metis
  then have "sem_mtx s = None" using inv by (cases "sem_mtx s") (auto simp: sem_inv_def mutex_ok_def)
  then have out: "sem_pc s u = Away \<or> sem_pc s u = Asleep" for u
    using free [of u] stuck locker_moves [of s u] by (cases "sem_pc s u") auto
  then have "coming (sem_pc s u) = 0" for u by (metis coming.simps)
  then have "total coming (sem_pc s) = 0" by (simp add: total_def)
  then show ?thesis using out [of t] awake_okD [of s t] inv by (auto simp: sem_inv_def unat_eq_zero)
qed

section \<open>An example with two threads\<close>

definition two :: "nat option \<Rightarrow> int32 \<Rightarrow> pc \<Rightarrow> pc \<Rightarrow> nat semaphore" where
  "two m c p q = \<lparr>sem_mtx = m, sem_count = c, sem_pc = (\<lambda>t. Away)(0 := p, 1 := q)\<rparr>"

lemma two_simps [simp]:
  "sem_mtx (two m c p q) = m" "sem_count (two m c p q) = c"
  "sem_pc (two m c p q) 0 = p" "sem_pc (two m c p q) (Suc 0) = q"
  "at_pc 0 p' (two m c p q) = two m c p' q" "at_pc (Suc 0) q' (two m c p q) = two m c p q'"
  "sem_mtx_update f (two m c p q) = two (f m) c p q" "sem_count_update g (two m c p q) = two m (g c) p q"
  by (auto simp: two_def at_pc_def)

lemma two_run_passed: "sem_run (two None 0 Away Away) [Passed 0]"
proof -
  have "Semaphore_new = two None 1 Away Away"
    by (auto simp: Semaphore_new_def two_def Semaphore_initial_def)
  then have "sem_run (two None 1 Away Away) []" using sem_start by metis
  from sem_call [OF this, of 0 WaitLock] have "sem_run (two None 1 WaitLock Away) []" by simp
  from sem_moved [OF this wait_lock [of _ 0]] have "sem_run (two (Some 0) 1 WaitTest Away) []" by simp
  from sem_moved [OF this wait_go [of _ 0]] have "sem_run (two (Some 0) 1 WaitCount Away) []" by simp
  from sem_moved [OF this wait_count [of _ 0]] have "sem_run (two (Some 0) 0 WaitUnlock Away) [Passed 0]" by simp
  from sem_moved [OF this wait_unlock [of _ 0]] show ?thesis by simp
qed

lemma two_run_handed_over: "sem_run (two (Some 1) 0 Away WaitUnlock) [Passed 0, Notified 0, Passed 1]"
proof -
  from sem_call [OF two_run_passed, of 1 WaitLock] have "sem_run (two None 0 Away WaitLock) [Passed 0]" by simp
  from sem_moved [OF this wait_lock [of _ 1]] have "sem_run (two (Some 1) 0 Away WaitTest) [Passed 0]" by simp
  from sem_moved [OF this wait_sleep [of _ 1]] have "sem_run (two None 0 Away Asleep) [Passed 0]" by simp
  from sem_call [OF this, of 0 NotifyLock] have "sem_run (two None 0 NotifyLock Asleep) [Passed 0]" by simp
  from sem_moved [OF this notify_lock [of _ 0]] have "sem_run (two (Some 0) 0 NotifyCount Asleep) [Passed 0]" by simp
  from sem_moved [OF this notify_count [of _ 0]]
  have "sem_run (two (Some 0) 1 NotifySignal Asleep) [Passed 0, Notified 0]" by simp
  from sem_moved [OF this notify_one [of _ 0 1]]
  have "sem_run (two (Some 0) 1 NotifyUnlock Woken) [Passed 0, Notified 0]" by simp
  from sem_moved [OF this notify_unlock [of _ 0]] have "sem_run (two None 1 Away Woken) [Passed 0, Notified 0]" by simp
  from sem_moved [OF this wait_relock [of _ 1]] have "sem_run (two (Some 1) 1 Away WaitTest) [Passed 0, Notified 0]" by simp
  from sem_moved [OF this wait_go [of _ 1]] have "sem_run (two (Some 1) 1 Away WaitCount) [Passed 0, Notified 0]" by simp
  from sem_moved [OF this wait_count [of _ 1]] show ?thesis by simp
qed

section \<open>Properties\<close>

text \<open>
  C8. The threads see the atomic operations: in every run, whatever the order in which threads lock the
  mutex, are woken or wake up for no reason, the decrements and increments that have taken effect are
  a run of the operations of one step, none of which would have had to wait, and the count is what
  that run leaves.
\<close>

theorem semaphore_is_atomic:
  assumes "sem_run s es"
  shows "sem_atomic es Semaphore_initial = Inr (sem_count s)"
  using assms
proof (induction rule: sem_run.induct)
  case (sem_moved s es e s')
  then have "count_ok s" using sem_run_inv by (auto simp: sem_inv_def)
  with sem_moved.hyps(2) have "sem_atomic e (sem_count s) = Inr (sem_count s')"
    by (cases rule: sem_move.cases) (auto simp: count_ok_def Semaphore_notify_def Semaphore_wait_def)
  then show ?case using sem_moved.IH by (simp add: sem_atomic_append)
qed (simp_all add: Semaphore_new_def)

theorem semaphore_is_atomic_witness:
  "\<exists>s. sem_run s [Passed 0, Notified 0, Passed (1 :: nat)] \<and>
    sem_atomic [Passed 0, Notified 0, Passed (1 :: nat)] Semaphore_initial = Inr (sem_count s) \<and> sem_count s = 0"
  using semaphore_is_atomic [OF two_run_handed_over] two_run_handed_over by (intro exI conjI) auto

text \<open>
  C9. No wake-up is lost: if no further call is made, and whatever the order of the moves, the threads
  come to rest after a bounded number of moves, and then every call of \<open>notify\<close> has returned, and a
  call of \<open>wait\<close> has returned too, or it sleeps and the count is zero.
\<close>

theorem semaphore_settles:
  assumes "sem_run s es" and "sem_moves n s s'"
  shows "n \<le> total rank (sem_pc s) \<and>
    ((\<forall>e s''. \<not> sem_move s' e s'') \<longrightarrow>
      (\<forall>t. sem_pc s' t = Away \<or> sem_pc s' t = Asleep \<and> sem_count s' = 0))"
proof (intro conjI impI allI)
  have inv: "sem_inv s" using assms(1) by (rule sem_run_inv)
  show "n \<le> total rank (sem_pc s)" using moves_rank [OF assms(2) inv] by simp
  fix t assume "\<forall>e s''. \<not> sem_move s' e s''"
  then show "sem_pc s' t = Away \<or> sem_pc s' t = Asleep \<and> sem_count s' = 0"
    using stuck_state [OF moves_inv [OF assms(2) inv]] by blast
qed

theorem semaphore_settles_witness:
  "\<exists>s s'. sem_run s [Passed 0] \<and> sem_moves 2 s s' \<and> sem_pc s' (1 :: nat) = Asleep \<and> sem_count s' = 0"
proof -
  let ?s = "two None 0 Away WaitLock" and ?s' = "two None 0 Away Asleep"
  have run: "sem_run ?s [Passed 0]"
    using sem_call [OF two_run_passed, of 1 WaitLock] by simp
  have "sem_moves (Suc (Suc 0)) ?s ?s'"
    using moves_more [OF moves_more [OF moves_none wait_lock [of ?s 1]] wait_sleep [of _ 1]] by simp
  then have moves: "sem_moves 2 ?s ?s'" by (simp add: numeral_2_eq_2)
  have "\<forall>e s''. \<not> sem_move ?s' e s''" by (auto elim!: sem_move.cases simp: two_def split: if_splits)
  then have "sem_pc ?s' 1 = Away \<or> sem_pc ?s' 1 = Asleep \<and> sem_count ?s' = 0"
    using semaphore_settles [OF run moves] by blast
  with run moves show ?thesis by (intro exI [of _ ?s] exI [of _ ?s']) simp
qed

end
