(* ===== verification/SidebandRegistry.thy ===== *)
theory SidebandRegistry
  imports SidebandObjects Addresses Semaphores
begin

text \<open>
  The globals of a process and the registry of open sideband connections
  (\<^verbatim>\<open>src/sideband_data.cc\<close>, \<^verbatim>\<open>src/sideband_semaphore.h\<close>): objects by usage id. Every function
  that touches the registry holds its mutex from beginning to end, so each is one step here; waiting
  on the condition variable is \<^term>\<open>Inl Blocks\<close>, the state in which another thread has to act.
\<close>

section \<open>The globals\<close>

text \<open>The statics of \<open>SocketSidebandData\<close> and of \<open>RdmaSidebandDataImp\<close>; a semaphore is its count.\<close>

record socket_statics =
  sq_connectQueue :: int32
  sq_nextConnectLowLatency :: bool
  sq_nextConnectBufferSize :: int64
  sq_nextConnectionId :: string

record rdma_statics =
  rq_rdmaConnectQueue :: int32
  rq_pendingWriteSession :: session
  rq_pendingReadSession :: session
  rq_nextConnectLowLatency :: bool
  rq_waitForReaderConnection :: bool
  rq_waitForWriteConnection :: bool
  rq_nextConnectBufferSize :: int64
  rq_nextConnectionId :: string

text \<open>
  \<open>pg_interfaces\<close> is what \<open>easyrdma_Enumerate\<close> reports for this machine.
\<close>

record 's program = "'s machine" +
  pg_buffers :: "string \<rightharpoonup> token"
  pg_nextId :: int32
  pg_config :: socket_config
  pg_interfaces :: "string list"
  pg_sockets :: socket_statics
  pg_rdma :: rdma_statics

section \<open>The registry\<close>

text \<open>\<open>std::map::emplace\<close> keeps what is there.\<close>

definition emplace :: "'k \<Rightarrow> 'v \<Rightarrow> ('k \<rightharpoonup> 'v) \<Rightarrow> ('k \<rightharpoonup> 'v)" where
  "emplace k v m = (if m k = None then m(k \<mapsto> v) else m)"

definition RegisterSidebandData :: "token \<Rightarrow> 's program \<Rightarrow> stop + 's program" where
  "RegisterSidebandData t pg =
     andThen (deref t pg) (\<lambda>obj.
       if pg_buffers pg (UsageId obj) \<noteq> None then Inl AssertionFailed
       else Inr (pg\<lparr>pg_buffers := emplace (UsageId obj) t (pg_buffers pg)\<rparr>))"

definition GetOwnerSidebandDataToken :: "string \<Rightarrow> 's program \<Rightarrow> stop + (int32 \<times> token)" where
  "GetOwnerSidebandDataToken usageId pg =
     (case pg_buffers pg usageId of None \<Rightarrow> Inl Blocks | Some t \<Rightarrow> Inr (0, t))"

text \<open>\<open>strcpy\<close> into an array of \<open>n\<close> characters.\<close>

definition strcpy :: "nat \<Rightarrow> string \<Rightarrow> stop + string" where
  "strcpy n s = (if n < length s + 1 then Inl BadAccess else Inr s)"

text \<open>
  The owner's object of a shared-memory strategy is registered at once; the other strategies only
  hand out an identifier, under which the accepted connection will be registered.
\<close>

definition Init_shared :: "sideband \<Rightarrow> 's program \<Rightarrow> stop + (int32 \<times> string \<times> 's program)" where
  "Init_shared obj pg =
     andThen (new_object obj pg) (\<lambda>(t, pg).
     andThen (strcpy 32 (UsageId obj)) (\<lambda>out_id.
       Inr (0, out_id, pg\<lparr>pg_buffers := emplace (UsageId obj) t (pg_buffers pg)\<rparr>)))"

definition Init_queued :: "'s program \<Rightarrow> stop + (int32 \<times> string \<times> 's program)" where
  "Init_queued pg =
     andThen (NextConnectionId (pg_nextId pg)) (\<lambda>(conn_id, nextId).
     andThen (strcpy 32 conn_id) (\<lambda>out_id. Inr (0, out_id, pg\<lparr>pg_nextId := nextId\<rparr>)))"

definition InitOwnerSidebandData :: "SidebandStrategy \<Rightarrow> int64 \<Rightarrow> 's program \<Rightarrow>
    stop + (int32 \<times> string \<times> 's program)" where
  "InitOwnerSidebandData strategy bufferSize pg = (case strategy of
     DOUBLE_BUFFERED_SHARED_MEMORY \<Rightarrow> Init_shared (DblSideband (Dbl_InitNew bufferSize)) pg
   | SHARED_MEMORY \<Rightarrow> Init_shared (ShmSideband (Shm_InitNew bufferSize)) pg
   | SOCKETS \<Rightarrow> Init_queued pg
   | SOCKETS_LOW_LATENCY \<Rightarrow> Init_queued pg
   | RDMA \<Rightarrow> Init_queued pg
   | RDMA_LOW_LATENCY \<Rightarrow> Init_queued pg
   | _ \<Rightarrow> Inl AssertionFailed)"

definition WriteSidebandData :: "'s easyrdma \<Rightarrow> token \<Rightarrow> byte list \<Rightarrow> int64 \<Rightarrow> 's program \<Rightarrow>
    stop + (int32 \<times> 's program)" where
  "WriteSidebandData lib t bytes n pg =
     andThen (SidebandData_Write lib t bytes n pg) (\<lambda>(result, pg). Inr (0, pg))"

definition ReadSidebandData :: "'s easyrdma \<Rightarrow> token \<Rightarrow> byte list \<Rightarrow> int64 \<Rightarrow> int64 \<Rightarrow> 's program \<Rightarrow>
    stop + (int32 \<times> byte list \<times> int64 \<times> 's program)" where
  "ReadSidebandData lib t bytes n nread pg =
     andThen (SidebandData_Read lib t bytes n nread pg) (\<lambda>(result, bytes, nread, pg).
       Inr (0, bytes, nread, pg))"

definition CloseSidebandData :: "'s easyrdma \<Rightarrow> token \<Rightarrow> 's program \<Rightarrow> stop + (int32 \<times> 's program)" where
  "CloseSidebandData lib t pg =
     andThen (deref t pg) (\<lambda>obj.
       if pg_buffers pg (UsageId obj) = None then Inl AssertionFailed
       else andThen (Sideband_delete lib obj pg) (\<lambda>pg.
         Inr (0, pg\<lparr>pg_buffers := (pg_buffers pg)(UsageId obj := None),
                   mc_objects := (mc_objects pg)(t := None)\<rparr>)))"

end
