(* ===== verification/Handshake.thy ===== *)
theory Handshake
  imports SidebandPrelude
begin

text \<open>
  The contract of a connection queue: a request is queued, connections arrive until the request is
  served, and only then can the next request be queued. \<open>served\<close> is the relation of all histories
  in which every connection answers a queued request, with the request that is being served and the
  connections that have arrived for it: \<open>complete\<close> says when these are all, by counting them and not by
  looking at the state. Between these steps the process may do anything that leaves the queue alone
  (\<open>same\<close>).
\<close>

inductive served :: "('r \<Rightarrow> 's \<Rightarrow> stop + 's) \<Rightarrow> ('c \<Rightarrow> 's \<Rightarrow> stop + 's) \<Rightarrow> ('s \<Rightarrow> bool) \<Rightarrow>
    ('s \<Rightarrow> 's \<Rightarrow> bool) \<Rightarrow> ('r \<Rightarrow> 'c list \<Rightarrow> bool) \<Rightarrow> ('c \<Rightarrow> bool) \<Rightarrow> ('r \<times> 'c list) option \<Rightarrow> 's \<Rightarrow> bool"
  for queue accept idle same complete valid
where
  served_start: "idle s \<Longrightarrow> served queue accept idle same complete valid None s"
| served_queue: "served queue accept idle same complete valid p s \<Longrightarrow> queue r s = Inr s' \<Longrightarrow>
    served queue accept idle same complete valid (Some (r, [])) s'"
| served_accept: "served queue accept idle same complete valid (Some (r, cs)) s \<Longrightarrow> valid c \<Longrightarrow>
    accept c s = Inr s' \<Longrightarrow>
    served queue accept idle same complete valid (if complete r (cs @ [c]) then None else Some (r, cs @ [c])) s'"
| served_other: "served queue accept idle same complete valid p s \<Longrightarrow> same s s' \<Longrightarrow>
    served queue accept idle same complete valid p s'"

locale connection_queue =
  fixes queue :: "'r \<Rightarrow> 's \<Rightarrow> stop + 's"
    and accept :: "'c \<Rightarrow> 's \<Rightarrow> stop + 's"
    and idle :: "'s \<Rightarrow> bool"
    and pending :: "'r \<Rightarrow> 'c list \<Rightarrow> 's \<Rightarrow> bool"
    and same :: "'s \<Rightarrow> 's \<Rightarrow> bool"
    and complete :: "'r \<Rightarrow> 'c list \<Rightarrow> bool"
    and valid :: "'c \<Rightarrow> bool"
  assumes queue_returns: "idle s \<Longrightarrow> \<exists>s'. queue r s = Inr s'"
    and queue_pending: "idle s \<Longrightarrow> queue r s = Inr s' \<Longrightarrow> pending r [] s'"
    and queue_busy: "pending r cs s \<Longrightarrow> queue r' s = Inl Blocks"
    and accept_complete: "pending r cs s \<Longrightarrow> valid c \<Longrightarrow> accept c s = Inr s' \<Longrightarrow> complete r (cs @ [c]) \<Longrightarrow> idle s'"
    and accept_pending: "pending r cs s \<Longrightarrow> valid c \<Longrightarrow> accept c s = Inr s' \<Longrightarrow> \<not> complete r (cs @ [c]) \<Longrightarrow>
      pending r (cs @ [c]) s'"
    and same_idle: "same s s' \<Longrightarrow> idle s \<Longrightarrow> idle s'"
    and same_pending: "same s s' \<Longrightarrow> pending r cs s \<Longrightarrow> pending r cs s'"
begin

lemma served_state:
  "served queue accept idle same complete valid p s \<Longrightarrow>
    (case p of None \<Rightarrow> idle s | Some (r, cs) \<Rightarrow> pending r cs s)"
proof (induction rule: served.induct)
  case (served_queue p s r s')
  then have "idle s" using queue_busy by (cases p) fastforce+
  then show ?case using served_queue.hyps(2) queue_pending by simp
next
  case (served_accept r cs s c s')
  then show ?case using accept_complete accept_pending by simp
next
  case (served_other p s s')
  then show ?case using same_idle same_pending by (auto split: option.splits)
qed simp

text \<open>
  One request at a time: the next one waits until the connections of this one are complete; then it is
  let in.
\<close>

lemma served_none:
  "served queue accept idle same complete valid None s \<Longrightarrow> \<exists>s'. queue r s = Inr s' \<and> pending r [] s'"
  using served_state [of None s] queue_returns [of s r] queue_pending [of s r] by fastforce

lemma served_waits:
  "served queue accept idle same complete valid (Some (r', cs)) s \<Longrightarrow> pending r' cs s \<and> queue r s = Inl Blocks"
  using served_state [of "Some (r', cs)" s] queue_busy by simp

lemma served_next:
  assumes "served queue accept idle same complete valid (Some (r', cs)) s" and "valid c" and "accept c s = Inr s'"
  shows "if complete r' (cs @ [c]) then \<exists>s''. queue r s' = Inr s'' \<and> pending r [] s'' else queue r s' = Inl Blocks"
proof -
  have "served queue accept idle same complete valid (if complete r' (cs @ [c]) then None else Some (r', cs @ [c])) s'"
    using assms by (rule served_accept)
  then show ?thesis using served_none [of s' r] served_waits [of r' "cs @ [c]" s' r] by (auto split: if_split_asm)
qed

end

end
