(* ===== verification/ConnectQueues.thy ===== *)
theory ConnectQueues
  imports SidebandRegistry Handshake
begin

text \<open>
  Setting up connections (\<^verbatim>\<open>src/sideband_sockets.cc\<close>, \<^verbatim>\<open>src/sideband_rdma.cc\<close>): a server
  queues the settings for the next connection, an accepting thread makes the object for a connection
  that arrives, registers it and lets the next request through; a client connects. Both ends are
  programs of their own; they share the network and the state of the RDMA library.
\<close>

section \<open>Sockets\<close>

definition So_QueueSidebandConnection :: "SidebandStrategy \<Rightarrow> string \<Rightarrow> int64 \<Rightarrow> 's program \<Rightarrow>
    stop + 's program" where
  "So_QueueSidebandConnection strategy conn_id bufferSize pg =
     andThen (Semaphore_wait (sq_connectQueue (pg_sockets pg))) (\<lambda>count.
       Inr (pg\<lparr>pg_sockets := \<lparr>sq_connectQueue = count,
         sq_nextConnectLowLatency = (strategy = SOCKETS_LOW_LATENCY),
         sq_nextConnectBufferSize = bufferSize, sq_nextConnectionId = conn_id\<rparr>\<rparr>))"

text \<open>
  The connection is registered under the identifier the client sends, not under the one that was
  queued.
\<close>

definition So_InitFromConnection :: "nat \<Rightarrow> 's program \<Rightarrow> stop + (token \<times> 's program)" where
  "So_InitFromConnection sock pg =
     (let sq = pg_sockets pg;
          pg = (if sq_nextConnectLowLatency sq then pg\<lparr>mc_net := sys_set_nodelay sock (mc_net pg)\<rparr> else pg);
          this = So_new_accepted sock (sq_nextConnectBufferSize sq) (sq_nextConnectLowLatency sq)
      in andThen (new_object (SocketSideband this) pg) (\<lambda>(t, pg).
         andThen (So_ReadConnectionId this (mc_net pg)) (\<lambda>(this, net).
         andThen (RegisterSidebandData t
             (pg\<lparr>mc_net := net, mc_objects := (mc_objects pg)(t \<mapsto> SocketSideband this)\<rparr>)) (\<lambda>pg.
         Inr (t, pg\<lparr>pg_sockets := (pg_sockets pg)
           \<lparr>sq_connectQueue := Semaphore_notify (sq_connectQueue (pg_sockets pg))\<rparr>\<rparr>)))))"

text \<open>\<open>tokens[0]\<close> and \<open>tokens[1]\<close> are not checked to exist.\<close>

definition So_ClientInit :: "string \<Rightarrow> string \<Rightarrow> int64 \<Rightarrow> bool \<Rightarrow> 's program \<Rightarrow> stop + (token \<times> 's program)" where
  "So_ClientInit sidebandServiceUrl usageId bufferSize lowLatency pg =
     (let tokens = SplitUrlString sidebandServiceUrl;
          this = So_new usageId bufferSize lowLatency
      in andThen (new_object (SocketSideband this) pg) (\<lambda>(t, pg).
         if length tokens < 2 then Inl BadAccess
         else andThen (So_ConnectToSocket this (tokens ! 0) (tokens ! 1) usageId lowLatency (mc_net pg))
           (\<lambda>(this, net). Inr (t, pg\<lparr>mc_net := net, mc_objects := (mc_objects pg)(t \<mapsto> SocketSideband this)\<rparr>))))"

text \<open>
  The loop of \<open>RunSidebandSocketsAccept\<close>: what each turn meets is decided outside the program, by
  the thread that sets \<open>stop_flag\<close> and by the kernel.
\<close>

datatype accept_event = StopFlag | SelectError | SelectTimeout | Readable | AcceptError

fun accept_loop :: "int \<Rightarrow> accept_event list \<Rightarrow> 's program \<Rightarrow> stop + (int32 \<times> 's program)" where
  "accept_loop sockfd [] pg = Inl Blocks"
| "accept_loop sockfd (StopFlag # evs) pg =
     Inr (0, pg\<lparr>mc_net := sys_close (nat sockfd) (mc_net pg)\<rparr>)"
| "accept_loop sockfd (SelectError # evs) pg = Inr (- 1, pg)"
| "accept_loop sockfd (SelectTimeout # evs) pg = accept_loop sockfd evs pg"
| "accept_loop sockfd (AcceptError # evs) pg = Inr (- 1, pg)"
| "accept_loop sockfd (Readable # evs) pg =
     (case nt_backlog (mc_net pg) of
        [] \<Rightarrow> Inl Blocks
      | newsockfd # rest \<Rightarrow>
          andThen (So_InitFromConnection newsockfd (pg\<lparr>mc_net := (mc_net pg)\<lparr>nt_backlog := rest\<rparr>\<rparr>))
            (\<lambda>(t, pg). accept_loop sockfd evs pg))"

text \<open>
  What precedes the loop: the listening socket, or -1. \<open>htons(port)\<close> keeps 16 bits of the port, and a
  failing \<open>bind\<close> leaves the socket open.
\<close>

definition start_listening :: "string \<Rightarrow> int \<Rightarrow> 's program \<Rightarrow> int \<times> 's program" where
  "start_listening address port pg =
     (let pg = pg\<lparr>pg_config := \<lparr>sc_address = address, sc_port = port\<rparr>\<rparr>;
          (sockfd, net) = sys_socket (mc_net pg);
          pg = pg\<lparr>mc_net := net\<rparr>
      in if sockfd < 0 then (- 1, pg)
         else (let (result, net) = sys_bind (nat sockfd) (word_of_int port) (mc_net pg)
               in if result < 0 then (- 1, pg) else (sockfd, pg\<lparr>mc_net := net\<rparr>)))"

definition RunSidebandSocketsAccept :: "string \<Rightarrow> int \<Rightarrow> accept_event list \<Rightarrow> 's program \<Rightarrow>
    stop + (int32 \<times> 's program)" where
  "RunSidebandSocketsAccept address port evs pg =
     (let (sockfd, pg) = start_listening address port pg
      in if sockfd < 0 then Inr (- 1, pg) else accept_loop sockfd evs pg)"

section \<open>RDMA\<close>

definition Imp_QueueSidebandConnection :: "'s easyrdma \<Rightarrow> SidebandStrategy \<Rightarrow> string \<Rightarrow> bool \<Rightarrow> bool \<Rightarrow>
    int64 \<Rightarrow> 's program \<Rightarrow> stop + 's program" where
  "Imp_QueueSidebandConnection lib strategy conn_id waitForReader waitForWriter bufferSize pg =
     andThen (Semaphore_wait (rq_rdmaConnectQueue (pg_rdma pg))) (\<lambda>count.
       Inr (pg\<lparr>pg_rdma := \<lparr>rq_rdmaConnectQueue = count,
         rq_pendingWriteSession = er_InvalidSession lib, rq_pendingReadSession = er_InvalidSession lib,
         rq_nextConnectLowLatency = (strategy = RDMA_LOW_LATENCY),
         rq_waitForReaderConnection = waitForReader, rq_waitForWriteConnection = waitForWriter,
         rq_nextConnectBufferSize = bufferSize, rq_nextConnectionId = conn_id\<rparr>\<rparr>))"

definition assert_success :: "int32 \<Rightarrow> int32 \<Rightarrow> stop + unit" where
  "assert_success expected result = (if result = expected then Inr () else Inl AssertionFailed)"

text \<open>
  \<open>new RdmaSidebandDataImp\<close>, \<open>new RdmaSidebandData\<close> and \<open>RegisterSidebandData\<close>, as both ends do.
\<close>

definition new_rdma_object :: "'s easyrdma \<Rightarrow> session \<Rightarrow> session \<Rightarrow> string \<Rightarrow> bool \<Rightarrow> int64 \<Rightarrow> 's program \<Rightarrow>
    stop + (token \<times> 's program)" where
  "new_rdma_object lib writeSession readSession conn_id lowLatency bufferSize pg =
     andThen (Imp_new lib writeSession readSession lowLatency bufferSize (mc_rdma pg)) (\<lambda>(imp, rd).
     andThen (new_object (RdmaSideband (Rdma_new conn_id imp)) (pg\<lparr>mc_rdma := rd\<rparr>)) (\<lambda>(t, pg).
     andThen (RegisterSidebandData t pg) (\<lambda>pg. Inr (t, pg))))"

text \<open>The result is the null token as long as a session is missing.\<close>

definition Imp_InitFromConnection :: "'s easyrdma \<Rightarrow> session \<Rightarrow> bool \<Rightarrow> 's program \<Rightarrow>
    stop + (token \<times> 's program)" where
  "Imp_InitFromConnection lib connectedSession isWriteSession pg =
     (let rq = (if isWriteSession then (pg_rdma pg)\<lparr>rq_pendingWriteSession := connectedSession\<rparr>
                else (pg_rdma pg)\<lparr>rq_pendingReadSession := connectedSession\<rparr>);
          pg = pg\<lparr>pg_rdma := rq\<rparr>
      in if (rq_pendingWriteSession rq \<noteq> er_InvalidSession lib \<or> \<not> rq_waitForWriteConnection rq) \<and>
            (rq_pendingReadSession rq \<noteq> er_InvalidSession lib \<or> \<not> rq_waitForReaderConnection rq)
         then
           andThen
             (if rq_nextConnectLowLatency rq \<and> rq_pendingReadSession rq \<noteq> er_InvalidSession lib
              then andThen (er_SetUseRxPolling lib (rq_pendingReadSession rq) True (mc_rdma pg)) (\<lambda>(result, rd).
                   andThen (assert_success (er_Error_Success lib) result) (\<lambda>u. Inr rd))
              else Inr (mc_rdma pg))
             (\<lambda>rd. andThen (new_rdma_object lib (rq_pendingWriteSession rq) (rq_pendingReadSession rq)
                 (rq_nextConnectionId rq) (rq_nextConnectLowLatency rq) (rq_nextConnectBufferSize rq)
                 (pg\<lparr>mc_rdma := rd\<rparr>)) (\<lambda>(t, pg).
               Inr (t, pg\<lparr>pg_rdma := (pg_rdma pg)
                 \<lparr>rq_rdmaConnectQueue := Semaphore_notify (rq_rdmaConnectQueue (pg_rdma pg))\<rparr>\<rparr>)))
         else Inr (0, pg))"

definition Imp_ClientInitFromConnection :: "'s easyrdma \<Rightarrow> session \<Rightarrow> session \<Rightarrow> string \<Rightarrow> bool \<Rightarrow> int64 \<Rightarrow>
    's program \<Rightarrow> stop + (token \<times> 's program)" where
  "Imp_ClientInitFromConnection lib writeSession readSession conn_id lowLatency bufferSize pg =
     new_rdma_object lib writeSession readSession conn_id lowLatency bufferSize pg"

text \<open>
  \<open>ClientInit\<close>: receive on the reported port, send on the next one. A failing
  \<open>CreateConnectorSession\<close> is reported on the console only.
\<close>

definition Rdma_ClientInit :: "'s easyrdma \<Rightarrow> string \<Rightarrow> bool \<Rightarrow> string \<Rightarrow> int64 \<Rightarrow> 's program \<Rightarrow>
    stop + (token \<times> 's program)" where
  "Rdma_ClientInit lib sidebandServiceUrl lowLatency usageId bufferSize pg =
     andThen (GetRdmaAddress (pg_interfaces pg)) (\<lambda>localAddress.
     let tokens = SplitUrlString sidebandServiceUrl in
     andThen (er_CreateConnectorSession lib localAddress 0 (er_InvalidSession lib) (mc_rdma pg))
       (\<lambda>(result, readSession, rd).
     if length tokens < 2 then Inl BadAccess else
     andThen (stoi (tokens ! 1)) (\<lambda>port.
     andThen (er_Connect lib readSession (er_Direction_Receive lib) (tokens ! 0) port timeoutMs rd) (\<lambda>(result, rd).
     andThen (assert_success (er_Error_Success lib) result) (\<lambda>u.
     andThen (if lowLatency
              then andThen (er_SetUseRxPolling lib readSession True rd) (\<lambda>(result, rd).
                   andThen (assert_success (er_Error_Success lib) result) (\<lambda>u. Inr rd))
              else Inr rd) (\<lambda>rd.
     andThen (er_CreateConnectorSession lib localAddress 0 (er_InvalidSession lib) rd)
       (\<lambda>(result, writeSession, rd).
     andThen (er_Connect lib writeSession (er_Direction_Send lib) (tokens ! 0) (port + 1) timeoutMs rd)
       (\<lambda>(result, rd).
     andThen (assert_success (er_Error_Success lib) result) (\<lambda>u.
       Imp_ClientInitFromConnection lib writeSession readSession usageId lowLatency bufferSize
         (pg\<lparr>mc_rdma := rd\<rparr>))))))))))"

text \<open>
  One turn of the accepting loop, and the loop, which has no exit of its own: it is \<^const>\<open>None\<close> when
  it runs for ever.
\<close>

definition accept_rdma_turn :: "'s easyrdma \<Rightarrow> session \<Rightarrow> int32 \<Rightarrow> 's program \<Rightarrow> stop + 's program" where
  "accept_rdma_turn lib listenSession direction pg =
     andThen (er_Accept lib listenSession direction timeoutMs (er_InvalidSession lib) (mc_rdma pg))
       (\<lambda>(r, connectedSession, rd).
     if r \<noteq> 0 then Inl AssertionFailed
     else andThen (Imp_InitFromConnection lib connectedSession (direction = er_Direction_Send lib)
         (pg\<lparr>mc_rdma := rd\<rparr>)) (\<lambda>(t, pg). Inr pg))"

partial_function (option) accept_rdma_loop :: "'s easyrdma \<Rightarrow> session \<Rightarrow> int32 \<Rightarrow> 's program \<Rightarrow>
    (stop + (int32 \<times> 's program)) option" where
  "accept_rdma_loop lib listenSession direction pg =
     (case accept_rdma_turn lib listenSession direction pg of
        Inl e \<Rightarrow> Some (Inl e)
      | Inr pg \<Rightarrow> accept_rdma_loop lib listenSession direction pg)"

definition AcceptSidebandRdmaRequests :: "'s easyrdma \<Rightarrow> int32 \<Rightarrow> int \<Rightarrow> 's program \<Rightarrow>
    (stop + (int32 \<times> 's program)) option" where
  "AcceptSidebandRdmaRequests lib direction port pg =
     (case GetRdmaAddress (pg_interfaces pg) of
        Inl e \<Rightarrow> Some (Inl e)
      | Inr listenAddress \<Rightarrow>
          if length listenAddress = 0 then Some (Inr (- 1, pg))
          else (case er_CreateListenerSession lib listenAddress port (er_InvalidSession lib) (mc_rdma pg) of
                  Inl e \<Rightarrow> Some (Inl e)
                | Inr (result, listenSession, rd) \<Rightarrow>
                    accept_rdma_loop lib listenSession direction (pg\<lparr>mc_rdma := rd\<rparr>)))"

definition AcceptSidebandRdmaSendRequests :: "'s easyrdma \<Rightarrow> 's program \<Rightarrow>
    (stop + (int32 \<times> 's program)) option" where
  "AcceptSidebandRdmaSendRequests lib pg = AcceptSidebandRdmaRequests lib (er_Direction_Send lib) 50060 pg"

definition AcceptSidebandRdmaReceiveRequests :: "'s easyrdma \<Rightarrow> 's program \<Rightarrow>
    (stop + (int32 \<times> 's program)) option" where
  "AcceptSidebandRdmaReceiveRequests lib pg = AcceptSidebandRdmaRequests lib (er_Direction_Receive lib) 50061 pg"

section \<open>One request at a time\<close>

lemma new_object_Inr:
  "new_object obj pg = Inr (t, pg') \<Longrightarrow> t = mc_next pg \<and>
    pg' = pg\<lparr>mc_objects := (mc_objects pg)(t \<mapsto> obj), mc_next := t + 1\<rparr>"
  by (auto simp: new_object_def split: if_splits)

lemma Register_Inr:
  "RegisterSidebandData t pg = Inr pg' \<Longrightarrow> \<exists>obj. deref t pg = Inr obj \<and> pg_buffers pg (UsageId obj) = None \<and>
    pg' = pg\<lparr>pg_buffers := (pg_buffers pg)(UsageId obj \<mapsto> t)\<rparr>"
  by (auto simp: RegisterSidebandData_def andThen_eq_Inr_iff emplace_def split: if_splits)

type_synonym So_request = "SidebandStrategy \<times> string \<times> int64"

definition So_queue :: "So_request \<Rightarrow> 's program \<Rightarrow> stop + 's program" where
  "So_queue r pg = (case r of (strategy, conn_id, size0) \<Rightarrow> So_QueueSidebandConnection strategy conn_id size0 pg)"

definition So_accept :: "nat \<Rightarrow> 's program \<Rightarrow> stop + 's program" where
  "So_accept sock pg = andThen (So_InitFromConnection sock pg) (\<lambda>(t, pg). Inr pg)"

definition So_idle :: "'s program \<Rightarrow> bool" where
  "So_idle pg \<longleftrightarrow> sq_connectQueue (pg_sockets pg) = Semaphore_initial"

definition So_pending :: "So_request \<Rightarrow> 's program \<Rightarrow> bool" where
  "So_pending r pg = (case r of (strategy, conn_id, size0) \<Rightarrow>
     pg_sockets pg = \<lparr>sq_connectQueue = 0, sq_nextConnectLowLatency = (strategy = SOCKETS_LOW_LATENCY),
       sq_nextConnectBufferSize = size0, sq_nextConnectionId = conn_id\<rparr>)"

definition So_untouched :: "'s program \<Rightarrow> 's program \<Rightarrow> bool" where
  "So_untouched pg pg' \<longleftrightarrow> pg_sockets pg' = pg_sockets pg"

lemma So_InitFromConnection_sockets:
  assumes "So_InitFromConnection sock pg = Inr (t, pg')"
  shows "pg_sockets pg' = (pg_sockets pg)
    \<lparr>sq_connectQueue := Semaphore_notify (sq_connectQueue (pg_sockets pg))\<rparr>"
  using assms
  by (auto simp: So_InitFromConnection_def Let_def andThen_eq_Inr_iff dest!: new_object_Inr Register_Inr)

text \<open>The object has the settings of the request, and the identifier that was read.\<close>

lemma So_InitFromConnection_object:
  assumes "So_InitFromConnection sock pg = Inr (t, pg')"
  shows "\<exists>this. mc_objects pg' t = Some (SocketSideband this) \<and> so_socket this = sock \<and>
    sd_bufferSize this = sq_nextConnectBufferSize (pg_sockets pg) \<and>
    so_lowLatency this = sq_nextConnectLowLatency (pg_sockets pg) \<and> pg_buffers pg' (so_id this) = Some t"
  using assms
  by (auto simp: So_InitFromConnection_def Let_def andThen_eq_Inr_iff So_ReadConnectionId_def So_new_accepted_def
      deref_def UsageId_def So_UsageId_def dest!: new_object_Inr Register_Inr split: if_splits)

text \<open>One connection serves a request.\<close>

definition So_complete :: "So_request \<Rightarrow> nat list \<Rightarrow> bool" where
  "So_complete r socks \<longleftrightarrow> socks \<noteq> []"

interpretation socket_queue: connection_queue So_queue So_accept So_idle
    "\<lambda>r socks pg. socks = [] \<and> So_pending r pg" So_untouched So_complete "\<lambda>sock. True"
proof unfold_locales
  fix r :: So_request and cs c and pg pg' :: "'a program"
  assume "cs = [] \<and> So_pending r pg" and "So_accept c pg = Inr pg'"
  then obtain t where "So_InitFromConnection c pg = Inr (t, pg')" and "So_pending r pg"
    by (auto simp: So_accept_def andThen_eq_Inr_iff)
  then show "So_idle pg'"
    using So_InitFromConnection_sockets [of c pg t pg']
    by (simp add: So_pending_def So_idle_def Semaphore_notify_def Semaphore_initial_def split: prod.splits)
qed (auto simp: So_queue_def So_QueueSidebandConnection_def Semaphore_wait_def Semaphore_initial_def
      So_idle_def So_pending_def So_untouched_def So_complete_def)

type_synonym Imp_request = "SidebandStrategy \<times> string \<times> bool \<times> bool \<times> int64"

definition Imp_queue :: "'s easyrdma \<Rightarrow> Imp_request \<Rightarrow> 's program \<Rightarrow> stop + 's program" where
  "Imp_queue lib r pg = (case r of (strategy, conn_id, reader, writer, size0) \<Rightarrow>
     Imp_QueueSidebandConnection lib strategy conn_id reader writer size0 pg)"

definition Imp_accept :: "'s easyrdma \<Rightarrow> session \<times> bool \<Rightarrow> 's program \<Rightarrow> stop + 's program" where
  "Imp_accept lib c pg = andThen (Imp_InitFromConnection lib (fst c) (snd c) pg) (\<lambda>(t, pg). Inr pg)"

definition Imp_idle :: "'s program \<Rightarrow> bool" where
  "Imp_idle pg \<longleftrightarrow> rq_rdmaConnectQueue (pg_rdma pg) = Semaphore_initial"

text \<open>
  The sessions that have arrived for a request, oldest first and each with whether it is the writing
  one: the latest of each kind counts. They serve the request when every kind it waits for is among them.
\<close>

fun arrived :: "session \<Rightarrow> bool \<Rightarrow> (session \<times> bool) list \<Rightarrow> session" where
  "arrived none isWrite [] = none"
| "arrived none isWrite ((s, w) # cs) = arrived (if w = isWrite then s else none) isWrite cs"

definition Imp_complete :: "Imp_request \<Rightarrow> (session \<times> bool) list \<Rightarrow> bool" where
  "Imp_complete r cs = (case r of (strategy, conn_id, reader, writer, size0) \<Rightarrow>
     cs \<noteq> [] \<and> (writer \<longrightarrow> True \<in> snd ` set cs) \<and> (reader \<longrightarrow> False \<in> snd ` set cs))"

definition Imp_valid :: "'s easyrdma \<Rightarrow> session \<times> bool \<Rightarrow> bool" where
  "Imp_valid lib c \<longleftrightarrow> fst c \<noteq> er_InvalidSession lib"

definition Imp_pending :: "'s easyrdma \<Rightarrow> Imp_request \<Rightarrow> (session \<times> bool) list \<Rightarrow> 's program \<Rightarrow> bool" where
  "Imp_pending lib r cs pg = (case r of (strategy, conn_id, reader, writer, size0) \<Rightarrow>
     list_all (Imp_valid lib) cs \<and>
     pg_rdma pg = \<lparr>rq_rdmaConnectQueue = 0,
       rq_pendingWriteSession = arrived (er_InvalidSession lib) True cs,
       rq_pendingReadSession = arrived (er_InvalidSession lib) False cs,
       rq_nextConnectLowLatency = (strategy = RDMA_LOW_LATENCY),
       rq_waitForReaderConnection = reader, rq_waitForWriteConnection = writer,
       rq_nextConnectBufferSize = size0, rq_nextConnectionId = conn_id\<rparr>)"

lemma arrived_snoc [simp]:
  "arrived none isWrite (cs @ [(s, w)]) = (if w = isWrite then s else arrived none isWrite cs)"
  by (induction none isWrite cs rule: arrived.induct) auto

lemma arrived_valid:
  "list_all (Imp_valid lib) cs \<Longrightarrow>
    arrived (er_InvalidSession lib) isWrite cs \<noteq> er_InvalidSession lib \<longleftrightarrow> isWrite \<in> snd ` set cs"
  by (induction cs rule: rev_induct) (auto simp: Imp_valid_def split: if_split_asm)

definition Imp_untouched :: "'s program \<Rightarrow> 's program \<Rightarrow> bool" where
  "Imp_untouched pg pg' \<longleftrightarrow> pg_rdma pg' = pg_rdma pg"

lemma new_rdma_object_rdma:
  assumes "new_rdma_object lib w r conn_id low size0 pg = Inr (t, pg')"
  shows "pg_rdma pg' = pg_rdma pg"
  using assms
  by (auto simp: new_rdma_object_def andThen_eq_Inr_iff dest!: new_object_Inr Register_Inr)

lemma new_rdma_object_object:
  assumes "new_rdma_object lib w r conn_id low size0 pg = Inr (t, pg')"
  shows "\<exists>this. mc_objects pg' t = Some (RdmaSideband this) \<and> rs_id this = conn_id \<and> sd_bufferSize this = size0 \<and>
    im_lowLatency (rs_imp this) = low \<and> im_connectedWriteSession (rs_imp this) = w \<and>
    im_connectedReadSession (rs_imp this) = r \<and> pg_buffers pg' conn_id = Some t"
  using assms
  by (auto simp: new_rdma_object_def Imp_new_def Rdma_new_def Imp_BufferSize_def andThen_eq_Inr_iff
      deref_def UsageId_def Rdma_UsageId_def dest!: new_object_Inr Register_Inr split: if_splits)

text \<open>What a session does that arrives while a request is pending.\<close>

lemma Imp_InitFromConnection_pending:
  assumes "Imp_pending lib r cs pg" and "s \<noteq> er_InvalidSession lib"
    and "Imp_InitFromConnection lib s isWrite pg = Inr (t, pg')"
  shows "if Imp_complete r (cs @ [(s, isWrite)])
    then Imp_idle pg' \<and> (case r of (strategy, conn_id, reader, writer, size0) \<Rightarrow>
      \<exists>this. mc_objects pg' t = Some (RdmaSideband this) \<and> rs_id this = conn_id \<and> sd_bufferSize this = size0 \<and>
        im_lowLatency (rs_imp this) = (strategy = RDMA_LOW_LATENCY) \<and>
        im_connectedWriteSession (rs_imp this) = arrived (er_InvalidSession lib) True (cs @ [(s, isWrite)]) \<and>
        im_connectedReadSession (rs_imp this) = arrived (er_InvalidSession lib) False (cs @ [(s, isWrite)]) \<and>
        pg_buffers pg' conn_id = Some t)
    else t = 0 \<and> Imp_pending lib r (cs @ [(s, isWrite)]) pg'"
proof -
  obtain strategy conn_id reader writer size0 where r: "r = (strategy, conn_id, reader, writer, size0)"
    by (cases r)
  let ?cs = "cs @ [(s, isWrite)]" and ?none = "er_InvalidSession lib"
  define rq where "rq = \<lparr>rq_rdmaConnectQueue = 0, rq_pendingWriteSession = arrived ?none True ?cs,
       rq_pendingReadSession = arrived ?none False ?cs,
       rq_nextConnectLowLatency = (strategy = RDMA_LOW_LATENCY),
       rq_waitForReaderConnection = reader, rq_waitForWriteConnection = writer,
       rq_nextConnectBufferSize = size0, rq_nextConnectionId = conn_id\<rparr>"
  have valid: "list_all (Imp_valid lib) ?cs"
    using assms(1,2) by (simp add: Imp_pending_def Imp_valid_def r)
  have rq: "(if isWrite then (pg_rdma pg)\<lparr>rq_pendingWriteSession := s\<rparr>
      else (pg_rdma pg)\<lparr>rq_pendingReadSession := s\<rparr>) = rq"
    using assms(1) by (simp add: Imp_pending_def r rq_def)
  have complete: "(rq_pendingWriteSession rq \<noteq> ?none \<or> \<not> rq_waitForWriteConnection rq) \<and>
      (rq_pendingReadSession rq \<noteq> ?none \<or> \<not> rq_waitForReaderConnection rq) \<longleftrightarrow> Imp_complete r ?cs"
    using arrived_valid [OF valid, of True] arrived_valid [OF valid, of False]
    unfolding rq_def by (simp only: rdma_statics.simps) (auto simp: Imp_complete_def r)
  note init = assms(3) [unfolded Imp_InitFromConnection_def rq Let_def complete]
  show ?thesis
  proof (cases "Imp_complete r ?cs")
    case True
    then obtain rd pg1 where new: "new_rdma_object lib (rq_pendingWriteSession rq) (rq_pendingReadSession rq)
        (rq_nextConnectionId rq) (rq_nextConnectLowLatency rq) (rq_nextConnectBufferSize rq)
        (pg\<lparr>pg_rdma := rq, mc_rdma := rd\<rparr>) = Inr (t, pg1)"
      and pg': "pg' = pg1\<lparr>pg_rdma := (pg_rdma pg1)
         \<lparr>rq_rdmaConnectQueue := Semaphore_notify (rq_rdmaConnectQueue (pg_rdma pg1))\<rparr>\<rparr>"
      using init by (auto simp: andThen_eq_Inr_iff)
    have "Imp_idle pg'"
      using new_rdma_object_rdma [OF new] pg'
      by (simp add: rq_def Imp_idle_def Semaphore_notify_def Semaphore_initial_def)
    then show ?thesis using True new_rdma_object_object [OF new] pg' by (simp add: r rq_def)
  next
    case False
    then show ?thesis using init valid by (auto simp: r Imp_pending_def rq_def)
  qed
qed

interpretation rdma_queue: connection_queue "Imp_queue lib" "Imp_accept lib" Imp_idle "Imp_pending lib" Imp_untouched
    Imp_complete "Imp_valid lib" for lib
proof unfold_locales
  fix r :: Imp_request and cs c and pg pg' :: "'a program"
  assume pending: "Imp_pending lib r cs pg" and "Imp_valid lib c" and "Imp_accept lib c pg = Inr pg'"
  then obtain t where "Imp_InitFromConnection lib (fst c) (snd c) pg = Inr (t, pg')" "fst c \<noteq> er_InvalidSession lib"
    by (auto simp: Imp_accept_def Imp_valid_def andThen_eq_Inr_iff)
  from Imp_InitFromConnection_pending [OF pending this(2,1)]
  show "Imp_complete r (cs @ [c]) \<Longrightarrow> Imp_idle pg'" and "\<not> Imp_complete r (cs @ [c]) \<Longrightarrow> Imp_pending lib r (cs @ [c]) pg'"
    by simp_all
qed (auto simp: Imp_queue_def Imp_QueueSidebandConnection_def Semaphore_wait_def Semaphore_initial_def
      Imp_idle_def Imp_pending_def Imp_untouched_def split: prod.splits)

end
