(* ===== verification/SocketHandshake.thy ===== *)
theory SocketHandshake
  imports ConnectQueues
begin

text \<open>
  Setting up a socket connection from both sides: the identifier that the client writes is the one
  under which the server registers the connection, and the two objects are then the ends of one
  message channel.
\<close>

section \<open>The identifier on the wire\<close>

lemma unat_of_char [simp]: "unat (of_nat (of_char c) :: byte) = of_char c"
  by (simp add: unat_of_nat)

lemma bytes_chars_inverse [simp]: "bytes_chars (chars_bytes s) = s"
  by (induction s) (simp_all add: bytes_chars_def chars_bytes_def)

lemma length_chars_bytes [simp]: "length (chars_bytes s) = length s"
  by (simp add: chars_bytes_def)

lemma So_ReadConnectionId_total:
  assumes "nt_eps net (so_socket this) = Some ep" and "length ident = ConnectIdLength"
    and "ep_in ep = chars_bytes ident @ rest" and "grants_recvs (ConnectIdLength + b) (ep_recvs ep)"
  shows "\<exists>evs. grants_recvs b evs \<and> So_ReadConnectionId this net =
    Inr (this\<lparr>so_id := ident\<rparr>, after_recv (so_socket this) ep ConnectIdLength evs net)"
proof -
  let ?n = "int ConnectIdLength" and ?dst = "replicate ConnectIdLength (0 :: byte)"
  have "0 \<le> ?n" and "nat ?n \<le> length (ep_in ep)" and "0 + nat ?n \<le> length ?dst"
    and "grants_recvs (nat ?n + b) (ep_recvs ep)"
    using assms(2-4) by simp_all
  then obtain evs where g: "grants_recvs b evs" and r: "read_loop (so_socket this) ?dst 0 ?n net =
      Inr (True, mem_write 0 (take (nat ?n) (ep_in ep)) ?dst, after_recv (so_socket this) ep (nat ?n) evs net)"
    using read_loop_total [OF assms(1), of ?n 0 ?dst b] by blast
  have "take (nat ?n) (ep_in ep) = chars_bytes ident" using assms(2,3) by simp
  moreover have "mem_write 0 (chars_bytes ident) ?dst = chars_bytes ident"
    using assms(2) by (intro mem_write_all) simp
  moreover have "sint (of_nat ConnectIdLength :: int64) = ?n" by (simp add: ConnectIdLength_eq)
  ultimately show ?thesis using g r
    by (auto simp: So_ReadConnectionId_def So_ReadFromSocket_def)
qed

section \<open>The client's side\<close>

definition fresh_endpoint :: "nat \<Rightarrow> io_event list \<Rightarrow> endpoint" where
  "fresh_endpoint peer plan =
     \<lparr>ep_peer = peer, ep_in = [], ep_eof = False, ep_sends = plan, ep_recvs = plan\<rparr>"

lemma connect_loop_first:
  assumes "nt_reachable net addr" and "0 < nt_next_fd net" and "nt_next_fd net < nt_fd_limit net"
  shows "connect_loop (addr # addrs) sock net = (nt_next_fd net,
    net\<lparr>nt_next_fd := Suc (Suc (nt_next_fd net)), nt_backlog := nt_backlog net @ [Suc (nt_next_fd net)],
      nt_eps := (nt_eps net)(nt_next_fd net \<mapsto> fresh_endpoint (Suc (nt_next_fd net)) (nt_plan net),
        Suc (nt_next_fd net) \<mapsto> fresh_endpoint (nt_next_fd net) (nt_plan net))\<rparr>)"
  using assms by (simp add: sys_socket_def sys_connect_def INVALID_SOCKET_def fresh_endpoint_def Let_def)

text \<open>
  After \<open>ConnectToSocket\<close> the client's end has sent the identifier and nothing else; the far end
  waits to be accepted.
\<close>

lemma So_ConnectToSocket_total:
  assumes resolve: "nt_resolve net a p = Some (addr # addrs)" and reach: "nt_reachable net addr"
    and fds: "0 < nt_next_fd net" "nt_next_fd net < nt_fd_limit net"
    and len: "length ident < 2 ^ 63" and grants: "grants_sends (length ident + b) (nt_plan net)"
  shows "\<exists>evs net'. grants_sends b evs \<and>
    So_ConnectToSocket this a p ident low net = Inr (this\<lparr>so_socket := nt_next_fd net\<rparr>, net') \<and>
    nt_backlog net' = nt_backlog net @ [Suc (nt_next_fd net)] \<and>
    nt_eps net' (nt_next_fd net) = Some ((fresh_endpoint (Suc (nt_next_fd net)) (nt_plan net))\<lparr>ep_sends := evs\<rparr>) \<and>
    nt_eps net' (Suc (nt_next_fd net)) = Some ((fresh_endpoint (nt_next_fd net) (nt_plan net))\<lparr>ep_in := chars_bytes ident\<rparr>)"
proof -
  let ?fd = "nt_next_fd net" and ?n = "int (length ident)"
  let ?ep = "fresh_endpoint (Suc ?fd) (nt_plan net)" and ?p = "fresh_endpoint ?fd (nt_plan net)"
  let ?net = "net\<lparr>nt_next_fd := Suc (Suc ?fd), nt_backlog := nt_backlog net @ [Suc ?fd],
      nt_eps := (nt_eps net)(?fd \<mapsto> ?ep, Suc ?fd \<mapsto> ?p)\<rparr>"
  let ?net' = "if low then sys_set_nodelay ?fd ?net else ?net"
  have conn: "connected ?fd ?ep ?p ?net'"
    by (simp add: connected_def fresh_endpoint_def sys_set_nodelay_def)
  have sends: "grants_sends (nat ?n + b) (ep_sends ?ep)" using grants by (simp add: fresh_endpoint_def)
  obtain evs where g: "grants_sends b evs" and w: "write_loop ?fd (chars_bytes ident) ?n ?net' =
      Inr (True, after_send ?fd ?ep ?p (take (nat ?n) (chars_bytes ident)) evs ?net')"
    using write_loop_total [OF conn, of ?n "chars_bytes ident" b] sends by auto
  let ?net2 = "after_send ?fd ?ep ?p (chars_bytes ident) evs ?net'"
  have "So_ConnectToSocket this a p ident low net = Inr (this\<lparr>so_socket := ?fd\<rparr>, ?net2)"
    using resolve connect_loop_first [OF reach fds] w fds(1) len
    by (simp add: So_ConnectToSocket_def So_WriteToSocket_def INVALID_SOCKET_def Let_def)
  moreover have "nt_backlog ?net2 = nt_backlog net @ [Suc ?fd]" "nt_eps ?net2 ?fd = Some (?ep\<lparr>ep_sends := evs\<rparr>)"
    "nt_eps ?net2 (Suc ?fd) = Some (?p\<lparr>ep_in := chars_bytes ident\<rparr>)"
    by (simp_all add: after_send_def sys_set_nodelay_def fresh_endpoint_def)
  ultimately show ?thesis using g by blast
qed

section \<open>The server's side\<close>

lemma So_InitFromConnection_total:
  assumes ep: "nt_eps (mc_net pg) sock = Some ep" and len: "length ident = ConnectIdLength"
    and bytes: "ep_in ep = chars_bytes ident" and g: "grants_recvs (ConnectIdLength + b) (ep_recvs ep)"
    and addr: "mc_next pg \<noteq> 0" "mc_next pg + 1 \<noteq> 0" and free: "pg_buffers pg ident = None"
  shows "\<exists>evs pg'. grants_recvs b evs \<and> So_InitFromConnection sock pg = Inr (mc_next pg, pg') \<and>
    mc_objects pg' (mc_next pg) = Some (SocketSideband
      ((So_new_accepted sock (sq_nextConnectBufferSize (pg_sockets pg)) (sq_nextConnectLowLatency (pg_sockets pg)))
        \<lparr>so_id := ident\<rparr>)) \<and>
    pg_buffers pg' = (pg_buffers pg)(ident \<mapsto> mc_next pg) \<and>
    nt_eps (mc_net pg') = (nt_eps (mc_net pg))(sock \<mapsto> ep\<lparr>ep_in := [], ep_recvs := evs\<rparr>)"
proof -
  let ?sq = "pg_sockets pg" and ?t = "mc_next pg"
  let ?net = "if sq_nextConnectLowLatency ?sq then sys_set_nodelay sock (mc_net pg) else mc_net pg"
  let ?obj = "So_new_accepted sock (sq_nextConnectBufferSize ?sq) (sq_nextConnectLowLatency ?sq)"
  have "nt_eps ?net (so_socket ?obj) = Some ep" using ep by (simp add: So_new_accepted_def sys_set_nodelay_def)
  then obtain evs where g': "grants_recvs b evs" and read: "So_ReadConnectionId ?obj ?net =
      Inr (?obj\<lparr>so_id := ident\<rparr>, after_recv (so_socket ?obj) ep ConnectIdLength evs ?net)"
    using So_ReadConnectionId_total [of ?net ?obj ep ident "[]" b] len bytes g by auto
  have sock: "so_socket ?obj = sock" by (simp add: So_new_accepted_def)
  have drop: "drop ConnectIdLength (ep_in ep) = []" using bytes len by simp
  let ?pg = "pg\<lparr>mc_net := after_recv sock ep ConnectIdLength evs ?net,
      mc_objects := (mc_objects pg)(?t \<mapsto> SocketSideband (?obj\<lparr>so_id := ident\<rparr>)), mc_next := ?t + 1,
      pg_buffers := (pg_buffers pg)(ident \<mapsto> ?t),
      pg_sockets := ?sq\<lparr>sq_connectQueue := Semaphore_notify (sq_connectQueue ?sq)\<rparr>\<rparr>"
  have "So_InitFromConnection sock pg = Inr (?t, ?pg)"
    using read addr free sock
    by (cases "sq_nextConnectLowLatency ?sq")
      (simp_all add: So_InitFromConnection_def new_object_def RegisterSidebandData_def deref_def UsageId_def
        So_UsageId_def emplace_def Let_def)
  then show ?thesis using g' drop
    by (auto simp: after_recv_def sys_set_nodelay_def)
qed

section \<open>Both sides\<close>

text \<open>The objects that a client and the server have when both have returned.\<close>

lemma socket_handshake_objects:
  assumes "SplitUrlString url = [a, p]"
    and "nt_resolve (mc_net c) a p = Some (addr # addrs)" and "nt_reachable (mc_net c) addr"
    and "0 < nt_next_fd (mc_net c)" and "nt_next_fd (mc_net c) < nt_fd_limit (mc_net c)"
    and "nt_backlog (mc_net c) = []"
    and "grants_sends (ConnectIdLength + b) (nt_plan (mc_net c))"
    and "grants_recvs (ConnectIdLength + b) (nt_plan (mc_net c))"
    and "length ident = ConnectIdLength" and "So_pending (strategy, ident, size0) s"
    and "pg_buffers s ident = None"
    and "mc_next c + 1 \<noteq> 0" and "mc_next s \<noteq> 0" and "mc_next s + 1 \<noteq> 0"
  shows "\<exists>w r c' s'. So_ClientInit url ident csize low c = Inr (mc_next c, c') \<and>
    accept_loop sockfd (Readable # evs) (s\<lparr>mc_net := mc_net c'\<rparr>) = accept_loop sockfd evs s' \<and> So_idle s' \<and>
    w = (So_new ident csize low)\<lparr>so_socket := nt_next_fd (mc_net c)\<rparr> \<and>
    r = (So_new_accepted (Suc (nt_next_fd (mc_net c))) size0 (strategy = SOCKETS_LOW_LATENCY))\<lparr>so_id := ident\<rparr> \<and>
    mc_objects c' (mc_next c) = Some (SocketSideband w) \<and> mc_objects s' (mc_next s) = Some (SocketSideband r) \<and>
    pg_buffers c' = pg_buffers c \<and> pg_buffers s' = (pg_buffers s)(ident \<mapsto> mc_next s) \<and>
    So_channel w r b b (mc_net s') [] \<and> So_channel r w b b (mc_net s') []"
proof -
  let ?net = "mc_net c" and ?fd = "nt_next_fd (mc_net c)" and ?w = "So_new ident csize low"
  let ?plan = "nt_plan ?net" and ?far = "Suc (nt_next_fd (mc_net c))"
  have ident: "length ident < 2 ^ 63" "grants_sends (length ident + b) ?plan"
    using assms(7,9) by (simp_all add: ConnectIdLength_eq)
  obtain evs1 net1 where g1: "grants_sends b evs1"
    and conn: "So_ConnectToSocket ?w a p ident low ?net = Inr (?w\<lparr>so_socket := ?fd\<rparr>, net1)"
    and backlog: "nt_backlog net1 = [?far]"
    and ep: "nt_eps net1 ?fd = Some ((fresh_endpoint ?far ?plan)\<lparr>ep_sends := evs1\<rparr>)"
    and far: "nt_eps net1 ?far = Some ((fresh_endpoint ?fd ?plan)\<lparr>ep_in := chars_bytes ident\<rparr>)"
    using So_ConnectToSocket_total [OF assms(2-5) ident, of ?w low] assms(6) by auto
  let ?w' = "?w\<lparr>so_socket := ?fd\<rparr>" and ?tc = "mc_next c"
  let ?c = "c\<lparr>mc_net := net1, mc_objects := (mc_objects c)(?tc \<mapsto> SocketSideband ?w'), mc_next := ?tc + 1\<rparr>"
  have client: "So_ClientInit url ident csize low c = Inr (?tc, ?c)"
    using assms(1,12) conn by (simp add: So_ClientInit_def new_object_def)
  let ?s = "s\<lparr>mc_net := net1\<lparr>nt_backlog := []\<rparr>\<rparr>" and ?far_ep = "(fresh_endpoint ?fd ?plan)\<lparr>ep_in := chars_bytes ident\<rparr>"
  have pre: "nt_eps (mc_net ?s) ?far = Some ?far_ep" "ep_in ?far_ep = chars_bytes ident"
    "grants_recvs (ConnectIdLength + b) (ep_recvs ?far_ep)" "mc_next ?s \<noteq> 0" "mc_next ?s + 1 \<noteq> 0"
    "pg_buffers ?s ident = None"
    using far assms by (simp_all add: fresh_endpoint_def)
  obtain evs2 s' where g2: "grants_recvs b evs2" and init: "So_InitFromConnection ?far ?s = Inr (mc_next ?s, s')"
    and obj: "mc_objects s' (mc_next ?s) = Some (SocketSideband
      ((So_new_accepted ?far (sq_nextConnectBufferSize (pg_sockets ?s)) (sq_nextConnectLowLatency (pg_sockets ?s)))
        \<lparr>so_id := ident\<rparr>))"
    and reg: "pg_buffers s' = (pg_buffers ?s)(ident \<mapsto> mc_next ?s)"
    and eps: "nt_eps (mc_net s') = (nt_eps (mc_net ?s))(?far \<mapsto> ?far_ep\<lparr>ep_in := [], ep_recvs := evs2\<rparr>)"
    using So_InitFromConnection_total [OF pre(1) assms(9) pre(2-6)] by blast
  let ?r = "(So_new_accepted ?far size0 (strategy = SOCKETS_LOW_LATENCY))\<lparr>so_id := ident\<rparr>"
  have sq: "pg_sockets s = \<lparr>sq_connectQueue = 0, sq_nextConnectLowLatency = (strategy = SOCKETS_LOW_LATENCY),
       sq_nextConnectBufferSize = size0, sq_nextConnectionId = ident\<rparr>"
    using assms(10) by (simp add: So_pending_def)
  have accept: "accept_loop sockfd (Readable # evs) (s\<lparr>mc_net := mc_net ?c\<rparr>) = accept_loop sockfd evs s'"
    using backlog init by simp
  have idle: "So_idle s'"
    using So_InitFromConnection_sockets [OF init] sq
    by (simp add: So_idle_def Semaphore_notify_def Semaphore_initial_def)
  have less: "grants_sends b ?plan" "grants_recvs b ?plan"
    using assms(7,8) by (auto intro: grants_sends_less grants_recvs_less)
  have chans: "So_channel ?w' ?r b b (mc_net s') []" "So_channel ?r ?w' b b (mc_net s') []"
    using ep eps g1 g2 less
    by (auto simp: So_channel_def connected_def So_new_accepted_def fresh_endpoint_def)
  then show ?thesis
    using client accept idle obj reg sq
    by (intro exI [of _ ?w'] exI [of _ ?r] exI [of _ ?c] exI [of _ s']) (simp add: So_new_accepted_def)
qed

section \<open>Properties of the handshake\<close>

text \<open>
  C5. A client that connects while the server's request for its identifier is pending: both sides
  return, the server registers the accepted connection under exactly that identifier with the queued
  buffer size, \<open>GetOwnerSidebandDataToken\<close> then returns it, the next request can be queued, and the
  two objects are the ends of a message channel in both directions.
\<close>

theorem socket_handshake:
  assumes "SplitUrlString url = [a, p]"
    and "nt_resolve (mc_net c) a p = Some (addr # addrs)" and "nt_reachable (mc_net c) addr"
    and "0 < nt_next_fd (mc_net c)" and "nt_next_fd (mc_net c) < nt_fd_limit (mc_net c)"
    and "nt_backlog (mc_net c) = []"
    and "grants_sends (ConnectIdLength + b) (nt_plan (mc_net c))"
    and "grants_recvs (ConnectIdLength + b) (nt_plan (mc_net c))"
    and "length ident = ConnectIdLength" and "So_pending (strategy, ident, size0) s"
    and "pg_buffers s ident = None"
    and "mc_next c + 1 \<noteq> 0" and "mc_next s \<noteq> 0" and "mc_next s + 1 \<noteq> 0"
  shows "\<exists>tc c' ts s' w r. So_ClientInit url ident csize low c = Inr (tc, c') \<and>
    accept_loop sockfd (Readable # evs) (s\<lparr>mc_net := mc_net c'\<rparr>) = accept_loop sockfd evs s' \<and>
    GetOwnerSidebandDataToken ident s' = Inr (0, ts) \<and> So_idle s' \<and>
    mc_objects c' tc = Some (SocketSideband w) \<and> mc_objects s' ts = Some (SocketSideband r) \<and>
    sd_bufferSize r = size0 \<and> so_lowLatency r = (strategy = SOCKETS_LOW_LATENCY) \<and>
    So_channel w r b b (mc_net s') [] \<and> So_channel r w b b (mc_net s') []"
proof -
  obtain w r c' s' where "So_ClientInit url ident csize low c = Inr (mc_next c, c')"
    and "accept_loop sockfd (Readable # evs) (s\<lparr>mc_net := mc_net c'\<rparr>) = accept_loop sockfd evs s'" and "So_idle s'"
    and r: "r = (So_new_accepted (Suc (nt_next_fd (mc_net c))) size0 (strategy = SOCKETS_LOW_LATENCY))\<lparr>so_id := ident\<rparr>"
    and "mc_objects c' (mc_next c) = Some (SocketSideband w)" and "mc_objects s' (mc_next s) = Some (SocketSideband r)"
    and reg: "pg_buffers s' = (pg_buffers s)(ident \<mapsto> mc_next s)"
    and "So_channel w r b b (mc_net s') []" and "So_channel r w b b (mc_net s') []"
    using socket_handshake_objects [OF assms, of csize low sockfd evs] by blast
  moreover have "GetOwnerSidebandDataToken ident s' = Inr (0, mc_next s)"
    using reg by (simp add: GetOwnerSidebandDataToken_def)
  moreover have "sd_bufferSize r = size0" "so_lowLatency r = (strategy = SOCKETS_LOW_LATENCY)"
    using r by (simp_all add: So_new_accepted_def)
  ultimately show ?thesis by blast
qed

text \<open>A program at its start, with a server reachable at address 7 under port 50055.\<close>

definition example_program :: "nat \<Rightarrow> io_event list \<Rightarrow> fifo program" where
  "example_program fd plan = \<lparr>mc_objects = Map.empty, mc_next = 1, mc_shm = posix_init 16 4096 65536,
     mc_net = \<lparr>nt_eps = Map.empty, nt_nodelay = [],
       nt_resolve = (\<lambda>a p. if a = ''host'' \<and> p = ''50055'' then Some [7] else None),
       nt_reachable = (\<lambda>addr. addr = 7), nt_next_fd = fd, nt_fd_limit = 16, nt_plan = plan, nt_backlog = [],
       nt_bound = Map.empty, nt_bindable = (\<lambda>_. True), nt_ephemeral = 40000\<rparr>,
     mc_rdma = fifo_start 2,
     pg_buffers = Map.empty, pg_nextId = initial_nextId, pg_config = \<lparr>sc_address = '''', sc_port = 0\<rparr>,
     pg_interfaces = [''10.0.0.1''],
     pg_sockets = \<lparr>sq_connectQueue = Semaphore_initial, sq_nextConnectLowLatency = False,
       sq_nextConnectBufferSize = 0, sq_nextConnectionId = ''''\<rparr>,
     pg_rdma = \<lparr>rq_rdmaConnectQueue = Semaphore_initial, rq_pendingWriteSession = 0, rq_pendingReadSession = 0,
       rq_nextConnectLowLatency = False, rq_waitForReaderConnection = False, rq_waitForWriteConnection = False,
       rq_nextConnectBufferSize = 0, rq_nextConnectionId = ''''\<rparr>\<rparr>"

definition example_pending :: "fifo program" where
  "example_pending = (example_program 3 [])\<lparr>pg_sockets := \<lparr>sq_connectQueue = 0, sq_nextConnectLowLatency = False,
     sq_nextConnectBufferSize = 64, sq_nextConnectionId = ''ID:         2''\<rparr>\<rparr>"

lemma grants_recvs_transfers: "m \<le> n \<Longrightarrow> grants_recvs m (replicate n (Transfer 0))"
proof (induction m arbitrary: n)
  case (Suc m)
  then show ?case by (cases n) auto
qed simp

theorem socket_handshake_witness:
  "\<exists>tc c' ts s' w r. So_ClientInit ''host:50055'' ''ID:         2'' 64 True (example_program 3 (replicate 100 (Transfer 0))) =
      Inr (tc, c') \<and>
    accept_loop 3 [Readable, StopFlag] (example_pending\<lparr>mc_net := mc_net c'\<rparr>) = accept_loop 3 [StopFlag] s' \<and>
    GetOwnerSidebandDataToken ''ID:         2'' s' = Inr (0, ts) \<and> So_idle s' \<and>
    mc_objects c' tc = Some (SocketSideband w) \<and> mc_objects s' ts = Some (SocketSideband r) \<and>
    sd_bufferSize r = 64 \<and> so_lowLatency r = (SOCKETS = SOCKETS_LOW_LATENCY) \<and>
    So_channel w r 50 50 (mc_net s') [] \<and> So_channel r w 50 50 (mc_net s') []"
proof (rule socket_handshake)
  show "SplitUrlString ''host:50055'' = [''host'', ''50055'']" by (simp add: SplitUrlString.simps)
  show "nt_resolve (mc_net (example_program 3 (replicate 100 (Transfer 0)))) ''host'' ''50055'' = Some [7]"
    by (simp add: example_program_def)
  show "So_pending (SOCKETS, ''ID:         2'', 64) example_pending"
    by (simp add: So_pending_def example_pending_def)
qed (simp_all add: example_program_def example_pending_def ConnectIdLength_eq grants_sends_replicate
    grants_recvs_transfers)

text \<open>
  C19. As long as every accepted connection answers a queued request, requests are served one at a
  time, and none is forgotten: \<open>QueueSidebandConnection\<close> waits from the moment a request is queued until a
  connection is accepted. The object of that connection has the size and the latency of the request, and the
  next request is let in.
\<close>

theorem socket_requests_one_at_a_time:
  assumes "served So_queue So_accept So_idle So_untouched So_complete (\<lambda>sock. True) p pg"
  shows "case p of
      None \<Rightarrow> \<exists>pg'. So_queue later pg = Inr pg' \<and> So_pending later pg'
    | Some ((strategy, ident, size0), socks) \<Rightarrow> So_queue later pg = Inl Blocks \<and>
        (\<forall>sock t pg'. So_InitFromConnection sock pg = Inr (t, pg') \<longrightarrow>
          (\<exists>this. mc_objects pg' t = Some (SocketSideband this) \<and> so_socket this = sock \<and> sd_bufferSize this = size0 \<and>
            so_lowLatency this = (strategy = SOCKETS_LOW_LATENCY) \<and> pg_buffers pg' (so_id this) = Some t) \<and>
          (\<exists>pg''. So_queue later pg' = Inr pg'' \<and> So_pending later pg''))"
proof (cases p)
  case None
  then show ?thesis using socket_queue.served_none [OF assms [unfolded None], of later] None by simp
next
  case (Some rc)
  then obtain strategy ident size0 socks where p: "p = Some ((strategy, ident, size0), socks)"
    by (cases rc) auto
  let ?r = "(strategy, ident, size0)"
  have hist: "served So_queue So_accept So_idle So_untouched So_complete (\<lambda>sock. True) (Some (?r, socks)) pg"
    using assms p by simp
  have pending: "So_pending ?r pg" "So_queue later pg = Inl Blocks"
    using socket_queue.served_waits [OF hist] by blast+
  have "(\<exists>this. mc_objects pg' t = Some (SocketSideband this) \<and> so_socket this = sock \<and> sd_bufferSize this = size0 \<and>
            so_lowLatency this = (strategy = SOCKETS_LOW_LATENCY) \<and> pg_buffers pg' (so_id this) = Some t) \<and>
          (\<exists>pg''. So_queue later pg' = Inr pg'' \<and> So_pending later pg'')"
    if init: "So_InitFromConnection sock pg = Inr (t, pg')" for sock t pg'
  proof -
    have "So_accept sock pg = Inr pg'" using init by (simp add: So_accept_def)
    from socket_queue.served_next [OF hist TrueI this, of "later"] So_InitFromConnection_object [OF init]
    show ?thesis using pending(1) by (simp add: So_complete_def So_pending_def)
  qed
  then show ?thesis using pending(2) p by simp
qed

text \<open>A server with one connection, on which an identifier has arrived.\<close>

definition example_connected :: "fifo program" where
  "example_connected = (example_program 5 [])\<lparr>mc_net := (mc_net (example_program 5 []))\<lparr>nt_eps :=
     [4 \<mapsto> (fresh_endpoint 5 (replicate 100 (Transfer 0)))\<lparr>ep_in := chars_bytes ''ID:         9''\<rparr>]\<rparr>\<rparr>"

lemma example_connected_init:
  "\<exists>pg'. So_InitFromConnection 4 (example_connected\<lparr>pg_sockets := sq\<rparr>) = Inr (1, pg')"
  using So_InitFromConnection_total [of "example_connected\<lparr>pg_sockets := sq\<rparr>" 4
      "(fresh_endpoint 5 (replicate 100 (Transfer 0)))\<lparr>ep_in := chars_bytes ''ID:         9''\<rparr>" "''ID:         9''" 0]
    grants_recvs_transfers [of 13 100]
  by (auto simp: example_connected_def example_program_def ConnectIdLength_eq fresh_endpoint_def)

theorem socket_requests_one_at_a_time_witness:
  "\<exists>pg1 pg2 pg3 this. So_queue (SOCKETS, ''ID:         9'', 64) example_connected = Inr pg1 \<and>
    So_queue (SOCKETS, ''ID:         3'', 32) pg1 = Inl Blocks \<and> So_InitFromConnection 4 pg1 = Inr (1, pg2) \<and>
    mc_objects pg2 1 = Some (SocketSideband this) \<and> sd_bufferSize this = 64 \<and> pg_buffers pg2 (so_id this) = Some 1 \<and>
    So_queue (SOCKETS, ''ID:         3'', 32) pg2 = Inr pg3 \<and> So_pending (SOCKETS, ''ID:         3'', 32) pg3"
proof -
  let ?r = "(SOCKETS, ''ID:         9'', 64)"
  obtain pg1 where queued: "So_queue ?r example_connected = Inr pg1"
    and pg1: "pg1 = example_connected\<lparr>pg_sockets := pg_sockets pg1\<rparr>"
    by (simp add: So_queue_def So_QueueSidebandConnection_def Semaphore_wait_def Semaphore_initial_def
        example_connected_def example_program_def)
  have "served So_queue So_accept So_idle So_untouched So_complete (\<lambda>sock. True) None example_connected"
    by (rule served_start) (simp add: example_connected_def example_program_def So_idle_def)
  then have hist: "served So_queue So_accept So_idle So_untouched So_complete (\<lambda>sock. True) (Some (?r, [])) pg1"
    using queued by (rule served_queue)
  obtain pg2 where init: "So_InitFromConnection 4 pg1 = Inr (1, pg2)"
    using example_connected_init [of "pg_sockets pg1"] pg1 by auto
  show ?thesis
    using socket_requests_one_at_a_time [OF hist, of "(SOCKETS, ''ID:         3'', 32)"] queued init
    by simp blast
qed

section \<open>The port\<close>

lemma start_listening_binds:
  assumes "start_listening address port pg = (sockfd, pg')" and "0 \<le> sockfd"
  shows "pg_config pg' = \<lparr>sc_address = address, sc_port = port\<rparr>"
    and "nt_bound (mc_net pg') (if word_of_int port = (0 :: 16 word) then nt_ephemeral (mc_net pg) else word_of_int port) =
      Some (nat sockfd)"
  using assms
  by (auto simp: start_listening_def sys_socket_def sys_bind_def Let_def split: if_split_asm)



text \<open>
  Outside these bounds it does not lead there. On port 0 the kernel chooses, and the server reports 50055
  all the same; of a larger port \<open>htons\<close> keeps the low 16 bits, and the server reports the whole number.
\<close>

theorem reported_port_is_not_bound:
  assumes "start_listening address port pg = (sockfd, pg')" and "0 \<le> sockfd"
    and "address \<noteq> []" and "CHR '':'' \<notin> set address" and "port = 0 \<or> 2 ^ 16 \<le> port \<and> port < 2 ^ 31"
    and "strategy = SOCKETS \<or> strategy = SOCKETS_LOW_LATENCY"
  shows "\<exists>url token n. GetConnectionAddress (pg_config pg') (pg_interfaces pg') strategy = Inr url \<and>
      SplitUrlString url = [address, token] \<and> stoi token = Inr n \<and>
      (if port = 0 then n = 50055 \<and> nt_bound (mc_net pg') (nt_ephemeral (mc_net pg)) = Some (nat sockfd)
       else 2 ^ 16 \<le> n)"
proof -
  have cfg: "pg_config pg' = \<lparr>sc_address = address, sc_port = port\<rparr>"
    by (rule start_listening_binds(1) [OF assms(1,2)])
  have "GetSocketsAddress (pg_config pg') (pg_interfaces pg') = Inr address"
    using assms(3) cfg by (simp add: GetSocketsAddress_def)
  moreover have "sc_port (pg_config pg') < 2 ^ 31" using cfg assms(5) by auto
  ultimately obtain url token where "GetConnectionAddress (pg_config pg') (pg_interfaces pg') strategy = Inr url"
    "SplitUrlString url = [address, token]" "stoi token = Inr (sockets_port (pg_config pg'))"
    using GetConnectionAddress_splits [of "pg_config pg'" "pg_interfaces pg'" address _ strategy] assms(4,6) by auto
  then show ?thesis using start_listening_binds(2) [OF assms(1,2)] cfg assms(5) by (auto simp: sockets_port_def)
qed

text \<open>
  A connection that nobody queued breaks this: accepting it lets a further request in, so that
  two can be queued and the second overwrites the settings of the first before its connection comes.
\<close>

theorem socket_unqueued_connection:
  assumes "So_idle pg" and "So_InitFromConnection sock pg = Inr (t, pg0)"
  shows "\<exists>pg1 pg2. So_queue r1 pg0 = Inr pg1 \<and> So_queue r2 pg1 = Inr pg2 \<and> So_pending r2 pg2"
proof -
  have "sq_connectQueue (pg_sockets pg0) = 2"
    using So_InitFromConnection_sockets [OF assms(2)] assms(1)
    by (simp add: So_idle_def Semaphore_notify_def Semaphore_initial_def)
  then show ?thesis
    by (cases r1; cases r2)
      (simp add: So_queue_def So_QueueSidebandConnection_def Semaphore_wait_def So_pending_def)
qed

theorem socket_unqueued_connection_witness:
  "\<exists>t pg0 pg1 pg2. So_InitFromConnection 4 example_connected = Inr (t, pg0) \<and>
    So_queue (SOCKETS, ''ID:         2'', 64) pg0 = Inr pg1 \<and>
    So_queue (SOCKETS, ''ID:         3'', 32) pg1 = Inr pg2 \<and> So_pending (SOCKETS, ''ID:         3'', 32) pg2"
proof -
  obtain pg0 where init: "So_InitFromConnection 4 example_connected = Inr (1, pg0)"
    using example_connected_init [of "pg_sockets example_connected"] by auto
  have "So_idle example_connected" by (simp add: So_idle_def example_connected_def example_program_def)
  then show ?thesis
    using socket_unqueued_connection [OF _ init, of "(SOCKETS, ''ID:         2'', 64)" "(SOCKETS, ''ID:         3'', 32)"]
      init by blast
qed

text \<open>
  A client that cannot resolve the server's address is told nothing: \<open>ClientInit\<close> returns an
  object, whose socket is descriptor 0; what is written to it fails or goes wherever descriptor 0
  leads.
\<close>

theorem socket_connect_failure_silent:
  assumes "SplitUrlString url = [a, p]" and "nt_resolve (mc_net c) a p = None" and "mc_next c + 1 \<noteq> 0"
  shows "\<exists>c' w. So_ClientInit url ident size0 low c = Inr (mc_next c, c') \<and>
    mc_objects c' (mc_next c) = Some (SocketSideband w) \<and> so_id w = ident \<and> so_socket w = 0 \<and>
    mc_net c' = mc_net c"
  using assms
  by (simp add: So_ClientInit_def new_object_def So_ConnectToSocket_def So_new_def INVALID_SOCKET_def)

theorem socket_connect_failure_silent_witness:
  "\<exists>c' w. So_ClientInit ''nohost:1'' ''ID:         2'' 64 False (example_program 3 []) =
      Inr (mc_next (example_program 3 []), c') \<and>
    mc_objects c' (mc_next (example_program 3 [])) = Some (SocketSideband w) \<and> so_id w = ''ID:         2'' \<and>
    so_socket w = 0 \<and> mc_net c' = mc_net (example_program 3 [])"
  by (rule socket_connect_failure_silent [where a = "''nohost''" and p = "''1''"])
    (simp_all add: SplitUrlString.simps example_program_def)

end
