(* ===== verification/RdmaHandshake.thy ===== *)
theory RdmaHandshake
  imports SocketHandshake
begin

text \<open>
  Setting up an RDMA connection from the server's side: its two sessions arrive on two listeners, in
  any order, and together they answer the queued request. What the library does in between is a
  parameter; \<open>setup_works\<close> says that its setup calls return.
\<close>

section \<open>Library calls that return\<close>

definition setup_works :: "'s easyrdma \<Rightarrow> bool" where
  "setup_works lib \<longleftrightarrow>
     (\<forall>s n k rd. \<exists>e rd'. er_ConfigureBuffers lib s n k rd = Inr (e, rd')) \<and>
     (\<forall>s b rd. \<exists>rd'. er_SetUseRxPolling lib s b rd = Inr (er_Error_Success lib, rd'))"

lemma Imp_new_returns:
  assumes "setup_works lib"
  shows "\<exists>imp rd'. Imp_new lib w r low size0 rd = Inr (imp, rd') \<and> im_connectedWriteSession imp = w \<and>
    im_connectedReadSession imp = r \<and> im_lowLatency imp = low \<and> im_bufferSize imp = size0"
proof -
  obtain e1 rd1 where 1: "er_ConfigureBuffers lib w size0 2 rd = Inr (e1, rd1)"
    using assms unfolding setup_works_def by blast
  obtain e2 rd2 where 2: "er_ConfigureBuffers lib r size0 2 rd1 = Inr (e2, rd2)"
    using assms unfolding setup_works_def by blast
  show ?thesis using 1 2 by (simp add: Imp_new_def)
qed

text \<open>The object is made and registered, unless its identifier is in use.\<close>

lemma new_rdma_object_registers:
  assumes "setup_works lib" and "mc_next pg \<noteq> 0" and "mc_next pg + 1 \<noteq> 0" and "pg_buffers pg ident = None"
  shows "\<exists>pg' this. new_rdma_object lib w r ident low size0 pg = Inr (mc_next pg, pg') \<and>
    mc_objects pg' (mc_next pg) = Some (RdmaSideband this) \<and> rs_id this = ident \<and>
    sd_bufferSize this = size0 \<and> im_connectedWriteSession (rs_imp this) = w \<and>
    im_connectedReadSession (rs_imp this) = r \<and> pg_buffers pg' = (pg_buffers pg)(ident \<mapsto> mc_next pg) \<and>
    mc_next pg' = mc_next pg + 1"
proof -
  obtain imp rd' where imp: "Imp_new lib w r low size0 (mc_rdma pg) = Inr (imp, rd')"
    "im_connectedWriteSession imp = w" "im_connectedReadSession imp = r" "im_bufferSize imp = size0"
    using Imp_new_returns [OF assms(1)] by blast
  then show ?thesis using assms(2-4)
    by (simp add: new_rdma_object_def new_object_def RegisterSidebandData_def deref_def UsageId_def
        Rdma_UsageId_def Rdma_new_def Imp_BufferSize_def emplace_def)
qed

lemma new_rdma_object_duplicate:
  assumes "setup_works lib" and "mc_next pg \<noteq> 0" and "mc_next pg + 1 \<noteq> 0" and "pg_buffers pg ident \<noteq> None"
  shows "new_rdma_object lib w r ident low size0 pg = Inl AssertionFailed"
proof -
  obtain imp rd' where imp: "Imp_new lib w r low size0 (mc_rdma pg) = Inr (imp, rd')"
    using Imp_new_returns [OF assms(1)] by blast
  then show ?thesis using assms(2-4)
    by (simp add: new_rdma_object_def new_object_def RegisterSidebandData_def deref_def UsageId_def
        Rdma_UsageId_def Rdma_new_def)
qed

section \<open>Completing a request\<close>

text \<open>All sessions that were asked for are there.\<close>

definition sessions_complete :: "'s easyrdma \<Rightarrow> rdma_statics \<Rightarrow> bool" where
  "sessions_complete lib rq \<longleftrightarrow>
     (rq_pendingWriteSession rq \<noteq> er_InvalidSession lib \<or> \<not> rq_waitForWriteConnection rq) \<and>
     (rq_pendingReadSession rq \<noteq> er_InvalidSession lib \<or> \<not> rq_waitForReaderConnection rq)"

definition with_session :: "session \<Rightarrow> bool \<Rightarrow> rdma_statics \<Rightarrow> rdma_statics" where
  "with_session s isWrite rq =
     (if isWrite then rq\<lparr>rq_pendingWriteSession := s\<rparr> else rq\<lparr>rq_pendingReadSession := s\<rparr>)"

lemma Init_incomplete:
  assumes "\<not> sessions_complete lib (with_session s isWrite (pg_rdma pg))"
  shows "Imp_InitFromConnection lib s isWrite pg = Inr (0, pg\<lparr>pg_rdma := with_session s isWrite (pg_rdma pg)\<rparr>)"
  using assms
  by (auto simp: Imp_InitFromConnection_def sessions_complete_def with_session_def Let_def)

lemma Init_complete:
  assumes works: "setup_works lib" and complete: "sessions_complete lib (with_session s isWrite (pg_rdma pg))"
  shows "\<exists>rd. Imp_InitFromConnection lib s isWrite pg =
    (let rq = with_session s isWrite (pg_rdma pg) in
     andThen (new_rdma_object lib (rq_pendingWriteSession rq) (rq_pendingReadSession rq) (rq_nextConnectionId rq)
         (rq_nextConnectLowLatency rq) (rq_nextConnectBufferSize rq) (pg\<lparr>pg_rdma := rq, mc_rdma := rd\<rparr>))
       (\<lambda>(t, pg). Inr (t, pg\<lparr>pg_rdma := (pg_rdma pg)
         \<lparr>rq_rdmaConnectQueue := Semaphore_notify (rq_rdmaConnectQueue (pg_rdma pg))\<rparr>\<rparr>)))"
proof -
  let ?rq = "with_session s isWrite (pg_rdma pg)"
  obtain rd' where "er_SetUseRxPolling lib (rq_pendingReadSession ?rq) True (mc_rdma pg) =
      Inr (er_Error_Success lib, rd')"
    using works unfolding setup_works_def by blast
  then show ?thesis
    using complete
    by (intro exI [of _ "if rq_nextConnectLowLatency ?rq \<and> rq_pendingReadSession ?rq \<noteq> er_InvalidSession lib
        then rd' else mc_rdma pg"])
      (simp add: Imp_InitFromConnection_def sessions_complete_def with_session_def [symmetric] Let_def
        assert_success_def)
qed

lemma Init_registers:
  assumes works: "setup_works lib" and complete: "sessions_complete lib rq"
    and rq: "rq = with_session s isWrite (pg_rdma pg)"
    and addr: "mc_next pg \<noteq> 0" "mc_next pg + 1 \<noteq> 0" and free: "pg_buffers pg (rq_nextConnectionId rq) = None"
  shows "\<exists>pg' this. Imp_InitFromConnection lib s isWrite pg = Inr (mc_next pg, pg') \<and>
    mc_objects pg' (mc_next pg) = Some (RdmaSideband this) \<and> rs_id this = rq_nextConnectionId rq \<and>
    sd_bufferSize this = rq_nextConnectBufferSize rq \<and>
    im_connectedWriteSession (rs_imp this) = rq_pendingWriteSession rq \<and>
    im_connectedReadSession (rs_imp this) = rq_pendingReadSession rq \<and>
    pg_buffers pg' = (pg_buffers pg)(rq_nextConnectionId rq \<mapsto> mc_next pg) \<and> mc_next pg' = mc_next pg + 1 \<and>
    pg_rdma pg' = rq\<lparr>rq_rdmaConnectQueue := Semaphore_notify (rq_rdmaConnectQueue rq)\<rparr>"
proof -
  obtain rd where init: "Imp_InitFromConnection lib s isWrite pg =
     andThen (new_rdma_object lib (rq_pendingWriteSession rq) (rq_pendingReadSession rq) (rq_nextConnectionId rq)
         (rq_nextConnectLowLatency rq) (rq_nextConnectBufferSize rq) (pg\<lparr>pg_rdma := rq, mc_rdma := rd\<rparr>))
       (\<lambda>(t, pg). Inr (t, pg\<lparr>pg_rdma := (pg_rdma pg)
         \<lparr>rq_rdmaConnectQueue := Semaphore_notify (rq_rdmaConnectQueue (pg_rdma pg))\<rparr>\<rparr>))"
    using Init_complete [OF works, of s isWrite pg] complete rq by (auto simp: Let_def)
  let ?pg = "pg\<lparr>pg_rdma := rq, mc_rdma := rd\<rparr>"
  obtain pg' this where new: "new_rdma_object lib (rq_pendingWriteSession rq) (rq_pendingReadSession rq)
      (rq_nextConnectionId rq) (rq_nextConnectLowLatency rq) (rq_nextConnectBufferSize rq) ?pg = Inr (mc_next pg, pg')"
    and obj: "mc_objects pg' (mc_next pg) = Some (RdmaSideband this)" "rs_id this = rq_nextConnectionId rq"
      "sd_bufferSize this = rq_nextConnectBufferSize rq"
      "im_connectedWriteSession (rs_imp this) = rq_pendingWriteSession rq"
      "im_connectedReadSession (rs_imp this) = rq_pendingReadSession rq"
      "pg_buffers pg' = (pg_buffers pg)(rq_nextConnectionId rq \<mapsto> mc_next pg)" "mc_next pg' = mc_next pg + 1"
    using new_rdma_object_registers [OF works, of ?pg "rq_nextConnectionId rq" "rq_pendingWriteSession rq"
        "rq_pendingReadSession rq" "rq_nextConnectLowLatency rq" "rq_nextConnectBufferSize rq"] addr free
    by auto
  have "pg_rdma pg' = rq" using new_rdma_object_rdma [OF new] by simp
  then show ?thesis using init new obj by simp
qed

lemma Init_duplicate:
  assumes works: "setup_works lib" and complete: "sessions_complete lib rq"
    and rq: "rq = with_session s isWrite (pg_rdma pg)"
    and addr: "mc_next pg \<noteq> 0" "mc_next pg + 1 \<noteq> 0" and taken: "pg_buffers pg (rq_nextConnectionId rq) \<noteq> None"
  shows "Imp_InitFromConnection lib s isWrite pg = Inl AssertionFailed"
proof -
  obtain rd where "Imp_InitFromConnection lib s isWrite pg =
     andThen (new_rdma_object lib (rq_pendingWriteSession rq) (rq_pendingReadSession rq) (rq_nextConnectionId rq)
         (rq_nextConnectLowLatency rq) (rq_nextConnectBufferSize rq) (pg\<lparr>pg_rdma := rq, mc_rdma := rd\<rparr>))
       (\<lambda>(t, pg). Inr (t, pg\<lparr>pg_rdma := (pg_rdma pg)
         \<lparr>rq_rdmaConnectQueue := Semaphore_notify (rq_rdmaConnectQueue (pg_rdma pg))\<rparr>\<rparr>))"
    using Init_complete [OF works, of s isWrite pg] complete rq by (auto simp: Let_def)
  then show ?thesis
    using new_rdma_object_duplicate [OF works] addr taken by simp
qed

section \<open>Properties of the handshake\<close>

text \<open>
  C21. The two sessions of a queued request may arrive in either order: the first one leaves the
  request pending, and after both the outcome is the same.
\<close>

theorem rdma_sessions_any_order:
  assumes "Imp_QueueSidebandConnection lib strategy ident True True size0 pg = Inr pg1"
    and "w \<noteq> er_InvalidSession lib" and "r \<noteq> er_InvalidSession lib"
  shows "\<exists>pg2 pg3. Imp_InitFromConnection lib w True pg1 = Inr (0, pg2) \<and>
    Imp_InitFromConnection lib r False pg1 = Inr (0, pg3) \<and>
    Imp_InitFromConnection lib r False pg2 = Imp_InitFromConnection lib w True pg3"
proof -
  obtain count where pg1: "pg1 = pg\<lparr>pg_rdma := \<lparr>rq_rdmaConnectQueue = count,
         rq_pendingWriteSession = er_InvalidSession lib, rq_pendingReadSession = er_InvalidSession lib,
         rq_nextConnectLowLatency = (strategy = RDMA_LOW_LATENCY),
         rq_waitForReaderConnection = True, rq_waitForWriteConnection = True,
         rq_nextConnectBufferSize = size0, rq_nextConnectionId = ident\<rparr>\<rparr>"
    using assms(1) by (auto simp: Imp_QueueSidebandConnection_def andThen_eq_Inr_iff)
  let ?pg2 = "pg1\<lparr>pg_rdma := with_session w True (pg_rdma pg1)\<rparr>"
  let ?pg3 = "pg1\<lparr>pg_rdma := with_session r False (pg_rdma pg1)\<rparr>"
  have "Imp_InitFromConnection lib w True pg1 = Inr (0, ?pg2)"
    "Imp_InitFromConnection lib r False pg1 = Inr (0, ?pg3)"
    using pg1 by (simp_all add: Init_incomplete sessions_complete_def with_session_def)
  moreover have "Imp_InitFromConnection lib r False ?pg2 = Imp_InitFromConnection lib w True ?pg3"
    using pg1 by (simp add: Imp_InitFromConnection_def with_session_def Let_def)
  ultimately show ?thesis by blast
qed

theorem rdma_sessions_any_order_witness:
  "\<exists>pg1 pg2 pg3. Imp_QueueSidebandConnection (fifo_lib 64 2) RDMA ''ID:         2'' True True 64 (example_program 3 []) = Inr pg1 \<and>
    Imp_InitFromConnection (fifo_lib 64 2) 1 True pg1 = Inr (0, pg2) \<and>
    Imp_InitFromConnection (fifo_lib 64 2) 2 False pg1 = Inr (0, pg3) \<and>
    Imp_InitFromConnection (fifo_lib 64 2) 2 False pg2 = Imp_InitFromConnection (fifo_lib 64 2) 1 True pg3"
proof -
  obtain pg1 where q: "Imp_QueueSidebandConnection (fifo_lib 64 2) RDMA ''ID:         2'' True True 64 (example_program 3 []) = Inr pg1"
    by (simp add: Imp_QueueSidebandConnection_def Semaphore_wait_def Semaphore_initial_def example_program_def)
  show ?thesis using q rdma_sessions_any_order [OF q, of 1 2] by (simp add: fifo_lib_def)
qed

text \<open>
  C20. When both sessions have arrived, the server has an object over them with the queued buffer size,
  registered under the queued identifier, and the next request can be queued. A further session that
  nobody queued then fails the assertion in \<open>RegisterSidebandData\<close>: it completes the old request
  once more.
\<close>

theorem rdma_connection_registered:
  assumes "setup_works lib"
    and "Imp_QueueSidebandConnection lib strategy ident True True size0 pg = Inr pg1" and "Imp_idle pg"
    and "w \<noteq> er_InvalidSession lib" and "r \<noteq> er_InvalidSession lib" and "s \<noteq> er_InvalidSession lib"
    and "pg_buffers pg ident = None"
    and "mc_next pg \<noteq> 0" and "mc_next pg + 1 \<noteq> 0" and "mc_next pg + 2 \<noteq> 0"
  shows "\<exists>pg2 t pg3 this. Imp_InitFromConnection lib w True pg1 = Inr (0, pg2) \<and>
    Imp_InitFromConnection lib r False pg2 = Inr (t, pg3) \<and>
    GetOwnerSidebandDataToken ident pg3 = Inr (0, t) \<and> mc_objects pg3 t = Some (RdmaSideband this) \<and>
    sd_bufferSize this = size0 \<and> im_connectedWriteSession (rs_imp this) = w \<and>
    im_connectedReadSession (rs_imp this) = r \<and> Imp_idle pg3 \<and>
    Imp_InitFromConnection lib s isWrite pg3 = Inl AssertionFailed"
proof -
  let ?rq = "\<lparr>rq_rdmaConnectQueue = 0,
         rq_pendingWriteSession = er_InvalidSession lib, rq_pendingReadSession = er_InvalidSession lib,
         rq_nextConnectLowLatency = (strategy = RDMA_LOW_LATENCY),
         rq_waitForReaderConnection = True, rq_waitForWriteConnection = True,
         rq_nextConnectBufferSize = size0, rq_nextConnectionId = ident\<rparr>"
  have pg1: "pg1 = pg\<lparr>pg_rdma := ?rq\<rparr>"
    using assms(2,3)
    by (auto simp: Imp_QueueSidebandConnection_def andThen_eq_Inr_iff Imp_idle_def Semaphore_wait_def
        Semaphore_initial_def)
  let ?pg2 = "pg1\<lparr>pg_rdma := with_session w True ?rq\<rparr>" and ?rq2 = "with_session r False (with_session w True ?rq)"
  have first: "Imp_InitFromConnection lib w True pg1 = Inr (0, ?pg2)"
    using pg1 Init_incomplete [of lib w True pg1] by (simp add: sessions_complete_def with_session_def)
  have pre: "sessions_complete lib ?rq2" "?rq2 = with_session r False (pg_rdma ?pg2)"
    "mc_next ?pg2 \<noteq> 0" "mc_next ?pg2 + 1 \<noteq> 0" "pg_buffers ?pg2 (rq_nextConnectionId ?rq2) = None"
    using assms pg1 by (simp_all add: sessions_complete_def with_session_def)
  obtain pg3 this where second: "Imp_InitFromConnection lib r False ?pg2 = Inr (mc_next ?pg2, pg3)"
    and obj: "mc_objects pg3 (mc_next ?pg2) = Some (RdmaSideband this)"
      "sd_bufferSize this = rq_nextConnectBufferSize ?rq2"
      "im_connectedWriteSession (rs_imp this) = rq_pendingWriteSession ?rq2"
      "im_connectedReadSession (rs_imp this) = rq_pendingReadSession ?rq2"
    and reg: "pg_buffers pg3 = (pg_buffers ?pg2)(rq_nextConnectionId ?rq2 \<mapsto> mc_next ?pg2)"
    and next3: "mc_next pg3 = mc_next ?pg2 + 1"
    and rq3: "pg_rdma pg3 = ?rq2\<lparr>rq_rdmaConnectQueue := Semaphore_notify (rq_rdmaConnectQueue ?rq2)\<rparr>"
    using Init_registers [OF assms(1) pre] by blast
  have "sessions_complete lib (with_session s isWrite (pg_rdma pg3))"
    using rq3 assms(4-6) by (simp add: sessions_complete_def with_session_def)
  moreover have "mc_next pg3 \<noteq> 0" "mc_next pg3 + 1 \<noteq> 0" using next3 pg1 assms(9,10) by (simp_all add: add.assoc)
  moreover have "pg_buffers pg3 (rq_nextConnectionId (with_session s isWrite (pg_rdma pg3))) \<noteq> None"
    using reg rq3 by (simp add: with_session_def)
  ultimately have stray: "Imp_InitFromConnection lib s isWrite pg3 = Inl AssertionFailed"
    using Init_duplicate [OF assms(1)] by blast
  show ?thesis
    using first second obj reg rq3 stray
    by (intro exI [of _ ?pg2] exI [of _ "mc_next ?pg2"] exI [of _ pg3] exI [of _ this])
      (simp add: GetOwnerSidebandDataToken_def Imp_idle_def Semaphore_notify_def Semaphore_initial_def
        with_session_def)
qed

lemma fifo_setup_works: "setup_works (fifo_lib cap bufs)"
  by (simp add: setup_works_def fifo_lib_def)

theorem rdma_connection_registered_witness:
  "\<exists>pg1 pg2 t pg3 this. Imp_QueueSidebandConnection (fifo_lib 64 2) RDMA ''ID:         2'' True True 64 (example_program 3 []) = Inr pg1 \<and>
    Imp_InitFromConnection (fifo_lib 64 2) 1 True pg1 = Inr (0, pg2) \<and>
    Imp_InitFromConnection (fifo_lib 64 2) 2 False pg2 = Inr (t, pg3) \<and>
    GetOwnerSidebandDataToken ''ID:         2'' pg3 = Inr (0, t) \<and> mc_objects pg3 t = Some (RdmaSideband this) \<and>
    sd_bufferSize this = 64 \<and> im_connectedWriteSession (rs_imp this) = 1 \<and>
    im_connectedReadSession (rs_imp this) = 2 \<and> Imp_idle pg3 \<and>
    Imp_InitFromConnection (fifo_lib 64 2) 5 True pg3 = Inl AssertionFailed"
proof -
  obtain pg1 where q: "Imp_QueueSidebandConnection (fifo_lib 64 2) RDMA ''ID:         2'' True True 64 (example_program 3 []) = Inr pg1"
    by (simp add: Imp_QueueSidebandConnection_def Semaphore_wait_def Semaphore_initial_def example_program_def)
  have "Imp_idle (example_program 3 [])" by (simp add: Imp_idle_def example_program_def)
  then show ?thesis
    using rdma_connection_registered [OF fifo_setup_works q, of 1 2 5 True] q
    by (simp add: fifo_lib_def [of 64 2] example_program_def [of 3 "[]"])
qed

text \<open>
  C22. Requests for RDMA connections are served one at a time, and none is forgotten. While the process
  accepts only valid sessions that answer a request, the next request waits as long as a kind of session that
  the current one waits for has not arrived; such a session gives the null token. The one that completes the
  request gives an object with the latest sessions of both kinds and the queued identifier, size and latency,
  and lets the next request in.
\<close>

theorem rdma_requests_one_at_a_time:
  assumes "served (Imp_queue lib) (Imp_accept lib) Imp_idle Imp_untouched Imp_complete (Imp_valid lib) p pg"
  shows "case p of
      None \<Rightarrow> \<exists>pg'. Imp_queue lib later pg = Inr pg' \<and> Imp_pending lib later [] pg'
    | Some ((strategy, ident, reader, writer, size0), cs) \<Rightarrow> Imp_queue lib later pg = Inl Blocks \<and>
        (\<forall>s isWrite t pg'. s \<noteq> er_InvalidSession lib \<longrightarrow> Imp_InitFromConnection lib s isWrite pg = Inr (t, pg') \<longrightarrow>
          (let cs = cs @ [(s, isWrite)] in
           if (writer \<longrightarrow> True \<in> snd ` set cs) \<and> (reader \<longrightarrow> False \<in> snd ` set cs)
           then (\<exists>pg''. Imp_queue lib later pg' = Inr pg'' \<and> Imp_pending lib later [] pg'') \<and>
             (\<exists>this. mc_objects pg' t = Some (RdmaSideband this) \<and> rs_id this = ident \<and> pg_buffers pg' ident = Some t \<and>
               sd_bufferSize this = size0 \<and> im_lowLatency (rs_imp this) = (strategy = RDMA_LOW_LATENCY) \<and>
               im_connectedWriteSession (rs_imp this) = arrived (er_InvalidSession lib) True cs \<and>
               im_connectedReadSession (rs_imp this) = arrived (er_InvalidSession lib) False cs)
           else t = 0 \<and> Imp_queue lib later pg' = Inl Blocks))"
proof (cases p)
  case None
  then show ?thesis using rdma_queue.served_none [OF assms [unfolded None], of later] None by simp
next
  case (Some rc)
  then obtain strategy ident reader writer size0 cs where p: "p = Some ((strategy, ident, reader, writer, size0), cs)"
    by (cases rc) auto
  let ?r = "(strategy, ident, reader, writer, size0)"
  have hist: "served (Imp_queue lib) (Imp_accept lib) Imp_idle Imp_untouched Imp_complete (Imp_valid lib)
      (Some (?r, cs)) pg"
    using assms p by simp
  have pending: "Imp_pending lib ?r cs pg" "Imp_queue lib later pg = Inl Blocks"
    using rdma_queue.served_waits [OF hist] by blast+
  have complete: "Imp_complete ?r (cs @ [(s, isWrite)]) \<longleftrightarrow>
      (writer \<longrightarrow> True \<in> snd ` set (cs @ [(s, isWrite)])) \<and> (reader \<longrightarrow> False \<in> snd ` set (cs @ [(s, isWrite)]))"
    for s isWrite by (simp add: Imp_complete_def)
  have "let cs = cs @ [(s, isWrite)] in
           if (writer \<longrightarrow> True \<in> snd ` set cs) \<and> (reader \<longrightarrow> False \<in> snd ` set cs)
           then (\<exists>pg''. Imp_queue lib later pg' = Inr pg'' \<and> Imp_pending lib later [] pg'') \<and>
             (\<exists>this. mc_objects pg' t = Some (RdmaSideband this) \<and> rs_id this = ident \<and> pg_buffers pg' ident = Some t \<and>
               sd_bufferSize this = size0 \<and> im_lowLatency (rs_imp this) = (strategy = RDMA_LOW_LATENCY) \<and>
               im_connectedWriteSession (rs_imp this) = arrived (er_InvalidSession lib) True cs \<and>
               im_connectedReadSession (rs_imp this) = arrived (er_InvalidSession lib) False cs)
           else t = 0 \<and> Imp_queue lib later pg' = Inl Blocks"
    if "s \<noteq> er_InvalidSession lib" "Imp_InitFromConnection lib s isWrite pg = Inr (t, pg')" for s isWrite t pg'
  proof -
    have accept: "Imp_accept lib (s, isWrite) pg = Inr pg'" using that(2) by (simp add: Imp_accept_def)
    have valid: "Imp_valid lib (s, isWrite)" using that(1) by (simp add: Imp_valid_def)
    show ?thesis
      using rdma_queue.served_next [OF hist valid accept, of "later"]
        Imp_InitFromConnection_pending [OF pending(1) that]
      unfolding Let_def complete [symmetric]
      by (cases "Imp_complete ?r (cs @ [(s, isWrite)])") (simp_all only: if_True if_False prod.case, blast+)
  qed
  then show ?thesis using pending(2) p by simp
qed

theorem rdma_requests_one_at_a_time_witness:
  "\<exists>pg1 pg2 t pg3 pg4 this. Imp_queue (fifo_lib 64 2) (RDMA, ''ID:         2'', True, True, 64) (example_program 3 []) = Inr pg1 \<and>
    Imp_InitFromConnection (fifo_lib 64 2) 1 True pg1 = Inr (0, pg2) \<and>
    Imp_queue (fifo_lib 64 2) (RDMA, ''ID:         3'', True, False, 32) pg2 = Inl Blocks \<and>
    Imp_InitFromConnection (fifo_lib 64 2) 2 False pg2 = Inr (t, pg3) \<and>
    Imp_queue (fifo_lib 64 2) (RDMA, ''ID:         3'', True, False, 32) pg3 = Inr pg4 \<and>
    mc_objects pg3 t = Some (RdmaSideband this) \<and> rs_id this = ''ID:         2'' \<and>
    im_connectedWriteSession (rs_imp this) = 1 \<and> im_connectedReadSession (rs_imp this) = 2"
proof -
  let ?lib = "fifo_lib 64 2" and ?r = "(RDMA, ''ID:         2'', True, True, 64)"
  let ?hist = "served (Imp_queue ?lib) (Imp_accept ?lib) Imp_idle Imp_untouched Imp_complete (Imp_valid ?lib)"
  have invalid: "er_InvalidSession ?lib = 0" by (simp add: fifo_lib_def)
  have start: "?hist None (example_program 3 [])" by (rule served_start) (simp add: example_program_def Imp_idle_def)
  obtain pg1 where q: "Imp_queue ?lib ?r (example_program 3 []) = Inr pg1"
    and pg1: "pg1 = (example_program 3 [])\<lparr>pg_rdma := pg_rdma pg1\<rparr>"
    and rq1: "pg_rdma pg1 = \<lparr>rq_rdmaConnectQueue = 0, rq_pendingWriteSession = 0, rq_pendingReadSession = 0,
       rq_nextConnectLowLatency = False, rq_waitForReaderConnection = True, rq_waitForWriteConnection = True,
       rq_nextConnectBufferSize = 64, rq_nextConnectionId = ''ID:         2''\<rparr>"
    by (simp add: Imp_queue_def Imp_QueueSidebandConnection_def Semaphore_wait_def Semaphore_initial_def
        example_program_def invalid)
  have pending: "?hist (Some (?r, [])) pg1" using start q by (rule served_queue)
  let ?pg2 = "pg1\<lparr>pg_rdma := with_session 1 True (pg_rdma pg1)\<rparr>"
  have first: "Imp_InitFromConnection ?lib 1 True pg1 = Inr (0, ?pg2)"
    by (rule Init_incomplete) (simp add: rq1 with_session_def sessions_complete_def invalid)
  have "?hist (if Imp_complete ?r ([] @ [(1, True)]) then None else Some (?r, [] @ [(1, True)])) ?pg2"
    by (rule served_accept [OF pending]) (simp_all add: Imp_valid_def Imp_accept_def first [unfolded One_nat_def] invalid)
  then have hist: "?hist (Some (?r, [(1, True)])) ?pg2" by (simp add: Imp_complete_def)
  have "sessions_complete ?lib (with_session 2 False (pg_rdma ?pg2))" "mc_next ?pg2 \<noteq> 0" "mc_next ?pg2 + 1 \<noteq> 0"
    "pg_buffers ?pg2 (rq_nextConnectionId (with_session 2 False (pg_rdma ?pg2))) = None"
    by (subst pg1; simp add: rq1 with_session_def sessions_complete_def invalid example_program_def)+
  from Init_registers [OF fifo_setup_works this(1) refl this(2-4)]
  obtain t pg3 where second: "Imp_InitFromConnection ?lib 2 False ?pg2 = Inr (t, pg3)" by blast
  let ?next = "(RDMA, ''ID:         3'', True, False, 32)"
  note turn = rdma_requests_one_at_a_time [OF hist, of ?next, unfolded option.case prod.case]
  have "(2 :: session) \<noteq> er_InvalidSession ?lib" by (simp add: invalid)
  from turn [THEN conjunct2, rule_format, OF this second]
  have "\<exists>pg4. Imp_queue ?lib ?next pg3 = Inr pg4" and "\<exists>this. mc_objects pg3 t = Some (RdmaSideband this) \<and>
      rs_id this = ''ID:         2'' \<and> im_connectedWriteSession (rs_imp this) = 1 \<and> im_connectedReadSession (rs_imp this) = 2"
    by (auto simp: Let_def)
  then show ?thesis using q first second turn [THEN conjunct1] by blast
qed

section \<open>Two accepting threads\<close>

text \<open>
  \<open>AcceptSidebandRdmaSendRequests\<close> and \<open>AcceptSidebandRdmaReceiveRequests\<close> run in threads of their own,
  and \<open>InitFromConnection\<close> holds no lock. Here it is in two steps: the assignment of the pending
  session, and what follows from the test of both sessions on.
\<close>

definition Imp_Init_store :: "session \<Rightarrow> bool \<Rightarrow> 's program \<Rightarrow> 's program" where
  "Imp_Init_store connectedSession isWriteSession pg =
     (if isWriteSession then pg\<lparr>pg_rdma := (pg_rdma pg)\<lparr>rq_pendingWriteSession := connectedSession\<rparr>\<rparr>
      else pg\<lparr>pg_rdma := (pg_rdma pg)\<lparr>rq_pendingReadSession := connectedSession\<rparr>\<rparr>)"

definition Imp_Init_rest :: "'s easyrdma \<Rightarrow> 's program \<Rightarrow> stop + (token \<times> 's program)" where
  "Imp_Init_rest lib pg =
     (let rq = pg_rdma pg
      in if (rq_pendingWriteSession rq \<noteq> er_InvalidSession lib \<or> \<not> rq_waitForWriteConnection rq) \<and>
            (rq_pendingReadSession rq \<noteq> er_InvalidSession lib \<or> \<not> rq_waitForReaderConnection rq)
         then
           andThen
             (if rq_nextConnectLowLatency rq \<and> rq_pendingReadSession rq \<noteq> er_InvalidSession lib
              then andThen (er_SetUseRxPolling lib (rq_pendingReadSession rq) True (mc_rdma pg)) (\<lambda>(result, rd).
                   andThen (assert_success (er_Error_Success lib) result) (\<lambda>u. Inr rd))
              else Inr (mc_rdma pg))
             (\<lambda>rd. andThen (new_rdma_object lib (rq_pendingWriteSession rq) (rq_pendingReadSession rq)
                 (rq_nextConnectionId rq) (rq_nextConnectLowLatency rq) (rq_nextConnectBufferSize rq)
                 (pg\<lparr>mc_rdma := rd\<rparr>)) (\<lambda>(t, pg).
               Inr (t, pg\<lparr>pg_rdma := (pg_rdma pg)
                 \<lparr>rq_rdmaConnectQueue := Semaphore_notify (rq_rdmaConnectQueue (pg_rdma pg))\<rparr>\<rparr>)))
         else Inr (0, pg))"

lemma Imp_Init_in_steps: "Imp_InitFromConnection lib s isWrite pg = Imp_Init_rest lib (Imp_Init_store s isWrite pg)"
  by (cases isWrite)
    (simp_all add: Imp_InitFromConnection_def Imp_Init_rest_def Imp_Init_store_def Let_def split del: if_split)

lemma Imp_Init_rest_again:
  assumes "rq_pendingWriteSession (pg_rdma pg) = w" and "rq_pendingReadSession (pg_rdma pg) = r"
  shows "Imp_Init_rest lib pg = Imp_InitFromConnection lib r False pg"
    and "Imp_Init_rest lib pg = Imp_InitFromConnection lib w True pg"
proof -
  have "Imp_Init_store r False pg = pg" "Imp_Init_store w True pg = pg"
    using assms by (simp_all add: Imp_Init_store_def)
  then show "Imp_Init_rest lib pg = Imp_InitFromConnection lib r False pg"
    and "Imp_Init_rest lib pg = Imp_InitFromConnection lib w True pg"
    by (simp_all only: Imp_Init_in_steps)
qed

text \<open>
  C23. The two threads race: if the sessions of one request arrive so close together that both threads
  assign before either of them tests, then the one that goes on first registers the connection, and the
  other, which finds both sessions as well, fails the assertion in \<open>RegisterSidebandData\<close>. The
  handlers are correct only when they do not overlap.
\<close>

theorem rdma_accept_race:
  assumes "setup_works lib"
    and "Imp_QueueSidebandConnection lib strategy ident True True size0 pg = Inr pg1" and "Imp_idle pg"
    and "w \<noteq> er_InvalidSession lib" and "r \<noteq> er_InvalidSession lib" and "pg_buffers pg ident = None"
    and "mc_next pg \<noteq> 0" and "mc_next pg + 1 \<noteq> 0" and "mc_next pg + 2 \<noteq> 0"
  shows "\<exists>t pg3. Imp_Init_rest lib (Imp_Init_store r False (Imp_Init_store w True pg1)) = Inr (t, pg3) \<and>
    GetOwnerSidebandDataToken ident pg3 = Inr (0, t) \<and> Imp_Init_rest lib pg3 = Inl AssertionFailed"
proof -
  let ?rq = "\<lparr>rq_rdmaConnectQueue = 0, rq_pendingWriteSession = w, rq_pendingReadSession = r,
         rq_nextConnectLowLatency = (strategy = RDMA_LOW_LATENCY),
         rq_waitForReaderConnection = True, rq_waitForWriteConnection = True,
         rq_nextConnectBufferSize = size0, rq_nextConnectionId = ident\<rparr>"
  have both: "Imp_Init_store r False (Imp_Init_store w True pg1) = pg\<lparr>pg_rdma := ?rq\<rparr>"
    using assms(2,3)
    by (auto simp: Imp_QueueSidebandConnection_def andThen_eq_Inr_iff Imp_idle_def Semaphore_wait_def
        Semaphore_initial_def Imp_Init_store_def)
  have complete: "sessions_complete lib ?rq" using assms(4,5) by (simp add: sessions_complete_def)
  have rq: "?rq = with_session r False (pg_rdma (pg\<lparr>pg_rdma := ?rq\<rparr>))" by (simp add: with_session_def)
  obtain pg3 where first: "Imp_InitFromConnection lib r False (pg\<lparr>pg_rdma := ?rq\<rparr>) = Inr (mc_next pg, pg3)"
    and reg: "pg_buffers pg3 = (pg_buffers pg)(ident \<mapsto> mc_next pg)" and next3: "mc_next pg3 = mc_next pg + 1"
    and rq3: "pg_rdma pg3 = ?rq\<lparr>rq_rdmaConnectQueue := Semaphore_notify (rq_rdmaConnectQueue ?rq)\<rparr>"
    using Init_registers [OF assms(1) complete rq] assms(6-8) by auto
  have "Imp_InitFromConnection lib r False pg3 = Inl AssertionFailed"
    using Init_duplicate [OF assms(1) _ refl, of r False pg3] complete next3 reg rq3 assms(8,9)
    by (simp add: sessions_complete_def with_session_def add.assoc)
  then have "Imp_Init_rest lib pg3 = Inl AssertionFailed"
    using Imp_Init_rest_again(1) [OF refl, of pg3 r lib] rq3 by simp
  moreover have "Imp_Init_rest lib (pg\<lparr>pg_rdma := ?rq\<rparr>) = Inr (mc_next pg, pg3)"
    using first Imp_Init_rest_again(1) [of "pg\<lparr>pg_rdma := ?rq\<rparr>" w r lib] by simp
  ultimately show ?thesis using both reg by (simp add: GetOwnerSidebandDataToken_def)
qed

theorem rdma_accept_race_witness:
  "\<exists>pg1 t pg3. Imp_QueueSidebandConnection (fifo_lib 64 2) RDMA ''ID:         2'' True True 64 (example_program 3 []) = Inr pg1 \<and>
    Imp_Init_rest (fifo_lib 64 2) (Imp_Init_store 2 False (Imp_Init_store 1 True pg1)) = Inr (t, pg3) \<and>
    GetOwnerSidebandDataToken ''ID:         2'' pg3 = Inr (0, t) \<and> Imp_Init_rest (fifo_lib 64 2) pg3 = Inl AssertionFailed"
proof -
  obtain pg1 where q: "Imp_QueueSidebandConnection (fifo_lib 64 2) RDMA ''ID:         2'' True True 64 (example_program 3 []) = Inr pg1"
    by (simp add: Imp_QueueSidebandConnection_def Semaphore_wait_def Semaphore_initial_def example_program_def)
  have "Imp_idle (example_program 3 [])" by (simp add: Imp_idle_def example_program_def)
  then show ?thesis
    using rdma_accept_race [OF fifo_setup_works q, of 1 2] q
    by (simp add: fifo_lib_def [of 64 2] example_program_def [of 3 "[]"])
qed

end
