(* ===== verification/SidebandApi.thy ===== *)
theory SidebandApi
  imports RdmaHandshake
begin

text \<open>
  The entry points of \<^verbatim>\<open>src/sideband_data.cc\<close> that choose the transport, and the invariant of
  the registry of connections over all histories of calls.
\<close>

section \<open>Choosing the transport\<close>

text \<open>
  The socket cases fall through to the default, which returns the same value.
\<close>

definition QueueSidebandConnection :: "'s easyrdma \<Rightarrow> SidebandStrategy \<Rightarrow> string \<Rightarrow> bool \<Rightarrow> bool \<Rightarrow> int64 \<Rightarrow>
    's program \<Rightarrow> stop + (int32 \<times> 's program)" where
  "QueueSidebandConnection lib strategy conn_id waitForReader waitForWriter bufferSize pg =
     (if strategy = RDMA \<or> strategy = RDMA_LOW_LATENCY
      then andThen (Imp_QueueSidebandConnection lib strategy conn_id waitForReader waitForWriter bufferSize pg)
             (\<lambda>pg. Inr (0, pg))
      else if strategy = SOCKETS \<or> strategy = SOCKETS_LOW_LATENCY
      then andThen (So_QueueSidebandConnection strategy conn_id bufferSize pg) (\<lambda>pg. Inr (0, pg))
      else Inr (0, pg))"

text \<open>
  \<open>InitClientSidebandData\<close>: the object is entered under the given identifier, except for RDMA, where
  \<open>ClientInit\<close> has registered it. Any other strategy enters a null pointer. The size is an \<open>int\<close>.
\<close>

definition insert_client :: "string \<Rightarrow> token \<Rightarrow> 's program \<Rightarrow> stop + (int32 \<times> token \<times> 's program)" where
  "insert_client usageId t pg =
     (if pg_buffers pg usageId \<noteq> None then Inl AssertionFailed
      else Inr (0, t, pg\<lparr>pg_buffers := emplace usageId t (pg_buffers pg)\<rparr>))"

definition InitClientSidebandData :: "'s easyrdma \<Rightarrow> string \<Rightarrow> SidebandStrategy \<Rightarrow> string \<Rightarrow> int32 \<Rightarrow>
    's program \<Rightarrow> stop + (int32 \<times> token \<times> 's program)" where
  "InitClientSidebandData lib url strategy usageId bufferSize pg =
     (let size64 = scast bufferSize in
      case strategy of
        SHARED_MEMORY \<Rightarrow> andThen (new_object (ShmSideband (Shm_new usageId size64)) pg)
          (\<lambda>(t, pg). insert_client usageId t pg)
      | DOUBLE_BUFFERED_SHARED_MEMORY \<Rightarrow> andThen (new_object (DblSideband (Dbl_new usageId size64)) pg)
          (\<lambda>(t, pg). insert_client usageId t pg)
      | SOCKETS \<Rightarrow> andThen (So_ClientInit url usageId size64 False pg) (\<lambda>(t, pg). insert_client usageId t pg)
      | SOCKETS_LOW_LATENCY \<Rightarrow> andThen (So_ClientInit url usageId size64 True pg)
          (\<lambda>(t, pg). insert_client usageId t pg)
      | RDMA \<Rightarrow> andThen (Rdma_ClientInit lib url False usageId size64 pg) (\<lambda>(t, pg). Inr (0, t, pg))
      | RDMA_LOW_LATENCY \<Rightarrow> andThen (Rdma_ClientInit lib url True usageId size64 pg) (\<lambda>(t, pg). Inr (0, t, pg))
      | _ \<Rightarrow> insert_client usageId 0 pg)"

section \<open>Histories\<close>

text \<open>
  One call of the interface, or one accepted connection, that returns. The arguments and the other
  results are left open.
\<close>

inductive api_step :: "'s easyrdma \<Rightarrow> 's program \<Rightarrow> 's program \<Rightarrow> bool" for lib where
  step_owner: "InitOwnerSidebandData strategy n pg = Inr (k, ident, pg') \<Longrightarrow> api_step lib pg pg'"
| step_queue: "QueueSidebandConnection lib strategy ident reader writer n pg = Inr (k, pg') \<Longrightarrow> api_step lib pg pg'"
| step_client: "InitClientSidebandData lib url strategy ident n32 pg = Inr (k, t, pg') \<Longrightarrow> api_step lib pg pg'"
| step_socket: "So_InitFromConnection sock pg = Inr (t, pg') \<Longrightarrow> api_step lib pg pg'"
| step_session: "Imp_InitFromConnection lib s isWrite pg = Inr (t, pg') \<Longrightarrow> api_step lib pg pg'"
| step_close: "CloseSidebandData lib t pg = Inr (k, pg') \<Longrightarrow> api_step lib pg pg'"
| step_data: "data_call lib t pg pg' \<Longrightarrow> api_step lib pg pg'"

inductive api_history :: "'s easyrdma \<Rightarrow> 's program \<Rightarrow> 's program \<Rightarrow> bool" for lib where
  history_start: "api_history lib pg pg"
| history_step: "api_history lib pg pg' \<Longrightarrow> api_step lib pg' pg'' \<Longrightarrow> api_history lib pg pg''"

text \<open>
  The registry maps an identifier to the null token or to a live object with that usage id; so no two
  identifiers share an object. Objects lie below the next free address, and none at 0.
\<close>

definition registry_ok :: "'s program \<Rightarrow> bool" where
  "registry_ok pg \<longleftrightarrow>
     (\<forall>ident t. pg_buffers pg ident = Some t \<longrightarrow>
        t = 0 \<or> (\<exists>obj. mc_objects pg t = Some obj \<and> UsageId obj = ident)) \<and>
     (\<forall>t. mc_objects pg t \<noteq> None \<longrightarrow> 0 < t \<and> t < mc_next pg) \<and> 0 < mc_next pg"

section \<open>Every call keeps the registry\<close>

named_theorems registry_intros "calls keep the registry well formed"

lemma word_less_Suc: "t + 1 \<noteq> 0 \<Longrightarrow> t < t + (1 :: int64)"
  by (simp add: word_less_nat_alt unatSuc add.commute [of t 1])

lemma registry_ok_same:
  assumes "registry_ok pg" and "pg_buffers pg' = pg_buffers pg" and "mc_next pg' = mc_next pg"
    and "\<And>t. map_option UsageId (mc_objects pg' t) = map_option UsageId (mc_objects pg t)"
  shows "registry_ok pg'"
proof -
  have alive: "mc_objects pg' t \<noteq> None \<longleftrightarrow> mc_objects pg t \<noteq> None" for t
    using assms(4) [of t] by (cases "mc_objects pg t"; cases "mc_objects pg' t") simp_all
  have ids: "\<exists>obj'. mc_objects pg' t = Some obj' \<and> UsageId obj' = UsageId obj"
    if "mc_objects pg t = Some obj" for t obj
    using assms(4) [of t] that by (cases "mc_objects pg' t") simp_all
  show ?thesis
    using assms(1-3) alive ids unfolding registry_ok_def by (metis (no_types, lifting))
qed

text \<open>Allocation, and giving the new object its final value before it is registered.\<close>

lemma registry_ok_new:
  assumes ok: "registry_ok pg" and new: "new_object obj pg = Inr (t, pg1)"
  shows "registry_ok (pg1\<lparr>mc_objects := (mc_objects pg)(t \<mapsto> obj')\<rparr>)" and "0 < t" and "mc_objects pg t = None"
    and "pg_buffers pg ident \<noteq> Some t"
proof -
  have t: "t = mc_next pg" "t + 1 \<noteq> 0"
    and pg1: "pg1 = pg\<lparr>mc_objects := (mc_objects pg)(t \<mapsto> obj), mc_next := t + 1\<rparr>"
    using new by (auto simp: new_object_def split: if_splits)
  have pos: "0 < mc_next pg" and bound: "\<And>t. mc_objects pg t \<noteq> None \<Longrightarrow> 0 < t \<and> t < mc_next pg"
    and reg: "\<And>ident t. pg_buffers pg ident = Some t \<Longrightarrow> t = 0 \<or> (\<exists>obj. mc_objects pg t = Some obj \<and> UsageId obj = ident)"
    using ok by (auto simp: registry_ok_def)
  show fresh: "mc_objects pg t = None" using bound [of t] t(1) by (cases "mc_objects pg t") auto
  show "0 < t" using pos t(1) by simp
  show "pg_buffers pg ident \<noteq> Some t" using reg [of ident t] fresh pos t(1) by auto
  have up: "t < t + 1" "0 < t + 1" using t(2) word_less_Suc by (simp_all add: word_gt_0)
  have "0 < s \<and> s < t + 1" if "((mc_objects pg)(t \<mapsto> obj')) s \<noteq> None" for s
    using that bound [of s] up pos t(1) by (cases "s = t") auto
  moreover have "s = 0 \<or> (\<exists>ob. ((mc_objects pg)(t \<mapsto> obj')) s = Some ob \<and> UsageId ob = ident)"
    if "pg_buffers pg ident = Some s" for ident s
    using reg [OF that] fresh by (cases "s = t") auto
  ultimately show "registry_ok (pg1\<lparr>mc_objects := (mc_objects pg)(t \<mapsto> obj')\<rparr>)"
    using pg1 up pos t(1) by (auto simp: registry_ok_def)
qed

lemma registry_ok_insert:
  assumes "registry_ok pg" and "mc_objects pg t = Some obj \<and> UsageId obj = ident \<or> t = 0"
  shows "registry_ok (pg\<lparr>pg_buffers := (pg_buffers pg)(ident \<mapsto> t)\<rparr>)"
  using assms unfolding registry_ok_def by auto

lemma registry_ok_Register [registry_intros]:
  assumes "registry_ok pg" and "RegisterSidebandData t pg = Inr pg'"
  shows "registry_ok pg'"
proof -
  obtain obj where obj: "deref t pg = Inr obj" and pg': "pg' = pg\<lparr>pg_buffers := (pg_buffers pg)(UsageId obj \<mapsto> t)\<rparr>"
    using Register_Inr [OF assms(2)] by blast
  have "mc_objects pg t = Some obj" using obj by (auto simp: deref_def split: if_splits option.splits)
  then show ?thesis using registry_ok_insert [OF assms(1)] pg' by auto
qed

lemma registry_ok_insert_client:
  assumes "registry_ok pg" and "mc_objects pg t = Some obj \<and> UsageId obj = ident \<or> t = 0"
    and "insert_client ident t pg = Inr (k, t', pg')"
  shows "registry_ok pg'"
  using registry_ok_insert [OF assms(1,2)] assms(3) by (auto simp: insert_client_def emplace_def split: if_splits)

lemma registry_ok_owner [registry_intros]:
  assumes ok: "registry_ok pg" and "InitOwnerSidebandData strategy n pg = Inr (k, ident, pg')"
  shows "registry_ok pg'"
proof -
  have shared: "registry_ok pg'" if "Init_shared obj pg = Inr (k, ident, pg')" for obj
  proof -
    obtain t pg1 where new: "new_object obj pg = Inr (t, pg1)"
      and pg': "pg' = pg1\<lparr>pg_buffers := emplace (UsageId obj) t (pg_buffers pg1)\<rparr>"
      using \<open>Init_shared obj pg = Inr (k, ident, pg')\<close> by (auto simp: Init_shared_def andThen_eq_Inr_iff)
    have pg1: "mc_objects pg1 = (mc_objects pg)(t \<mapsto> obj)" "pg1\<lparr>mc_objects := (mc_objects pg)(t \<mapsto> obj)\<rparr> = pg1"
      using new_object_Inr [OF new] by auto
    have ok1: "registry_ok pg1" using registry_ok_new(1) [OF ok new, of obj] pg1 by simp
    show ?thesis
    proof (cases "pg_buffers pg1 (UsageId obj)")
      case None
      then show ?thesis using registry_ok_insert [OF ok1, of t obj "UsageId obj"] pg' pg1 by (simp add: emplace_def)
    next
      case (Some t')
      then show ?thesis using ok1 pg' by (simp add: emplace_def)
    qed
  qed
  have queued: "registry_ok pg'" if "Init_queued pg = Inr (k, ident, pg')"
    using that ok by (auto simp: Init_queued_def andThen_eq_Inr_iff intro: registry_ok_same [OF ok])
  show ?thesis
    using assms(2) shared queued by (cases strategy) (simp_all add: InitOwnerSidebandData_def)
qed

lemma registry_ok_queue [registry_intros]:
  assumes "registry_ok pg" and "QueueSidebandConnection lib strategy ident reader writer n pg = Inr (k, pg')"
  shows "registry_ok pg'"
  using assms(2)
  by (intro registry_ok_same [OF assms(1)])
    (auto simp: QueueSidebandConnection_def Imp_QueueSidebandConnection_def So_QueueSidebandConnection_def
      andThen_eq_Inr_iff split: if_splits)

text \<open>A new object is allocated and then brought into its final state together with the network or the library.\<close>

lemma registry_ok_finish:
  assumes ok: "registry_ok pg" and new: "new_object obj pg = Inr (t, pg1)"
    and "mc_objects pg2 = (mc_objects pg1)(t \<mapsto> obj')" and "mc_next pg2 = mc_next pg1"
    and "pg_buffers pg2 = pg_buffers pg1"
  shows "registry_ok pg2"
proof (rule registry_ok_same [OF registry_ok_new(1) [OF ok new, of obj']])
  show "pg_buffers pg2 = pg_buffers (pg1\<lparr>mc_objects := (mc_objects pg)(t \<mapsto> obj')\<rparr>)"
    "mc_next pg2 = mc_next (pg1\<lparr>mc_objects := (mc_objects pg)(t \<mapsto> obj')\<rparr>)"
    using assms(4,5) by simp_all
  show "map_option UsageId (mc_objects pg2 s) =
      map_option UsageId (mc_objects (pg1\<lparr>mc_objects := (mc_objects pg)(t \<mapsto> obj')\<rparr>) s)" for s
    using assms(3) new_object_Inr [OF new] by auto
qed

lemma registry_ok_socket [registry_intros]:
  assumes ok: "registry_ok pg" and init: "So_InitFromConnection sock pg = Inr (t, pg')"
  shows "registry_ok pg'"
proof -
  let ?pg = "if sq_nextConnectLowLatency (pg_sockets pg) then pg\<lparr>mc_net := sys_set_nodelay sock (mc_net pg)\<rparr> else pg"
  have ok0: "registry_ok ?pg" by (rule registry_ok_same [OF ok]) simp_all
  obtain obj this net pg1 pg2 where new: "new_object obj ?pg = Inr (t, pg1)"
    and reg: "RegisterSidebandData t (pg1\<lparr>mc_net := net, mc_objects := (mc_objects pg1)(t \<mapsto> SocketSideband this)\<rparr>) = Inr pg2"
    and pg': "pg_buffers pg' = pg_buffers pg2" "mc_next pg' = mc_next pg2" "mc_objects pg' = mc_objects pg2"
    using init by (auto simp: So_InitFromConnection_def Let_def andThen_eq_Inr_iff)
  have "registry_ok (pg1\<lparr>mc_net := net, mc_objects := (mc_objects pg1)(t \<mapsto> SocketSideband this)\<rparr>)"
    by (rule registry_ok_finish [OF ok0 new]) simp_all
  then have "registry_ok pg2" using reg by (rule registry_ok_Register)
  then show ?thesis by (rule registry_ok_same) (simp_all add: pg')
qed

lemma registry_ok_new_rdma:
  assumes ok: "registry_ok pg" and init: "new_rdma_object lib w r ident low n pg = Inr (t, pg')"
  shows "registry_ok pg'"
proof -
  obtain imp rd pg1 where new: "new_object (RdmaSideband (Rdma_new ident imp)) (pg\<lparr>mc_rdma := rd\<rparr>) = Inr (t, pg1)"
    and reg: "RegisterSidebandData t pg1 = Inr pg'"
    using init by (auto simp: new_rdma_object_def andThen_eq_Inr_iff)
  have ok0: "registry_ok (pg\<lparr>mc_rdma := rd\<rparr>)" by (rule registry_ok_same [OF ok]) simp_all
  have "registry_ok pg1"
    by (rule registry_ok_finish [OF ok0 new, where obj' = "RdmaSideband (Rdma_new ident imp)"])
      (use new_object_Inr [OF new] in simp_all)
  then show ?thesis using reg by (rule registry_ok_Register)
qed

lemma registry_ok_session [registry_intros]:
  assumes ok: "registry_ok pg" and init: "Imp_InitFromConnection lib s isWrite pg = Inr (t, pg')"
  shows "registry_ok pg'"
proof -
  let ?rq = "with_session s isWrite (pg_rdma pg)"
  have same: "registry_ok (pg\<lparr>pg_rdma := ?rq, mc_rdma := rd\<rparr>)" for rd by (rule registry_ok_same [OF ok]) simp_all
  show ?thesis
  proof (cases "sessions_complete lib ?rq")
    case True
    then obtain rd pg1 where new: "new_rdma_object lib (rq_pendingWriteSession ?rq) (rq_pendingReadSession ?rq)
        (rq_nextConnectionId ?rq) (rq_nextConnectLowLatency ?rq) (rq_nextConnectBufferSize ?rq)
        (pg\<lparr>pg_rdma := ?rq, mc_rdma := rd\<rparr>) = Inr (t, pg1)"
      and pg': "pg_buffers pg' = pg_buffers pg1" "mc_next pg' = mc_next pg1" "mc_objects pg' = mc_objects pg1"
      using init
      by (auto simp: Imp_InitFromConnection_def sessions_complete_def with_session_def [symmetric] Let_def
          andThen_eq_Inr_iff)
    show ?thesis
      by (rule registry_ok_same [OF registry_ok_new_rdma [OF same new]]) (simp_all add: pg')
  next
    case False
    then have "pg' = pg\<lparr>pg_rdma := ?rq\<rparr>" using Init_incomplete [OF False] init by simp
    then show ?thesis by (intro registry_ok_same [OF ok]) simp_all
  qed
qed

lemma So_ConnectToSocket_id: "So_ConnectToSocket this a p ident low net = Inr (this', net') \<Longrightarrow> so_id this' = so_id this"
  by (auto simp: So_ConnectToSocket_def Let_def andThen_eq_Inr_iff split: option.splits prod.splits if_splits)

lemma So_ClientInit_registry:
  assumes ok: "registry_ok pg" and init: "So_ClientInit url ident n low pg = Inr (t, pg')"
  shows "registry_ok pg'" and "\<exists>obj. mc_objects pg' t = Some obj \<and> UsageId obj = ident"
proof -
  let ?w = "So_new ident n low"
  obtain pg1 this net where new: "new_object (SocketSideband ?w) pg = Inr (t, pg1)"
    and conn: "So_ConnectToSocket ?w (SplitUrlString url ! 0) (SplitUrlString url ! 1) ident low (mc_net pg1) = Inr (this, net)"
    and pg': "pg' = pg1\<lparr>mc_net := net, mc_objects := (mc_objects pg1)(t \<mapsto> SocketSideband this)\<rparr>"
    using init by (auto simp: So_ClientInit_def Let_def andThen_eq_Inr_iff split: if_splits)
  show "registry_ok pg'"
    by (rule registry_ok_finish [OF ok new, where obj' = "SocketSideband this"]) (simp_all add: pg')
  have "so_id this = ident" using So_ConnectToSocket_id [OF conn] by (simp add: So_new_def)
  then show "\<exists>obj. mc_objects pg' t = Some obj \<and> UsageId obj = ident"
    using pg' by (simp add: UsageId_def So_UsageId_def)
qed

lemma Rdma_ClientInit_new:
  assumes "Rdma_ClientInit lib url low ident n pg = Inr (t, pg')"
  shows "\<exists>w r rd. new_rdma_object lib w r ident low n (pg\<lparr>mc_rdma := rd\<rparr>) = Inr (t, pg')"
  using assms
  by (fastforce simp: Rdma_ClientInit_def Imp_ClientInitFromConnection_def Let_def andThen_eq_Inr_iff split: if_splits)

lemma registry_ok_client [registry_intros]:
  assumes ok: "registry_ok pg" and init: "InitClientSidebandData lib url strategy ident n32 pg = Inr (k, t, pg')"
  shows "registry_ok pg'"
proof -
  let ?n = "scast n32 :: int64"
  have made: "registry_ok pg'" if id: "UsageId obj = ident" and run: "andThen (new_object obj pg) (\<lambda>(t, pg). insert_client ident t pg) = Inr (k, t, pg')" for obj
  proof -
    obtain t1 pg1 where new: "new_object obj pg = Inr (t1, pg1)" and ins: "insert_client ident t1 pg1 = Inr (k, t, pg')"
      using run by (auto simp: andThen_eq_Inr_iff)
    have "registry_ok pg1"
      by (rule registry_ok_finish [OF ok new, where obj' = obj]) (use new_object_Inr [OF new] in simp_all)
    moreover have "mc_objects pg1 t1 = Some obj" using new_object_Inr [OF new] by simp
    ultimately show ?thesis using registry_ok_insert_client [OF _ _ ins] id by blast
  qed
  have sock: "registry_ok pg'" if run: "andThen (So_ClientInit url ident ?n low pg) (\<lambda>(t, pg). insert_client ident t pg) = Inr (k, t, pg')" for low
  proof -
    obtain t1 pg1 where conn: "So_ClientInit url ident ?n low pg = Inr (t1, pg1)" and ins: "insert_client ident t1 pg1 = Inr (k, t, pg')"
      using run by (auto simp: andThen_eq_Inr_iff)
    show ?thesis using So_ClientInit_registry [OF ok conn] registry_ok_insert_client [OF _ _ ins] by blast
  qed
  have rdma: "registry_ok pg'" if "Rdma_ClientInit lib url low ident ?n pg = Inr (t, pg')" for low
  proof -
    obtain w r rd where new: "new_rdma_object lib w r ident low ?n (pg\<lparr>mc_rdma := rd\<rparr>) = Inr (t, pg')"
      using Rdma_ClientInit_new [OF \<open>Rdma_ClientInit lib url low ident ?n pg = Inr (t, pg')\<close>] by blast
    have "registry_ok (pg\<lparr>mc_rdma := rd\<rparr>)" by (rule registry_ok_same [OF ok]) simp_all
    then show ?thesis using new by (rule registry_ok_new_rdma)
  qed
  show ?thesis
    using init made [of "ShmSideband (Shm_new ident ?n)"] made [of "DblSideband (Dbl_new ident ?n)"] sock rdma
      registry_ok_insert_client [OF ok, of 0]
    by (cases strategy)
      (auto simp: InitClientSidebandData_def Let_def UsageId_def Shm_UsageId_def Dbl_UsageId_def Shm_new_def
        Dbl_new_def andThen_eq_Inr_iff)
qed

lemma Sideband_delete_frame:
  "Sideband_delete lib obj pg = Inr pg' \<Longrightarrow> mc_objects pg' = mc_objects pg \<and> mc_next pg' = mc_next pg \<and>
    machine.more pg' = machine.more pg"
  by (cases obj) (auto simp: Sideband_delete_def andThen_eq_Inr_iff)

lemma program_more: "machine.more pg' = machine.more pg \<Longrightarrow> pg_buffers pg' = pg_buffers (pg :: 's program)"
  by (cases pg; cases pg') simp

text \<open>What a close that returns has done.\<close>

lemma Close_Inr:
  assumes "CloseSidebandData lib t pg = Inr (k, pg')"
  obtains obj where "t \<noteq> 0" "mc_objects pg t = Some obj" "pg_buffers pg (UsageId obj) \<noteq> None"
    "pg_buffers pg' = (pg_buffers pg)(UsageId obj := None)" "mc_objects pg' = (mc_objects pg)(t := None)"
    "mc_next pg' = mc_next pg"
proof -
  obtain obj pg1 where obj: "deref t pg = Inr obj" "pg_buffers pg (UsageId obj) \<noteq> None"
    and del: "Sideband_delete lib obj pg = Inr pg1"
    and pg': "pg' = pg1\<lparr>pg_buffers := (pg_buffers pg1)(UsageId obj := None), mc_objects := (mc_objects pg1)(t := None)\<rparr>"
    using assms by (auto simp: CloseSidebandData_def andThen_eq_Inr_iff split: if_splits)
  have "pg_buffers pg1 = pg_buffers pg" "mc_objects pg1 = mc_objects pg" "mc_next pg1 = mc_next pg"
    using Sideband_delete_frame [OF del] program_more by auto
  then show thesis
    using that obj pg' by (auto simp: deref_def split: if_splits option.splits)
qed

lemma registry_ok_close [registry_intros]:
  assumes ok: "registry_ok pg" and close: "CloseSidebandData lib t pg = Inr (k, pg')"
  shows "registry_ok pg'"
proof -
  obtain obj where obj: "mc_objects pg t = Some obj"
    and pg': "pg_buffers pg' = (pg_buffers pg)(UsageId obj := None)" "mc_objects pg' = (mc_objects pg)(t := None)"
      "mc_next pg' = mc_next pg"
    by (rule Close_Inr [OF close])
  show ?thesis
    unfolding registry_ok_def
  proof (intro conjI allI impI)
    fix ident s assume "pg_buffers pg' ident = Some s"
    then have ident: "pg_buffers pg ident = Some s" "ident \<noteq> UsageId obj" using pg'(1) by (auto split: if_splits)
    then have "s = 0 \<or> (\<exists>ob. mc_objects pg s = Some ob \<and> UsageId ob = ident)"
      using ok by (auto simp: registry_ok_def)
    then show "s = 0 \<or> (\<exists>ob. mc_objects pg' s = Some ob \<and> UsageId ob = ident)"
      using ident(2) obj pg'(2) by (cases "s = t") auto
  next
    fix s assume "mc_objects pg' s \<noteq> None"
    then have "mc_objects pg s \<noteq> None" using pg'(2) by (auto split: if_splits)
    then have "0 < s \<and> s < mc_next pg" using ok by (simp add: registry_ok_def)
    then show "0 < s" "s < mc_next pg'" using pg'(3) by simp_all
  next
    show "0 < mc_next pg'" using ok pg'(3) by (simp add: registry_ok_def)
  qed
qed

lemma registry_ok_data [registry_intros]:
  assumes "registry_ok pg" and "data_call lib t pg pg'"
  shows "registry_ok pg'"
  using data_call_same_objects [OF assms(2)]
  by (intro registry_ok_same [OF assms(1)]) (auto simp: same_objects_def dest: program_more)

lemma registry_ok_step: "api_step lib pg pg' \<Longrightarrow> registry_ok pg \<Longrightarrow> registry_ok pg'"
  by (induction rule: api_step.induct) (blast intro: registry_intros)+

lemma registry_ok_history: "api_history lib pg pg' \<Longrightarrow> registry_ok pg \<Longrightarrow> registry_ok pg'"
  by (induction rule: api_history.induct) (blast intro: registry_ok_step)+

lemma registry_ok_start: "registry_ok (example_program fd plan)"
  by (simp add: registry_ok_def example_program_def)

section \<open>Properties of the registry\<close>

text \<open>
  C6. Over all histories of calls and accepted connections: a token that
  \<open>GetOwnerSidebandDataToken\<close> returns is null or the address of a live object whose usage id is the
  identifier asked for; two identifiers never share an object.
\<close>

theorem owner_token_is_live:
  assumes "api_history lib pg0 pg" and "registry_ok pg0"
    and "GetOwnerSidebandDataToken ident pg = Inr (k, t)" and "t \<noteq> 0"
  shows "\<exists>obj. deref t pg = Inr obj \<and> UsageId obj = ident"
proof -
  have "registry_ok pg" using assms(1,2) by (rule registry_ok_history)
  moreover have "pg_buffers pg ident = Some t"
    using assms(3) by (auto simp: GetOwnerSidebandDataToken_def split: option.splits)
  ultimately obtain obj where "mc_objects pg t = Some obj" "UsageId obj = ident"
    using assms(4) unfolding registry_ok_def by blast
  then show ?thesis using assms(4) by (simp add: deref_def)
qed

lemma example_owner:
  "\<exists>pg. InitOwnerSidebandData SHARED_MEMORY 64 (example_program 3 []) = Inr (0, ''TestBuffer'', pg) \<and>
    GetOwnerSidebandDataToken ''TestBuffer'' pg = Inr (0, 1) \<and>
    mc_objects pg = [1 \<mapsto> ShmSideband (Shm_InitNew 64)] \<and> mc_next pg = 2 \<and> pg_buffers pg = [''TestBuffer'' \<mapsto> 1]"
  by (simp add: InitOwnerSidebandData_def Init_shared_def new_object_def strcpy_def UsageId_def Shm_UsageId_def
      Shm_InitNew_def Shm_new_def emplace_def GetOwnerSidebandDataToken_def example_program_def)

theorem owner_token_is_live_witness:
  "\<exists>pg obj. InitOwnerSidebandData SHARED_MEMORY 64 (example_program 3 []) = Inr (0, ''TestBuffer'', pg) \<and>
    GetOwnerSidebandDataToken ''TestBuffer'' pg = Inr (0, 1) \<and> deref 1 pg = Inr obj \<and> UsageId obj = ''TestBuffer''"
proof -
  obtain pg where own: "InitOwnerSidebandData SHARED_MEMORY 64 (example_program 3 []) = Inr (0, ''TestBuffer'', pg)"
    and tok: "GetOwnerSidebandDataToken ''TestBuffer'' pg = Inr (0, 1)"
    using example_owner by blast
  have "api_history (fifo_lib 64 2) (example_program 3 []) pg"
    by (rule history_step [OF history_start step_owner [OF own]])
  then show ?thesis
    using owner_token_is_live [OF _ registry_ok_start tok] own tok by fastforce
qed

text \<open>
  C36. \<open>CloseSidebandData\<close> takes the object out of the registry and destroys it: its identifier is
  waited for again, and every function of the interface that is given the token afterwards, \<open>CloseSidebandData\<close>
  included, touches freed memory.
\<close>

theorem close_ends_token:
  assumes "CloseSidebandData lib t pg = Inr (k, pg')"
  shows "\<exists>obj. mc_objects pg t = Some obj \<and> GetOwnerSidebandDataToken (UsageId obj) pg' = Inl Blocks \<and>
    SidebandData_Write lib t bytes n pg' = Inl BadAccess \<and> SidebandData_Read lib t bytes n nread pg' = Inl BadAccess \<and>
    SidebandData_WriteLengthPrefixed lib t bytes n pg' = Inl BadAccess \<and>
    SidebandData_ReadFromLengthPrefixed t bytes n nread pg' = Inl BadAccess \<and>
    SidebandData_ReadLengthPrefix lib t pg' = Inl BadAccess \<and>
    SidebandData_SupportsDirectReadWrite t pg' = Inl BadAccess \<and>
    SidebandData_BeginDirectRead lib t n pg' = Inl BadAccess \<and>
    SidebandData_BeginDirectReadLengthPrefixed lib t n pg' = Inl BadAccess \<and>
    SidebandData_FinishDirectRead lib t pg' = Inl BadAccess \<and> SidebandData_BeginDirectWrite lib t pg' = Inl BadAccess \<and>
    SidebandData_FinishDirectWrite lib t n pg' = Inl BadAccess \<and> SidebandData_SerializeBuffer t pg' = Inl BadAccess \<and>
    WriteSidebandData lib t bytes n pg' = Inl BadAccess \<and> ReadSidebandData lib t bytes n nread pg' = Inl BadAccess \<and>
    CloseSidebandData lib t pg' = Inl BadAccess"
proof -
  obtain obj where obj: "t \<noteq> 0" "mc_objects pg t = Some obj"
    and pg': "pg_buffers pg' = (pg_buffers pg)(UsageId obj := None)" "mc_objects pg' = (mc_objects pg)(t := None)"
    by (rule Close_Inr [OF assms])
  have deref: "deref t pg' = Inl BadAccess" using obj pg'(2) by (simp add: deref_def)
  then have call: "call t f pg' = Inl BadAccess" for f by (simp add: call_def)
  show ?thesis
    using obj(2) pg'(1) deref
    by (simp add: GetOwnerSidebandDataToken_def call status_def read_status_def pointer_status_def CloseSidebandData_def
        SidebandData_Write_def SidebandData_Read_def SidebandData_WriteLengthPrefixed_def
        SidebandData_ReadFromLengthPrefixed_def SidebandData_ReadLengthPrefix_def
        SidebandData_SupportsDirectReadWrite_def SidebandData_BeginDirectRead_def
        SidebandData_BeginDirectReadLengthPrefixed_def SidebandData_FinishDirectRead_def
        SidebandData_BeginDirectWrite_def SidebandData_FinishDirectWrite_def SidebandData_SerializeBuffer_def
        WriteSidebandData_def ReadSidebandData_def)
qed

theorem close_ends_token_witness:
  "\<exists>pg pg' obj. InitOwnerSidebandData SHARED_MEMORY 64 (example_program 3 []) = Inr (0, ''TestBuffer'', pg) \<and>
    CloseSidebandData (fifo_lib 64 2) 1 pg = Inr (0, pg') \<and> mc_objects pg 1 = Some obj \<and>
    GetOwnerSidebandDataToken (UsageId obj) pg' = Inl Blocks \<and>
    SidebandData_Write (fifo_lib 64 2) 1 [5] 1 pg' = Inl BadAccess \<and> SidebandData_Read (fifo_lib 64 2) 1 [5] 1 0 pg' = Inl BadAccess \<and>
    SidebandData_WriteLengthPrefixed (fifo_lib 64 2) 1 [5] 1 pg' = Inl BadAccess \<and>
    SidebandData_ReadFromLengthPrefixed 1 [5] 1 0 pg' = Inl BadAccess \<and>
    SidebandData_ReadLengthPrefix (fifo_lib 64 2) 1 pg' = Inl BadAccess \<and>
    SidebandData_SupportsDirectReadWrite 1 pg' = Inl BadAccess \<and>
    SidebandData_BeginDirectRead (fifo_lib 64 2) 1 1 pg' = Inl BadAccess \<and>
    SidebandData_BeginDirectReadLengthPrefixed (fifo_lib 64 2) 1 1 pg' = Inl BadAccess \<and>
    SidebandData_FinishDirectRead (fifo_lib 64 2) 1 pg' = Inl BadAccess \<and> SidebandData_BeginDirectWrite (fifo_lib 64 2) 1 pg' = Inl BadAccess \<and>
    SidebandData_FinishDirectWrite (fifo_lib 64 2) 1 1 pg' = Inl BadAccess \<and> SidebandData_SerializeBuffer 1 pg' = Inl BadAccess \<and>
    WriteSidebandData (fifo_lib 64 2) 1 [5] 1 pg' = Inl BadAccess \<and> ReadSidebandData (fifo_lib 64 2) 1 [5] 1 0 pg' = Inl BadAccess \<and>
    CloseSidebandData (fifo_lib 64 2) 1 pg' = Inl BadAccess"
proof -
  obtain pg where own: "InitOwnerSidebandData SHARED_MEMORY 64 (example_program 3 []) = Inr (0, ''TestBuffer'', pg)"
    and obj: "mc_objects pg = [1 \<mapsto> ShmSideband (Shm_InitNew 64)]" and reg: "pg_buffers pg = [''TestBuffer'' \<mapsto> 1]"
    using example_owner by blast
  obtain pg' where close: "CloseSidebandData (fifo_lib 64 2) 1 pg = Inr (0, pg')"
    using obj reg by (simp add: CloseSidebandData_def deref_def UsageId_def Shm_UsageId_def Shm_InitNew_def Shm_new_def
        Sideband_delete_def)
  show ?thesis using own close close_ends_token [OF close, of "[5]" 1 0] by blast
qed

text \<open>
  C40. Every owner of a shared-memory connection gets the same identifier, \<open>TestBuffer\<close>. A second one
  makes an object that is not registered and that no token will ever name: the identifier still
  leads to the first object. A client in the same process fails the assertion in
  \<open>InitClientSidebandData\<close>.
\<close>

theorem shared_memory_owner_id_reused:
  assumes "registry_ok pg" and "pg_buffers pg ''TestBuffer'' = Some t" and "mc_next pg + 1 \<noteq> 0"
  shows "\<exists>pg'. InitOwnerSidebandData SHARED_MEMORY n pg = Inr (0, ''TestBuffer'', pg') \<and>
    GetOwnerSidebandDataToken ''TestBuffer'' pg' = Inr (0, t) \<and>
    mc_objects pg' (mc_next pg) = Some (ShmSideband (Shm_InitNew n)) \<and>
    (\<forall>ident. pg_buffers pg' ident \<noteq> Some (mc_next pg)) \<and>
    InitClientSidebandData lib url SHARED_MEMORY ''TestBuffer'' n32 pg = Inl AssertionFailed"
proof -
  let ?obj = "ShmSideband (Shm_InitNew n)"
  have new: "new_object ?obj pg = Inr (mc_next pg, pg\<lparr>mc_objects := (mc_objects pg)(mc_next pg \<mapsto> ?obj), mc_next := mc_next pg + 1\<rparr>)"
    using assms(3) by (simp add: new_object_def)
  have id: "UsageId ?obj = ''TestBuffer''" by (simp add: UsageId_def Shm_UsageId_def Shm_InitNew_def Shm_new_def)
  have unused: "\<forall>ident. pg_buffers pg ident \<noteq> Some (mc_next pg)" using registry_ok_new(4) [OF assms(1) new] by blast
  have client: "InitClientSidebandData lib url SHARED_MEMORY ''TestBuffer'' n32 pg = Inl AssertionFailed"
    using assms(2,3) by (simp add: InitClientSidebandData_def new_object_def insert_client_def Let_def)
  show ?thesis
    using new id unused client assms(2)
    by (simp add: InitOwnerSidebandData_def Init_shared_def strcpy_def emplace_def GetOwnerSidebandDataToken_def)
qed

theorem shared_memory_owner_id_reused_witness:
  "\<exists>pg pg'. InitOwnerSidebandData SHARED_MEMORY 64 (example_program 3 []) = Inr (0, ''TestBuffer'', pg) \<and>
    InitOwnerSidebandData SHARED_MEMORY 32 pg = Inr (0, ''TestBuffer'', pg') \<and>
    GetOwnerSidebandDataToken ''TestBuffer'' pg' = Inr (0, 1) \<and>
    mc_objects pg' (mc_next pg) = Some (ShmSideband (Shm_InitNew 32)) \<and>
    InitClientSidebandData (fifo_lib 64 2) ''host:1'' SHARED_MEMORY ''TestBuffer'' 64 pg = Inl AssertionFailed"
proof -
  obtain pg where own: "InitOwnerSidebandData SHARED_MEMORY 64 (example_program 3 []) = Inr (0, ''TestBuffer'', pg)"
    and reg: "pg_buffers pg ''TestBuffer'' = Some 1" and fresh: "mc_next pg + 1 \<noteq> 0"
    using example_owner by auto
  have "registry_ok pg" using registry_ok_owner [OF registry_ok_start own] .
  from shared_memory_owner_id_reused [OF this reg fresh, of 32 "fifo_lib 64 2" "''host:1''" 64] show ?thesis
    using own by blast
qed

text \<open>
  A client that asks for a strategy without a transport is told that all is well: the call returns
  0, enters a null pointer in the registry and hands out the null token, which crashes the first
  call that uses it.
\<close>

theorem client_unknown_strategy:
  assumes "strategy \<in> {UNKNOWN, GRPC, HYPERVISOR_SOCKETS}" and "pg_buffers pg ident = None"
  shows "\<exists>pg'. InitClientSidebandData lib url strategy ident n pg = Inr (0, 0, pg') \<and>
    GetOwnerSidebandDataToken ident pg' = Inr (0, 0) \<and>
    SidebandData_Write lib 0 bytes k pg' = Inl NullPointer \<and> CloseSidebandData lib 0 pg' = Inl NullPointer"
  using assms
  by (auto simp: InitClientSidebandData_def insert_client_def emplace_def GetOwnerSidebandDataToken_def
      SidebandData_Write_def call_def status_def deref_def CloseSidebandData_def Let_def)

theorem client_unknown_strategy_witness:
  "\<exists>pg'. InitClientSidebandData (fifo_lib 64 2) ''host:1'' GRPC ''X'' 64 (example_program 3 []) = Inr (0, 0, pg') \<and>
    GetOwnerSidebandDataToken ''X'' pg' = Inr (0, 0) \<and>
    SidebandData_Write (fifo_lib 64 2) 0 [1] 1 pg' = Inl NullPointer \<and>
    CloseSidebandData (fifo_lib 64 2) 0 pg' = Inl NullPointer"
  by (rule client_unknown_strategy) (simp_all add: example_program_def)

text \<open>
  The URL that the server reports for an RDMA strategy carries the port of the sockets listener.
  A client that connects to it fails the assertion in \<open>ClientInit\<close>, unless the RDMA library accepts
  connections on that port.
\<close>

theorem rdma_client_reported_url:
  assumes "GetSocketsAddress cfg ifs = Inr a" and "CHR '':'' \<notin> set a" and "sc_port cfg < 2 ^ 31" and "length ifs \<le> 1"
    and "length (pg_interfaces pg) \<le> 1"
    and "\<And>addr rd. \<exists>e s rd'. er_CreateConnectorSession lib addr 0 (er_InvalidSession lib) rd = Inr (e, s, rd')"
    and "\<And>s d addr rd. \<exists>e rd'. er_Connect lib s d addr (sockets_port cfg) timeoutMs rd = Inr (e, rd') \<and> e \<noteq> er_Error_Success lib"
  shows "\<exists>url. GetConnectionAddress cfg ifs RDMA = Inr url \<and>
    InitClientSidebandData lib url RDMA ident n pg = Inl AssertionFailed"
proof -
  obtain r where "GetRdmaAddress ifs = Inr r" using GetRdmaAddress_ok [OF assms(4)] by blast
  then have url: "GetConnectionAddress cfg ifs RDMA = Inr (a @ '':'' @ GetSocketsPort cfg)"
    using assms(1) by (auto simp: GetConnectionAddress_def)
  have tokens: "SplitUrlString (a @ '':'' @ GetSocketsPort cfg) = [a, GetSocketsPort cfg]"
    using assms(2) GetSocketsPort_parses(2,3) [OF assms(3)] by (simp add: SplitUrlString_token SplitUrlString_last)
  have port: "stoi (GetSocketsPort cfg) = Inr (sockets_port cfg)" by (rule GetSocketsPort_parses(1) [OF assms(3)])
  obtain local where "GetRdmaAddress (pg_interfaces pg) = Inr local" using GetRdmaAddress_ok [OF assms(5)] by blast
  moreover obtain e s rd where "er_CreateConnectorSession lib local 0 (er_InvalidSession lib) (mc_rdma pg) = Inr (e, s, rd)"
    using assms(6) by blast
  moreover obtain e' rd' where "er_Connect lib s (er_Direction_Receive lib) a (sockets_port cfg) timeoutMs rd = Inr (e', rd')"
    "e' \<noteq> er_Error_Success lib"
    using assms(7) by blast
  ultimately have "Rdma_ClientInit lib (a @ '':'' @ GetSocketsPort cfg) False ident k pg = Inl AssertionFailed" for k
    using tokens port by (simp add: Rdma_ClientInit_def assert_success_def)
  then show ?thesis using url by (simp add: InitClientSidebandData_def Let_def)
qed

text \<open>A library whose listeners are on the ports 50060 and 50061 only.\<close>

definition example_ports :: "fifo easyrdma" where
  "example_ports = (fifo_lib 64 2)\<lparr>er_Connect := (\<lambda>s d a p t rd.
     Inr (if p = 50060 \<or> p = 50061 then 0 else - 3, rd))\<rparr>"

theorem rdma_client_reported_url_witness:
  "\<exists>url. GetConnectionAddress \<lparr>sc_address = ''10.0.0.1'', sc_port = 50055\<rparr> [''10.0.0.1''] RDMA = Inr url \<and>
    InitClientSidebandData example_ports url RDMA ''ID:         2'' 64 (example_program 3 []) = Inl AssertionFailed"
  by (rule rdma_client_reported_url [where a = "''10.0.0.1''"])
    (simp_all add: GetSocketsAddress_def example_program_def example_ports_def fifo_lib_def sockets_port_def)

end
