(* ===== verification/SidebandMessages.thy ===== *)
theory SidebandMessages
  imports SidebandApi
begin

text \<open>
  Messages over a sideband connection (\<^verbatim>\<open>src/sideband_grpc.h\<close>): \<open>WriteSidebandMessage\<close> and
  \<open>ReadSidebandMessage\<close>. Serialising and parsing are done by protobuf, which is a parameter of the
  model.
\<close>

section \<open>Protobuf and memory\<close>

text \<open>
  \<open>pb_serialize\<close> is the wire format of a message, whose length is \<open>ByteSizeLong\<close>; \<open>pb_parse\<close> gives
  the result of \<open>ParseFromArray\<close> and what it leaves in the message that held the second argument.
\<close>

record 'm codec =
  pb_serialize :: "'m \<Rightarrow> byte list"
  pb_parse :: "byte list \<Rightarrow> 'm \<Rightarrow> bool \<times> 'm"

definition codec_ok :: "'m codec \<Rightarrow> bool" where
  "codec_ok pb \<longleftrightarrow> (\<forall>m old. pb_parse pb (pb_serialize pb m) old = (True, m))"

fun serialize_buffer :: "sideband \<Rightarrow> byte list" where
  "serialize_buffer (ShmSideband this) = sd_serializeBuffer this"
| "serialize_buffer (DblSideband this) = sd_serializeBuffer this"
| "serialize_buffer (SocketSideband this) = sd_serializeBuffer this"
| "serialize_buffer (RdmaSideband this) = sd_serializeBuffer this"

fun set_serialize_buffer :: "byte list \<Rightarrow> sideband \<Rightarrow> sideband" where
  "set_serialize_buffer bs (ShmSideband this) = ShmSideband (this\<lparr>sd_serializeBuffer := bs\<rparr>)"
| "set_serialize_buffer bs (DblSideband this) = DblSideband (this\<lparr>sd_serializeBuffer := bs\<rparr>)"
| "set_serialize_buffer bs (SocketSideband this) = SocketSideband (this\<lparr>sd_serializeBuffer := bs\<rparr>)"
| "set_serialize_buffer bs (RdmaSideband this) = RdmaSideband (this\<lparr>sd_serializeBuffer := bs\<rparr>)"

text \<open>The memory behind a pointer. Nothing is touched when the length is 0.\<close>

definition pointer_read :: "pointer \<Rightarrow> nat \<Rightarrow> ('s, 'a) machine_scheme \<Rightarrow> stop + byte list" where
  "pointer_read p n mc =
     (if n = 0 then Inr []
      else (case p of
              NullPtr \<Rightarrow> Inl NullPointer
            | InMapping q \<Rightarrow> ptr_read (mc_shm mc) q n
            | InRegion q \<Rightarrow> direct_view q (of_nat n) (mc_rdma mc)
            | InSerializeBuffer t \<Rightarrow> andThen (deref t mc) (\<lambda>obj. buf_read (serialize_buffer obj) 0 n)))"

definition pointer_write :: "pointer \<Rightarrow> byte list \<Rightarrow> ('s, 'a) machine_scheme \<Rightarrow> stop + ('s, 'a) machine_scheme" where
  "pointer_write p bytes mc =
     (if bytes = [] then Inr mc
      else (case p of
              NullPtr \<Rightarrow> Inl NullPointer
            | InMapping q \<Rightarrow> andThen (ptr_write (mc_shm mc) q bytes) (\<lambda>px. Inr (mc\<lparr>mc_shm := px\<rparr>))
            | InRegion q \<Rightarrow> andThen (direct_fill q bytes (mc_rdma mc)) (\<lambda>rd. Inr (mc\<lparr>mc_rdma := rd\<rparr>))
            | InSerializeBuffer t \<Rightarrow> andThen (deref t mc) (\<lambda>obj.
                andThen (buf_write (serialize_buffer obj) 0 bytes) (\<lambda>bs.
                Inr (mc\<lparr>mc_objects := (mc_objects mc)(t \<mapsto> set_serialize_buffer bs obj)\<rparr>)))))"

text \<open>
  Both calls take an \<open>int\<close>, to which the 64-bit size is narrowed. \<open>SerializeToArray\<close> writes nothing
  if that is smaller than the message.
\<close>

definition ParseFromArray :: "'m codec \<Rightarrow> pointer \<Rightarrow> int64 \<Rightarrow> 'm \<Rightarrow> ('s, 'a) machine_scheme \<Rightarrow>
    stop + (bool \<times> 'm)" where
  "ParseFromArray pb p n m mc =
     andThen (pointer_read p (unat (scast (ucast n :: int32) :: int64)) mc) (\<lambda>bs. Inr (pb_parse pb bs m))"

definition SerializeToArray :: "'m codec \<Rightarrow> 'm \<Rightarrow> pointer \<Rightarrow> int64 \<Rightarrow> ('s, 'a) machine_scheme \<Rightarrow>
    stop + ('s, 'a) machine_scheme" where
  "SerializeToArray pb m p n mc =
     (if sint (ucast n :: int32) < int (length (pb_serialize pb m)) then Inr mc
      else pointer_write p (pb_serialize pb m) mc)"

section \<open>Messages\<close>

definition ReadSidebandMessage :: "'s easyrdma \<Rightarrow> 'm codec \<Rightarrow> token \<Rightarrow> 'm \<Rightarrow> ('s, 'a) machine_scheme \<Rightarrow>
    stop + (bool \<times> 'm \<times> ('s, 'a) machine_scheme)" where
  "ReadSidebandMessage lib pb t message mc =
     andThen (SidebandData_SupportsDirectReadWrite t mc) (\<lambda>direct.
     if direct = 1 then
       andThen (SidebandData_BeginDirectReadLengthPrefixed lib t 0 mc) (\<lambda>(result, buffer, bufferSize, mc).
       andThen (ParseFromArray pb buffer bufferSize message mc) (\<lambda>(success, message).
       andThen (SidebandData_FinishDirectRead lib t mc) (\<lambda>(result, mc).
       Inr (success, message, mc))))
     else
       andThen (SidebandData_ReadLengthPrefix lib t mc) (\<lambda>(result, bufferSize, mc).
       andThen (SidebandData_SerializeBuffer t mc) (\<lambda>(result, buffer, mc).
       andThen (deref t mc) (\<lambda>obj.
       andThen (SidebandData_ReadFromLengthPrefixed t (serialize_buffer obj) bufferSize 0 mc)
         (\<lambda>(result, bytes, bytesRead, mc).
       andThen (deref t mc) (\<lambda>obj.
       let mc = mc\<lparr>mc_objects := (mc_objects mc)(t \<mapsto> set_serialize_buffer bytes obj)\<rparr> in
       andThen (ParseFromArray pb buffer bufferSize message mc) (\<lambda>(success, message).
       if success then Inr (success, message, mc) else Inl AssertionFailed)))))))"

definition WriteSidebandMessage :: "'s easyrdma \<Rightarrow> 'm codec \<Rightarrow> token \<Rightarrow> 'm \<Rightarrow> ('s, 'a) machine_scheme \<Rightarrow>
    stop + (int64 \<times> ('s, 'a) machine_scheme)" where
  "WriteSidebandMessage lib pb t message mc =
     (let byteSize = of_nat (length (pb_serialize pb message)) in
     andThen (SidebandData_SupportsDirectReadWrite t mc) (\<lambda>direct.
     if direct = 1 then
       andThen (SidebandData_BeginDirectWrite lib t mc) (\<lambda>(result, buffer, mc).
       andThen (SerializeToArray pb message buffer byteSize mc) (\<lambda>mc.
       andThen (SidebandData_FinishDirectWrite lib t byteSize mc) (\<lambda>(result, mc).
       Inr (byteSize, mc))))
     else
       andThen (SidebandData_SerializeBuffer t mc) (\<lambda>(result, buffer, mc).
       andThen (SerializeToArray pb message buffer byteSize mc) (\<lambda>mc.
       andThen (deref t mc) (\<lambda>obj.
       andThen (SidebandData_WriteLengthPrefixed lib t (serialize_buffer obj) byteSize mc) (\<lambda>(result, mc).
       Inr (byteSize, mc)))))))"

text \<open>
  \<open>InitMonikerSidebandData\<close> and its overload: the client of a stream that the service has begun. The
  response carries the size as \<open>sint64\<close>, the call takes an \<open>int\<close>.
\<close>

record BeginMonikerSidebandStreamResponse =
  rs_strategy :: SidebandStrategy
  rs_connection_url :: string
  rs_sideband_identifier :: string
  rs_buffer_size :: int64

definition InitMonikerSidebandData :: "'s easyrdma \<Rightarrow> BeginMonikerSidebandStreamResponse \<Rightarrow> 's program \<Rightarrow>
    stop + (token \<times> 's program)" where
  "InitMonikerSidebandData lib initResponse pg =
     andThen (InitClientSidebandData lib (rs_connection_url initResponse) (rs_strategy initResponse)
         (rs_sideband_identifier initResponse) (ucast (rs_buffer_size initResponse)) pg)
       (\<lambda>(result, t, pg). Inr (t, pg))"

section \<open>Over a socket\<close>

lemma serialize_buffer_ready:
  assumes "buffer_allocated this" and "0 \<le> sint (sd_bufferSize this)"
  obtains this' where "SerializeBuffer (this :: SocketSidebandData) = Inr this'"
    and "length (sd_serializeBuffer this') = unat (sd_bufferSize this)" and "so_socket this' = so_socket this"
    and "\<And>buf. this'\<lparr>sd_serializeBuffer := buf\<rparr> = this\<lparr>sd_serializeBuffer := buf\<rparr>"
proof -
  obtain this' where s: "SerializeBuffer this = Inr this'" "length (sd_serializeBuffer this') = unat (sd_bufferSize this)"
    using SerializeBuffer_ok [OF assms] by blast
  moreover have "so_socket this' = so_socket this" "this'\<lparr>sd_serializeBuffer := buf\<rparr> = this\<lparr>sd_serializeBuffer := buf\<rparr>" for buf
    using s(1) by (auto simp: SerializeBuffer_def andThen_eq_Inr_iff split: if_splits)
  ultimately show thesis by (rule that)
qed

text \<open>An object of the socket transport behind a token, fit for messages of up to \<open>n\<close> bytes.\<close>

definition socket_at :: "token \<Rightarrow> SocketSidebandData \<Rightarrow> nat \<Rightarrow> ('s, 'a) machine_scheme \<Rightarrow> bool" where
  "socket_at t this n mc \<longleftrightarrow> t \<noteq> 0 \<and> mc_objects mc t = Some (SocketSideband this) \<and> buffer_allocated this \<and>
     0 \<le> sint (sd_bufferSize this) \<and> n \<le> unat (sd_bufferSize this)"

text \<open>What a message leaves behind: the network, and the buffer of the object.\<close>

definition after_message :: "token \<Rightarrow> SocketSidebandData \<Rightarrow> net \<Rightarrow> byte list \<Rightarrow> ('s, 'a) machine_scheme \<Rightarrow>
    ('s, 'a) machine_scheme" where
  "after_message t this net buf mc =
     mc\<lparr>mc_net := net, mc_objects := (mc_objects mc)(t \<mapsto> SocketSideband (this\<lparr>sd_serializeBuffer := buf\<rparr>))\<rparr>"

lemma socket_at_after_message:
  assumes "socket_at t this n mc" and "length buf = unat (sd_bufferSize this)"
  shows "socket_at t (this\<lparr>sd_serializeBuffer := buf\<rparr>) n (after_message t this net buf mc)"
  using assms by (simp add: socket_at_def after_message_def buffer_allocated_def)

lemma int32_of_length:
  assumes "n < 2 ^ 31"
  shows "sint (ucast (of_nat n :: int64) :: int32) = int n" and "unat (scast (ucast (of_nat n :: int64) :: int32) :: int64) = n"
proof -
  have "sint (of_nat n :: int32) = int n"
    using assms by (simp add: signed_of_nat take_bit_int_eq_self signed_take_bit_int_eq_self)
  moreover have "ucast (of_nat n :: int64) = (of_nat n :: int32)"
    using assms by (simp add: unsigned_of_nat take_bit_nat_eq_self)
  ultimately show 1: "sint (ucast (of_nat n :: int64) :: int32) = int n" by simp
  have "scast (ucast (of_nat n :: int64) :: int32) = (of_nat n :: int64)"
    using 1 by (metis of_int_of_nat_eq scast_eq)
  then show "unat (scast (ucast (of_nat n :: int64) :: int32) :: int64) = n" using assms by simp
qed

lemma So_send_socket: "so_socket a = so_socket b \<Longrightarrow> So_send a m net = So_send b m net"
  by (simp add: So_send_def So_WriteLengthPrefixed_def So_WriteToSocket_def cong: if_cong)

text \<open>
  A write serialises into the object's own buffer and sends from there; what becomes of the sending
  does not show in the result.
\<close>

lemma WriteSidebandMessage_socket:
  assumes at: "socket_at t w (length (pb_serialize pb m)) mc" and len: "length (pb_serialize pb m) < 2 ^ 31"
    and sent: "So_send w (pb_serialize pb m) (mc_net mc) = Inr (ok, net')"
  shows "\<exists>buf. length buf = unat (sd_bufferSize w) \<and>
    WriteSidebandMessage lib pb t m mc = Inr (of_nat (length (pb_serialize pb m)), after_message t w net' buf mc)"
proof -
  let ?bs = "pb_serialize pb m"
  have obj: "t \<noteq> 0" "mc_objects mc t = Some (SocketSideband w)"
    and ready: "buffer_allocated w" "0 \<le> sint (sd_bufferSize w)" "length ?bs \<le> unat (sd_bufferSize w)"
    using at by (auto simp: socket_at_def)
  obtain w1 where w1: "SerializeBuffer w = Inr w1" "length (sd_serializeBuffer w1) = unat (sd_bufferSize w)"
    "so_socket w1 = so_socket w" and w1': "\<And>buf. w1\<lparr>sd_serializeBuffer := buf\<rparr> = w\<lparr>sd_serializeBuffer := buf\<rparr>"
    using serialize_buffer_ready [OF ready(1,2)] by blast
  let ?buf = "mem_write 0 ?bs (sd_serializeBuffer w1)"
  let ?w2 = "w1\<lparr>sd_serializeBuffer := ?buf\<rparr>"
  have fit: "length ?bs \<le> length (sd_serializeBuffer w1)" using w1(2) ready(3) by simp
  have buf: "length ?buf = length (sd_serializeBuffer w1)" using fit by (simp add: length_mem_write)
  have "take (length ?bs) ?buf = ?bs"
    using read_write_same [of 0 ?bs "sd_serializeBuffer w1"] fit by (simp add: mem_read_def)
  then have send: "So_WriteLengthPrefixed w2 ?buf (of_nat (length ?bs)) net = So_send w2 ?bs net" for w2 net
    using So_WriteLengthPrefixed_take [of ?bs ?buf] fit buf len by simp
  let ?mc1 = "mc\<lparr>mc_objects := (mc_objects mc)(t \<mapsto> SocketSideband w1)\<rparr>"
  let ?mc2 = "mc\<lparr>mc_objects := (mc_objects mc)(t \<mapsto> SocketSideband ?w2)\<rparr>"
  have direct: "SidebandData_SupportsDirectReadWrite t mc = Inr 0"
    using obj by (simp add: SidebandData_SupportsDirectReadWrite_def deref_def Sideband_SupportsDirectReadWrite_def
        So_SupportsDirectReadWrite_def)
  have buffer: "SidebandData_SerializeBuffer t mc = Inr (0, InSerializeBuffer t, ?mc1)"
    using obj w1(1) by (simp add: SidebandData_SerializeBuffer_def call_def deref_def Sideband_SerializeBuffer_def)
  have "pointer_write (InSerializeBuffer t) ?bs ?mc1 = Inr (if ?bs = [] then ?mc1 else ?mc2)"
    using obj(1) fit by (simp add: pointer_write_def deref_def buf_write_def)
  moreover have "?mc1 = ?mc2" if "?bs = []"
    using that by (simp add: mem_write_def)
  ultimately have "pointer_write (InSerializeBuffer t) ?bs ?mc1 = Inr ?mc2" by (cases "?bs = []") simp_all
  then have ser: "SerializeToArray pb m (InSerializeBuffer t) (of_nat (length ?bs)) ?mc1 = Inr ?mc2"
    using int32_of_length(1) [OF len] by (simp add: SerializeToArray_def)
  have "So_send ?w2 ?bs (mc_net mc) = Inr (ok, net')"
    using sent So_send_socket [of ?w2 w] w1(3) by simp
  then have "SidebandData_WriteLengthPrefixed lib t ?buf (of_nat (length ?bs)) ?mc2 =
      Inr (if ok then 0 else - 1, ?mc2\<lparr>mc_net := net'\<rparr>)"
    using obj send
    by (simp add: SidebandData_WriteLengthPrefixed_def status_def call_def deref_def Sideband_WriteLengthPrefixed_def
        in_net_def)
  then have "WriteSidebandMessage lib pb t m mc = Inr (of_nat (length ?bs), ?mc2\<lparr>mc_net := net'\<rparr>)"
    using direct buffer ser obj(1)
    by (simp add: WriteSidebandMessage_def Let_def deref_def)
  moreover have "?mc2\<lparr>mc_net := net'\<rparr> = after_message t w net' ?buf mc" by (simp add: after_message_def w1')
  ultimately show ?thesis using buf w1(2) by auto
qed

lemma ReadSidebandMessage_socket:
  assumes at: "socket_at t r (length bs) mc" and len: "length bs < 2 ^ 31"
    and prefix: "So_ReadLengthPrefix r (mc_net mc) = Inr (of_nat (length bs), net1)"
    and payload: "\<And>dst. length bs \<le> length dst \<Longrightarrow> \<exists>net2. So_ReadFromLengthPrefixed r dst (of_nat (length bs)) 0 net1 =
      Inr (True, mem_write 0 bs dst, of_nat (length bs), net2) \<and> received net2"
    and parse: "pb_parse pb bs old = (success, m)"
  shows "if success
    then \<exists>net2 buf. received net2 \<and> length buf = unat (sd_bufferSize r) \<and>
      ReadSidebandMessage lib pb t old mc = Inr (True, m, after_message t r net2 buf mc)
    else ReadSidebandMessage lib pb t old mc = Inl AssertionFailed"
proof -
  have obj: "t \<noteq> 0" "mc_objects mc t = Some (SocketSideband r)"
    and ready: "buffer_allocated r" "0 \<le> sint (sd_bufferSize r)" "length bs \<le> unat (sd_bufferSize r)"
    using at by (auto simp: socket_at_def)
  obtain r1 where r1: "SerializeBuffer r = Inr r1" "length (sd_serializeBuffer r1) = unat (sd_bufferSize r)"
    "so_socket r1 = so_socket r" and r1': "\<And>buf. r1\<lparr>sd_serializeBuffer := buf\<rparr> = r\<lparr>sd_serializeBuffer := buf\<rparr>"
    using serialize_buffer_ready [OF ready(1,2)] by blast
  let ?buf0 = "sd_serializeBuffer r1"
  obtain net2 where "So_ReadFromLengthPrefixed r ?buf0 (of_nat (length bs)) 0 net1 =
      Inr (True, mem_write 0 bs ?buf0, of_nat (length bs), net2)" and received: "received net2"
    using payload [of ?buf0] r1(2) ready(3) by auto
  then have pay: "So_ReadFromLengthPrefixed r1 ?buf0 (of_nat (length bs)) 0 net1 =
      Inr (True, mem_write 0 bs ?buf0, of_nat (length bs), net2)"
    using r1(3) by (simp add: So_ReadFromLengthPrefixed_def So_Read_def So_ReadFromSocket_def)
  let ?mc1 = "mc\<lparr>mc_net := net1, mc_objects := (mc_objects mc)(t \<mapsto> SocketSideband r)\<rparr>"
  let ?mc2 = "mc\<lparr>mc_net := net1, mc_objects := (mc_objects mc)(t \<mapsto> SocketSideband r1)\<rparr>"
  let ?mc3 = "mc\<lparr>mc_net := net2, mc_objects := (mc_objects mc)(t \<mapsto> SocketSideband r1)\<rparr>"
  let ?mc4 = "?mc3\<lparr>mc_objects := (mc_objects mc)(t \<mapsto> SocketSideband (r1\<lparr>sd_serializeBuffer := mem_write 0 bs ?buf0\<rparr>))\<rparr>"
  have direct: "SidebandData_SupportsDirectReadWrite t mc = Inr 0"
    using obj by (simp add: SidebandData_SupportsDirectReadWrite_def deref_def Sideband_SupportsDirectReadWrite_def
        So_SupportsDirectReadWrite_def)
  have read_prefix: "SidebandData_ReadLengthPrefix lib t mc = Inr (0, of_nat (length bs), ?mc1)"
    using obj prefix by (simp add: SidebandData_ReadLengthPrefix_def call_def deref_def Sideband_ReadLengthPrefix_def in_net_def)
  have buffer: "SidebandData_SerializeBuffer t ?mc1 = Inr (0, InSerializeBuffer t, ?mc2)"
    using obj r1(1) by (simp add: SidebandData_SerializeBuffer_def call_def deref_def Sideband_SerializeBuffer_def)
  have read: "SidebandData_ReadFromLengthPrefixed t ?buf0 (of_nat (length bs)) 0 ?mc2 =
      Inr (0, mem_write 0 bs ?buf0, of_nat (length bs), ?mc3)"
    using obj pay by (simp add: SidebandData_ReadFromLengthPrefixed_def read_status_def call_def deref_def
        Sideband_ReadFromLengthPrefixed_def read_result_def in_net_def)
  have fit: "length bs \<le> length ?buf0" using r1(2) ready(3) by simp
  have "mem_read 0 (length bs) (mem_write 0 bs ?buf0) = bs" using fit by (simp add: memory_simps)
  then have "pointer_read (InSerializeBuffer t) (length bs) ?mc4 = Inr bs"
    using obj(1) fit by (simp add: pointer_read_def deref_def buf_read_def length_mem_write)
  then have "ParseFromArray pb (InSerializeBuffer t) (of_nat (length bs)) old ?mc4 = Inr (success, m)"
    using int32_of_length(2) [OF len] parse by (simp add: ParseFromArray_def)
  then have "ReadSidebandMessage lib pb t old mc = (if success then Inr (True, m, ?mc4) else Inl AssertionFailed)"
    using direct read_prefix buffer read obj(1)
    by (simp add: ReadSidebandMessage_def Let_def deref_def)
  moreover have "?mc4 = after_message t r net2 (mem_write 0 bs ?buf0) mc" by (simp add: after_message_def r1')
  moreover have "length (mem_write 0 bs ?buf0) = unat (sd_bufferSize r)" using fit r1(2) by (simp add: length_mem_write)
  ultimately show ?thesis using received by auto
qed

text \<open>A failing receive: the length is reported as 0, reading 0 bytes succeeds.\<close>

lemma ReadSidebandMessage_failed:
  assumes "socket_at t r 0 mc" and "pb_parse pb [] old = (True, m)"
    and "nt_eps (mc_net mc) (so_socket r) = Some ep" and "ep_recvs ep = Fail # evs"
  shows "\<exists>mc'. ReadSidebandMessage lib pb t old mc = Inr (True, m, mc')"
proof -
  let ?net = "after_recv (so_socket r) ep 0 evs (mc_net mc)"
  have "recv_again (so_socket r) 8 (mc_net mc) = Inr (- 1, [], ?net)"
    using assms(3,4) by (subst recv_again.simps) (simp add: sys_recv_def after_recv_def)
  then have "read_loop (so_socket r) (int64_bytes 0) 0 8 (mc_net mc) = Inr (False, int64_bytes 0, ?net)"
    by (subst read_loop.simps) simp
  then have prefix: "So_ReadLengthPrefix r (mc_net mc) = Inr (of_nat (length ([] :: byte list)), ?net)"
    by (simp add: So_ReadLengthPrefix_def So_ReadFromSocket_def)
  have payload: "\<exists>net2. So_ReadFromLengthPrefixed r dst (of_nat (length ([] :: byte list))) 0 ?net =
      Inr (True, mem_write 0 [] dst, of_nat (length ([] :: byte list)), net2) \<and> True" for dst
    by (simp add: So_ReadFromLengthPrefixed_def So_Read_def So_ReadFromSocket_def read_loop.simps mem_write_def)
  have "socket_at t r (length ([] :: byte list)) mc" using assms(1) by simp
  from ReadSidebandMessage_socket [OF this _ prefix payload assms(2), of lib] show ?thesis by auto
qed

section \<open>Properties of messages over a socket\<close>

text \<open>
  C15. A message written on one end of a socket connection is read as the same message on the other
  end, in another process, if it fits both objects' buffers and an \<open>int\<close>.
\<close>

theorem socket_sideband_message:
  assumes "codec_ok pb" and "socket_at tw w (length (pb_serialize pb m)) mw" and "socket_at tr r (length (pb_serialize pb m)) mr"
    and "length (pb_serialize pb m) < 2 ^ 31"
    and "So_channel w r (length (frame (pb_serialize pb m))) (length (frame (pb_serialize pb m))) (mc_net mw) []"
  shows "\<exists>mw' mr'. WriteSidebandMessage lib pb tw m mw = Inr (of_nat (length (pb_serialize pb m)), mw') \<and>
    ReadSidebandMessage lib pb tr old (mr\<lparr>mc_net := mc_net mw'\<rparr>) = Inr (True, m, mr')"
proof -
  let ?bs = "pb_serialize pb m"
  have chan: "So_channel w r (length (frame ?bs) + 0) (length (frame ?bs) + 0) (mc_net mw) []" using assms(5) by simp
  have fits: "message_fits ?bs" using assms(4) by (simp add: message_fits_def)
  obtain net' where sent: "So_send w ?bs (mc_net mw) = Inr (True, net')"
    and chan': "So_channel w r 0 (length (frame ?bs) + 0) net' [?bs]"
    using socket_channel.send_law [OF chan fits] by auto
  obtain mw' where wrote: "WriteSidebandMessage lib pb tw m mw = Inr (of_nat (length ?bs), mw')" and net: "mc_net mw' = net'"
    using WriteSidebandMessage_socket [OF assms(2,4) sent, of lib] by (auto simp: after_message_def)
  obtain net1 where prefix: "So_ReadLengthPrefix r net' = Inr (of_nat (length ?bs), net1)"
    using So_receive_parts [OF chan', of ?bs 0] by auto
  have payload: "\<exists>net2. So_ReadFromLengthPrefixed r dst (of_nat (length ?bs)) 0 net1 =
      Inr (True, mem_write 0 ?bs dst, of_nat (length ?bs), net2) \<and> True" if "length ?bs \<le> length dst" for dst
    using So_receive_parts [OF chan' that, of 0] prefix by auto
  have at: "socket_at tr r (length ?bs) (mr\<lparr>mc_net := net'\<rparr>)" using assms(3) by (simp add: socket_at_def)
  have parse: "pb_parse pb ?bs old = (True, m)" using assms(1) by (simp add: codec_ok_def)
  show ?thesis
    using wrote net ReadSidebandMessage_socket [OF at assms(4) _ payload parse, of lib] prefix by auto
qed

text \<open>Messages that are byte strings already, and a machine with one socket object.\<close>

definition bytes_codec :: "byte list codec" where
  "bytes_codec = \<lparr>pb_serialize = (\<lambda>m. m), pb_parse = (\<lambda>bs old. (True, bs))\<rparr>"

definition example_socket_machine :: "nat \<Rightarrow> net \<Rightarrow> fifo machine" where
  "example_socket_machine fd net = \<lparr>mc_objects = [1 \<mapsto> SocketSideband (So_new_accepted fd 64 False)], mc_next = 2,
     mc_shm = posix_init 16 4096 65536, mc_net = net, mc_rdma = fifo_start 2\<rparr>"

lemma example_socket_at: "n \<le> 64 \<Longrightarrow> socket_at 1 (So_new_accepted fd 64 False) n (example_socket_machine fd net)"
  by (simp add: socket_at_def example_socket_machine_def So_new_accepted_def buffer_allocated_def)

theorem socket_sideband_message_witness:
  "\<exists>mw' mr'. WriteSidebandMessage (fifo_lib 64 2) bytes_codec 1 [1, 2, 3] (example_socket_machine 4 (example_net 20)) =
      Inr (of_nat (length (pb_serialize bytes_codec [1, 2, 3])), mw') \<and>
    ReadSidebandMessage (fifo_lib 64 2) bytes_codec 1 [] ((example_socket_machine 5 (example_net 0))\<lparr>mc_net := mc_net mw'\<rparr>) =
      Inr (True, [1, 2, 3], mr')"
proof (rule socket_sideband_message)
  show "So_channel (So_new_accepted 4 64 False) (So_new_accepted 5 64 False) (length (frame (pb_serialize bytes_codec [1, 2, 3])))
      (length (frame (pb_serialize bytes_codec [1, 2, 3]))) (mc_net (example_socket_machine 4 (example_net 20))) []"
    using example_channel [of 11 20 11] by (simp add: example_socket_machine_def bytes_codec_def sizeof_int64_def)
qed (simp_all add: codec_ok_def bytes_codec_def example_socket_at)

text \<open>
  A write that the transport refuses looks like one that went through: the result is the size of
  the message all the same.
\<close>

theorem write_message_hides_failure:
  assumes "socket_at t w (length (pb_serialize pb m)) mc" and "length (pb_serialize pb m) < 2 ^ 31"
    and "nt_eps (mc_net mc) (so_socket w) = Some ep" and "ep_sends ep = Fail # evs"
  shows "\<exists>mc'. WriteSidebandMessage lib pb t m mc = Inr (of_nat (length (pb_serialize pb m)), mc') \<and>
    nt_eps (mc_net mc') = (nt_eps (mc_net mc))(so_socket w \<mapsto> ep\<lparr>ep_sends := evs\<rparr>)"
proof -
  let ?net = "(mc_net mc)\<lparr>nt_eps := (nt_eps (mc_net mc))(so_socket w \<mapsto> ep\<lparr>ep_sends := evs\<rparr>)\<rparr>"
  have "So_send w (pb_serialize pb m) (mc_net mc) = Inr (False, ?net)"
    using assms(3,4)
    by (simp add: So_send_def So_WriteLengthPrefixed_def So_WriteToSocket_def write_loop.simps sys_send_def Let_def)
  from WriteSidebandMessage_socket [OF assms(1,2) this, of lib] show ?thesis by (auto simp: after_message_def)
qed

theorem write_message_hides_failure_witness:
  "\<exists>mc'. WriteSidebandMessage (fifo_lib 64 2) bytes_codec 1 [1, 2, 3] (example_socket_machine 4
      ((example_net 20)\<lparr>nt_eps := [4 \<mapsto> (fresh_endpoint 5 [Fail])]\<rparr>)) =
      Inr (of_nat (length (pb_serialize bytes_codec [1, 2, 3])), mc') \<and>
    nt_eps (mc_net mc') = (nt_eps (mc_net (example_socket_machine 4 ((example_net 20)\<lparr>nt_eps := [4 \<mapsto> (fresh_endpoint 5 [Fail])]\<rparr>))))
      (so_socket (So_new_accepted 4 64 False) \<mapsto> (fresh_endpoint 5 [Fail])\<lparr>ep_sends := []\<rparr>)"
proof (rule write_message_hides_failure)
  show "nt_eps (mc_net (example_socket_machine 4 ((example_net 20)\<lparr>nt_eps := [4 \<mapsto> (fresh_endpoint 5 [Fail])]\<rparr>)))
      (so_socket (So_new_accepted 4 64 False)) = Some (fresh_endpoint 5 [Fail])"
    by (simp add: example_socket_machine_def So_new_accepted_def)
qed (simp_all add: bytes_codec_def example_socket_at fresh_endpoint_def)

text \<open>
  A receive that fails is read as an empty message: the length is reported as 0, reading 0 bytes
  succeeds, and protobuf parses no bytes as a message with default fields.
\<close>

theorem failed_read_is_empty_message:
  assumes "socket_at t r 0 mc" and "pb_parse pb [] old = (True, m)"
    and "nt_eps (mc_net mc) (so_socket r) = Some ep" and "ep_recvs ep = Fail # evs"
  shows "\<exists>mc'. ReadSidebandMessage lib pb t old mc = Inr (True, m, mc')"
  using assms by (rule ReadSidebandMessage_failed)

theorem failed_read_is_empty_message_witness:
  "\<exists>mc'. ReadSidebandMessage (fifo_lib 64 2) bytes_codec 1 [7] (example_socket_machine 4
      ((example_net 20)\<lparr>nt_eps := [4 \<mapsto> (fresh_endpoint 5 [Fail])]\<rparr>)) = Inr (True, [], mc')"
proof (rule failed_read_is_empty_message)
  show "nt_eps (mc_net (example_socket_machine 4 ((example_net 20)\<lparr>nt_eps := [4 \<mapsto> (fresh_endpoint 5 [Fail])]\<rparr>)))
      (so_socket (So_new_accepted 4 64 False)) = Some (fresh_endpoint 5 [Fail])"
    by (simp add: example_socket_machine_def So_new_accepted_def)
qed (simp_all add: bytes_codec_def example_socket_at fresh_endpoint_def)

text \<open>
  C37. The length that the peer sends is not checked against the serialisation buffer: a longer
  message, or just its prefix followed by enough bytes, is written behind the end of the buffer.
\<close>

theorem message_overflows_buffer:
  assumes "socket_at t r 0 mc" and "nt_eps (mc_net mc) (so_socket r) = Some ep"
    and "ep_in ep = int64_bytes n @ rest" and "0 \<le> sint n" and "unat (sd_bufferSize r) < unat n"
    and "unat n \<le> length rest" and "grants_recvs (sizeof_int64 + unat n) (ep_recvs ep)"
  shows "ReadSidebandMessage lib pb t old mc = Inl BadAccess"
proof -
  have obj: "t \<noteq> 0" "mc_objects mc t = Some (SocketSideband r)"
    and ready: "buffer_allocated r" "0 \<le> sint (sd_bufferSize r)"
    using assms(1) by (auto simp: socket_at_def)
  obtain r1 where r1: "SerializeBuffer r = Inr r1" "length (sd_serializeBuffer r1) = unat (sd_bufferSize r)"
    "so_socket r1 = so_socket r"
    using serialize_buffer_ready [OF ready] by blast
  obtain evs where g: "grants_recvs (unat n) evs"
    and prefix: "So_ReadLengthPrefix r (mc_net mc) = Inr (n, after_recv (so_socket r) ep sizeof_int64 evs (mc_net mc))"
    using So_ReadLengthPrefix_total [OF assms(2,3,7)] by blast
  let ?ep = "ep\<lparr>ep_in := drop sizeof_int64 (ep_in ep), ep_recvs := evs\<rparr>"
  let ?net = "after_recv (so_socket r) ep sizeof_int64 evs (mc_net mc)"
  have n: "nat (sint n) = unat n" using sint_nonneg_unat [OF assms(4)] by (metis nat_int)
  have "read_loop (so_socket r) (sd_serializeBuffer r1) 0 (sint n) ?net = Inl BadAccess"
  proof (rule read_loop_overflow)
    show "nt_eps ?net (so_socket r) = Some ?ep" by simp
    show "nat (sint n) \<le> length (ep_in ?ep)" using assms(3,6) n by simp
    show "length (sd_serializeBuffer r1) < 0 + nat (sint n)" using assms(5) r1(2) n by simp
    show "grants_recvs (nat (sint n)) (ep_recvs ?ep)" using g n by simp
  qed simp
  then have payload: "So_ReadFromLengthPrefixed r1 (sd_serializeBuffer r1) n 0 ?net = Inl BadAccess"
    using r1(3) by (simp add: So_ReadFromLengthPrefixed_def So_Read_def So_ReadFromSocket_def)
  show ?thesis
    using obj prefix r1(1) payload
    by (simp add: ReadSidebandMessage_def SidebandData_SupportsDirectReadWrite_def deref_def
        Sideband_SupportsDirectReadWrite_def So_SupportsDirectReadWrite_def SidebandData_ReadLengthPrefix_def call_def
        Sideband_ReadLengthPrefix_def in_net_def SidebandData_SerializeBuffer_def Sideband_SerializeBuffer_def
        SidebandData_ReadFromLengthPrefixed_def read_status_def Sideband_ReadFromLengthPrefixed_def read_result_def)
qed

definition example_long_input :: "net" where
  "example_long_input = (example_net 0)\<lparr>nt_eps := [4 \<mapsto> (fresh_endpoint 5 (replicate 108 (Transfer 0)))
     \<lparr>ep_in := int64_bytes 100 @ replicate 100 0\<rparr>]\<rparr>"

theorem message_overflows_buffer_witness:
  "ReadSidebandMessage (fifo_lib 64 2) bytes_codec 1 [] (example_socket_machine 4 example_long_input) = Inl BadAccess"
proof (rule message_overflows_buffer)
  show "nt_eps (mc_net (example_socket_machine 4 example_long_input)) (so_socket (So_new_accepted 4 64 False)) =
      Some ((fresh_endpoint 5 (replicate 108 (Transfer 0)))\<lparr>ep_in := int64_bytes 100 @ replicate 100 0\<rparr>)"
    by (simp add: example_socket_machine_def example_long_input_def So_new_accepted_def)
  show "grants_recvs (sizeof_int64 + unat (100 :: int64))
      (ep_recvs ((fresh_endpoint 5 (replicate 108 (Transfer 0)))\<lparr>ep_in := int64_bytes 100 @ replicate 100 0\<rparr>))"
    using grants_recvs_transfers [of 108 108] by (simp add: fresh_endpoint_def sizeof_int64_def)
qed (simp_all add: example_socket_at fresh_endpoint_def, simp_all add: So_new_accepted_def)

section \<open>Over shared memory\<close>

text \<open>
  C39. Over shared memory messages do not arrive: the direct write puts the message at the start of
  the buffer, without the length that the direct read expects there. The reader takes the first
  eight bytes of the message for its length, and when that does not fit the buffer it reads outside
  the mapping.
\<close>

theorem shm_sideband_message_unframed:
  assumes "wf_posix (mc_shm mw)" and "Shm_ready 2 w (mc_shm mw)" and "Shm_ready 2 r (mc_shm mw)"
    and "shm_id w = shm_id r" and "shm_bufferSize w = shm_bufferSize r"
    and "tw \<noteq> 0" and "mc_objects mw tw = Some (ShmSideband w)" and "tr \<noteq> 0" and "mc_objects mr tr = Some (ShmSideband r)"
    and "8 \<le> length (pb_serialize pb m)" and "length (pb_serialize pb m) \<le> Shm_len w" and "length (pb_serialize pb m) < 2 ^ 31"
    and "k = unat (scast (ucast (bytes_int64 (take 8 (pb_serialize pb m))) :: int32) :: int64)" and "0 < k" and "Shm_len r < 8 + k"
  shows "\<exists>mw' p mr'. WriteSidebandMessage lib pb tw m mw = Inr (of_nat (length (pb_serialize pb m)), mw') \<and>
    SidebandData_BeginDirectReadLengthPrefixed lib tr 0 (mr\<lparr>mc_shm := mc_shm mw'\<rparr>) =
      Inr (0, p, bytes_int64 (take 8 (pb_serialize pb m)), mr') \<and>
    ReadSidebandMessage lib pb tr old (mr\<lparr>mc_shm := mc_shm mw'\<rparr>) = Inl BadAccess"
proof -
  let ?bs = "pb_serialize pb m" and ?px = "mc_shm mw"
  have compat: "Shm_compatible w r" and path: "Shm_path r = Shm_path w" and size: "Shm_len r = Shm_len w"
    using assms(4,5) by (simp_all add: Shm_compatible_def Shm_path_def)
  have ready_w: "Shm_ready (Suc 0) w ?px" by (rule Shm_ready_mono [OF assms(2)]) simp
  have ready_r: "Shm_ready (Suc 0 + Suc 0) r ?px" using assms(3) by (simp add: numeral_2_eq_2)
  obtain mp w1 px1 where get: "Shm_GetBuffer w ?px = (PMap mp 0, w1, px1)" and buf: "shm_buffer w1 = PMap mp 0"
    and e1: "Shm_effect (Suc 0) (\<lambda>v. v) w ?px w1 px1"
    using Shm_ready_GetBuffer [OF assms(1) ready_w] Shm_effect_one by blast
  have fits: "0 + length ?bs \<le> Shm_len w1" using assms(11) Shm_effect_basic(5) [OF e1] by simp
  obtain px2 where w: "shm_write mp px1 0 ?bs = Inr px2" and e2: "Shm_effect 0 (mem_write 0 ?bs) w1 px1 w1 px2"
    using Shm_attached_write [OF Shm_effect_basic(1,2) [OF e1] buf fits] by blast
  have e: "Shm_effect (Suc 0) (mem_write 0 ?bs) w ?px w1 px2" using Shm_effect_trans [OF e1 e2] by simp
  let ?mw = "mw\<lparr>mc_shm := px2, mc_objects := (mc_objects mw)(tw \<mapsto> ShmSideband w1)\<rparr>"
  have "?bs \<noteq> []" using assms(10) by auto
  then have wrote: "WriteSidebandMessage lib pb tw m mw = Inr (of_nat (length ?bs), ?mw)"
    using assms(6,7) get w int32_of_length(1) [OF assms(12)]
    by (simp add: WriteSidebandMessage_def SidebandData_SupportsDirectReadWrite_def deref_def
        Sideband_SupportsDirectReadWrite_def Shm_SupportsDirectReadWrite_def SidebandData_BeginDirectWrite_def
        pointer_status_def call_def Sideband_BeginDirectWrite_def Shm_BeginDirectWrite_def in_shm_def
        mapping_pointer_def SerializeToArray_def pointer_write_def ptr_write_def
        SidebandData_FinishDirectWrite_def status_def Sideband_FinishDirectWrite_def Let_def)
  have view: "Shm_view r px2 = mem_write 0 ?bs (Shm_view r ?px)"
    using Shm_effect_other(1) [OF e compat] path by simp
  have "Shm_ready (Suc 0) r px2" using Shm_effect_other(2) [OF e compat ready_r] .
  then obtain mp' r1 px3 where get': "Shm_GetBuffer r px2 = (PMap mp' 0, r1, px3)" and buf': "shm_buffer r1 = PMap mp' 0"
    and e3: "Shm_effect (Suc 0) (\<lambda>v. v) r px2 r1 px3"
    using Shm_ready_GetBuffer [OF Shm_effect_basic(1) [OF e]] Shm_effect_one by blast
  have att: "Shm_attached r1 px3" and len: "Shm_len r1 = Shm_len r" using Shm_effect_basic(2,5) [OF e3] by simp_all
  have "mem_read 0 8 (Shm_view r1 px3) = take 8 ?bs"
    using Shm_effect_view [OF e3] view assms(10) by (simp add: mem_read_def mem_write_def)
  then have prefix: "shm_read mp' px3 0 sizeof_int64 = Inr (take 8 ?bs)"
    using Shm_attached_read [OF att buf', of 0 8] len size assms(10,11) by (simp add: sizeof_int64_def)
  have outside: "shm_read mp' px3 8 k = Inl BadAccess"
    using Shm_attached_region(1) [OF att buf'] len assms(15) by (simp add: shm_read_def)
  let ?mr = "mr\<lparr>mc_shm := px3, mc_objects := (mc_objects mr)(tr \<mapsto> ShmSideband r1)\<rparr>"
  have begin_read: "SidebandData_BeginDirectReadLengthPrefixed lib tr 0 (mr\<lparr>mc_shm := px2\<rparr>) =
      Inr (0, InMapping (PMap mp' 8), bytes_int64 (take 8 ?bs), ?mr)"
    using assms(8,9) get' prefix
    by (simp add: SidebandData_BeginDirectReadLengthPrefixed_def call_def deref_def
        Sideband_BeginDirectReadLengthPrefixed_def Shm_BeginDirectReadLengthPrefixed_def ptr_read_def in_shm_def
        mapping_pointer_def sizeof_int64_def)
  have "ParseFromArray pb (InMapping (PMap mp' 8)) (bytes_int64 (take 8 ?bs)) old ?mr = Inl BadAccess"
    using outside assms(13,14) by (simp add: ParseFromArray_def pointer_read_def ptr_read_def)
  then have "ReadSidebandMessage lib pb tr old (mr\<lparr>mc_shm := px2\<rparr>) = Inl BadAccess"
    using assms(8,9) begin_read
    by (simp add: ReadSidebandMessage_def SidebandData_SupportsDirectReadWrite_def deref_def
        Sideband_SupportsDirectReadWrite_def Shm_SupportsDirectReadWrite_def)
  then show ?thesis using wrote begin_read by (intro exI [of _ ?mw]) simp
qed

definition example_shm_machine :: "fifo machine" where
  "example_shm_machine = \<lparr>mc_objects = [1 \<mapsto> ShmSideband (Shm_new ''X'' 64)], mc_next = 2,
     mc_shm = posix_init 16 4096 65536, mc_net = example_net 0, mc_rdma = fifo_start 2\<rparr>"

theorem shm_sideband_message_unframed_witness:
  "\<exists>mw' p mr'. WriteSidebandMessage (fifo_lib 64 2) bytes_codec 1 [200, 0, 0, 0, 0, 0, 0, 0, 7] example_shm_machine =
      Inr (of_nat (length (pb_serialize bytes_codec [200, 0, 0, 0, 0, 0, 0, 0, 7])), mw') \<and>
    SidebandData_BeginDirectReadLengthPrefixed (fifo_lib 64 2) 1 0 (example_shm_machine\<lparr>mc_shm := mc_shm mw'\<rparr>) =
      Inr (0, p, bytes_int64 (take 8 (pb_serialize bytes_codec [200, 0, 0, 0, 0, 0, 0, 0, 7])), mr') \<and>
    ReadSidebandMessage (fifo_lib 64 2) bytes_codec 1 [] (example_shm_machine\<lparr>mc_shm := mc_shm mw'\<rparr>) = Inl BadAccess"
proof (rule shm_sideband_message_unframed [where k = 200])
  show "mc_objects example_shm_machine 1 = Some (ShmSideband (Shm_new ''X'' 64))"
    and "mc_objects example_shm_machine 1 = Some (ShmSideband (Shm_new ''X'' 64))"
    by (simp_all add: example_shm_machine_def)
  show "wf_posix (mc_shm example_shm_machine)" by (simp add: example_shm_machine_def wf_posix_init)
qed (simp_all add: example_shm_machine_def bytes_codec_def Shm_ready_def Shm_openable_def Shm_new_def posix_init_def
      valid_shm_name_def Shm_path_def bytes_int64_def)

end
