(* ===== verification/MonikerService.thy ===== *)
theory MonikerService
  imports SidebandMessages
begin

text \<open>
  The data moniker service (\<^verbatim>\<open>moniker_src/moniker_service.cc\<close>): clients name data sources by
  monikers, the service looks up the endpoint functions that the application has registered for
  them, and streams values between the client and the endpoints, over gRPC or over a sideband
  connection.

  Values are \<open>google.protobuf.Any\<close> messages, of type \<open>'v\<close>; \<open>fresh\<close> is a new one. \<open>'w\<close> is the state
  behind the endpoint functions. The service calls overloads of \<open>InitOwnerSidebandData\<close>,
  \<open>GetOwnerSidebandDataToken\<close> and \<open>QueueSidebandConnection\<close> that the headers do not declare; they are
  taken to return the out parameter of the functions that are declared.
\<close>

section \<open>Messages\<close>

text \<open>
  The messages of \<^verbatim>\<open>moniker_src/data_moniker.proto\<close>. An unset submessage reads as the default one;
  whether it is set matters for its size.
\<close>

record Moniker =
  mo_service_location :: string
  mo_data_source :: string
  mo_data_instance :: int64

record MonikerList =
  ml_is_initial_write :: bool
  ml_read_monikers :: "Moniker list"
  ml_write_monikers :: "Moniker list"

type_synonym 'v MonikerValues = "'v list"

record 'v SidebandWriteRequest =
  sw_cancel :: bool
  sw_values :: "'v MonikerValues option"

record 'v SidebandReadResponse =
  sr_cancel :: bool
  sr_values :: "'v MonikerValues option"

datatype 'v MonikerWriteRequest = NoWriteData | WriteMonikers MonikerList | WriteData "'v MonikerValues"

record 'v MonikerReadResult =
  rr_data :: "'v MonikerValues option"

record BeginMonikerSidebandStreamRequest =
  bq_strategy :: SidebandStrategy
  bq_monikers :: MonikerList

definition empty_monikers :: MonikerList where
  "empty_monikers = \<lparr>ml_is_initial_write = False, ml_read_monikers = [], ml_write_monikers = []\<rparr>"

fun get_monikers :: "'v MonikerWriteRequest \<Rightarrow> MonikerList" where
  "get_monikers (WriteMonikers monikers) = monikers"
| "get_monikers _ = empty_monikers"

fun get_data :: "'v MonikerWriteRequest \<Rightarrow> 'v MonikerValues" where
  "get_data (WriteData vs) = vs"
| "get_data _ = []"

fun set_data :: "'v MonikerValues \<Rightarrow> 'v MonikerWriteRequest \<Rightarrow> 'v MonikerWriteRequest" where
  "set_data vs (WriteData _) = WriteData vs"
| "set_data vs m = m"

definition sent_values :: "'v SidebandWriteRequest \<Rightarrow> 'v MonikerValues" where
  "sent_values request = (case sw_values request of None \<Rightarrow> [] | Some vs \<Rightarrow> vs)"

definition set_sent_values :: "'v MonikerValues \<Rightarrow> 'v SidebandWriteRequest \<Rightarrow> 'v SidebandWriteRequest" where
  "set_sent_values vs request = request\<lparr>sw_values := map_option (\<lambda>_. vs) (sw_values request)\<rparr>"

section \<open>Endpoints\<close>

text \<open>
  An endpoint function gets the instance pointer of a moniker and a value, which it may change. Its
  status is ignored by every caller.
\<close>

type_synonym ('v, 'w) endpoint_function = "int64 \<Rightarrow> 'v \<Rightarrow> 'w \<Rightarrow> stop + ('v \<times> 'w)"
type_synonym ('v, 'w) MonikerEndpointPtr = "('v, 'w) endpoint_function option"
type_synonym ('v, 'w) EndpointInstance = "('v, 'w) MonikerEndpointPtr \<times> int64"

definition call_endpoint :: "('v, 'w) EndpointInstance \<Rightarrow> 'v \<Rightarrow> 'w \<Rightarrow> stop + ('v \<times> 'w)" where
  "call_endpoint e v w = (case fst e of None \<Rightarrow> Inl NullPointer | Some f \<Rightarrow> f (snd e) v w)"

text \<open>
  Calling the endpoints in order, the one at position \<open>x\<close> with the value at position \<open>x\<close> of a repeated
  field (\<open>values(x++)\<close>, \<open>mutable_values(x++)\<close>), whose bounds protobuf does not check.
\<close>

definition element :: "nat \<Rightarrow> 'v list \<Rightarrow> stop + 'v" where
  "element x vs = (if x < length vs then Inr (vs ! x) else Inl BadAccess)"

fun call_on_values :: "('v, 'w) EndpointInstance list \<Rightarrow> nat \<Rightarrow> 'v list \<Rightarrow> 'w \<Rightarrow> stop + ('v list \<times> 'w)" where
  "call_on_values [] x vs w = Inr (vs, w)"
| "call_on_values (e # es) x vs w =
     andThen (element x vs) (\<lambda>v.
     andThen (call_endpoint e v w) (\<lambda>(v, w).
     call_on_values es (Suc x) (vs[x := v]) w))"

text \<open>Calling the endpoints in order, each with a new value at the end of the field (\<open>add_values()\<close>).\<close>

fun call_on_new_values :: "'v \<Rightarrow> ('v, 'w) EndpointInstance list \<Rightarrow> 'v list \<Rightarrow> 'w \<Rightarrow> stop + ('v list \<times> 'w)" where
  "call_on_new_values fresh [] vs w = Inr (vs, w)"
| "call_on_new_values fresh (e # es) vs w =
     andThen (call_endpoint e fresh w) (\<lambda>(v, w). call_on_new_values fresh es (vs @ [v]) w)"

text \<open>\<open>mutable_values()\<close> and \<open>mutable_data()\<close>, which set the submessage, are called once for each reader.\<close>

definition if_any :: "'e list \<Rightarrow> 'v list \<Rightarrow> 'v list option" where
  "if_any readers vs = (if readers = [] then None else Some vs)"

section \<open>The service\<close>

text \<open>The static \<open>s_Server\<close>, and the endpoints of the servers by the address of the server.\<close>

record ('v, 'w) service =
  ms_s_Server :: token
  ms_servers :: "token \<rightharpoonup> string \<rightharpoonup> ('v, 'w) MonikerEndpointPtr"

definition get_endpoints :: "token \<Rightarrow> ('v, 'w) service \<Rightarrow> stop + (string \<rightharpoonup> ('v, 'w) MonikerEndpointPtr)" where
  "get_endpoints this sv =
     (if this = 0 then Inl NullPointer
      else (case ms_servers sv this of None \<Rightarrow> Inl BadAccess | Some endpoints \<Rightarrow> Inr endpoints))"

definition MonikerServiceImpl :: "token \<Rightarrow> ('v, 'w) service \<Rightarrow> ('v, 'w) service" where
  "MonikerServiceImpl this sv = sv\<lparr>ms_servers := (ms_servers sv)(this \<mapsto> Map.empty), ms_s_Server := this\<rparr>"

definition RegisterMonikerEndpoint :: "string \<Rightarrow> ('v, 'w) MonikerEndpointPtr \<Rightarrow> ('v, 'w) service \<Rightarrow>
    stop + ('v, 'w) service" where
  "RegisterMonikerEndpoint endpointName endpoint sv =
     andThen (get_endpoints (ms_s_Server sv) sv) (\<lambda>endpoints.
     Inr (sv\<lparr>ms_servers := (ms_servers sv)(ms_s_Server sv \<mapsto> emplace endpointName endpoint endpoints)\<rparr>))"

definition RegisterMonikerInstance :: "string \<Rightarrow> int64 \<Rightarrow> Moniker \<Rightarrow> Moniker" where
  "RegisterMonikerInstance endpointName instanceData moniker =
     moniker\<lparr>mo_data_instance := instanceData, mo_service_location := ''local'', mo_data_source := endpointName\<rparr>"

fun push_instances :: "(string \<rightharpoonup> ('v, 'w) MonikerEndpointPtr) \<Rightarrow> Moniker list \<Rightarrow> ('v, 'w) EndpointInstance list \<Rightarrow>
    ('v, 'w) EndpointInstance list" where
  "push_instances endpoints [] es = es"
| "push_instances endpoints (m # ms) es =
     push_instances endpoints ms
       (es @ [(case endpoints (mo_data_source m) of None \<Rightarrow> None | Some ptr \<Rightarrow> ptr, mo_data_instance m)])"

definition InitiateMonikerList :: "(string \<rightharpoonup> ('v, 'w) MonikerEndpointPtr) \<Rightarrow> MonikerList \<Rightarrow>
    ('v, 'w) EndpointInstance list \<times> ('v, 'w) EndpointInstance list" where
  "InitiateMonikerList endpoints monikers =
     (push_instances endpoints (ml_read_monikers monikers) [], push_instances endpoints (ml_write_monikers monikers) [])"

section \<open>Loops\<close>

text \<open>
  A loop that may run for ever: \<open>turn\<close> is one evaluation of its condition and body and says whether
  to go on. \<^term>\<open>None\<close> is the loop that does not end.
\<close>

partial_function (option) repeat_turns :: "('x \<Rightarrow> stop + (bool \<times> 'x)) \<Rightarrow> 'x \<Rightarrow> (stop + 'x) option" where
  "repeat_turns turn x =
     (case turn x of
        Inl e \<Rightarrow> Some (Inl e)
      | Inr (go_on, x) \<Rightarrow> if go_on then repeat_turns turn x else Some (Inr x))"

definition after_loop :: "(stop + 'x) option \<Rightarrow> ('x \<Rightarrow> stop + 'y) \<Rightarrow> (stop + 'y) option" where
  "after_loop r f = map_option (\<lambda>r. andThen r f) r"

section \<open>Streaming over a sideband connection\<close>

text \<open>
  The two loops of \<open>RunSidebandReadWriteLoop\<close>. \<open>recv\<close> and \<open>send\<close> are \<open>ReadSidebandMessage\<close> and
  \<open>WriteSidebandMessage\<close> on the token of the connection; the state is the write request, which is
  reused, the process and the endpoints' state.
\<close>

definition write_first_turn :: "('v SidebandWriteRequest \<Rightarrow> 'p \<Rightarrow> stop + (bool \<times> 'v SidebandWriteRequest \<times> 'p)) \<Rightarrow>
    ('v SidebandReadResponse \<Rightarrow> 'p \<Rightarrow> stop + (int64 \<times> 'p)) \<Rightarrow> 'v \<Rightarrow>
    ('v, 'w) EndpointInstance list \<Rightarrow> ('v, 'w) EndpointInstance list \<Rightarrow>
    'v SidebandWriteRequest \<times> 'p \<times> 'w \<Rightarrow> stop + (bool \<times> 'v SidebandWriteRequest \<times> 'p \<times> 'w)" where
  "write_first_turn recv send fresh readers writers = (\<lambda>(writeRequest, p, w).
     andThen (recv writeRequest p) (\<lambda>(success, writeRequest, p).
     if \<not> success \<or> sw_cancel writeRequest then Inr (False, writeRequest, p, w)
     else
       andThen (call_on_values writers 0 (sent_values writeRequest) w) (\<lambda>(vs, w).
       let writeRequest = set_sent_values vs writeRequest in
       if 0 < length readers then
         andThen (call_on_new_values fresh readers [] w) (\<lambda>(vs, w).
         andThen (send \<lparr>sr_cancel = False, sr_values = if_any readers vs\<rparr> p) (\<lambda>(sent, p).
         Inr (sent \<noteq> 0, writeRequest, p, w)))
       else Inr (True, writeRequest, p, w))))"

definition read_first_turn :: "('v SidebandWriteRequest \<Rightarrow> 'p \<Rightarrow> stop + (bool \<times> 'v SidebandWriteRequest \<times> 'p)) \<Rightarrow>
    ('v SidebandReadResponse \<Rightarrow> 'p \<Rightarrow> stop + (int64 \<times> 'p)) \<Rightarrow>
    ('v, 'w) EndpointInstance list \<Rightarrow> ('v, 'w) EndpointInstance list \<Rightarrow>
    'v SidebandWriteRequest \<times> 'p \<times> 'w \<Rightarrow> stop + (bool \<times> 'v SidebandWriteRequest \<times> 'p \<times> 'w)" where
  "read_first_turn recv send readers writers = (\<lambda>(writeRequest, p, w).
     andThen (call_on_values readers 0 [] w) (\<lambda>(vs, w).
     andThen (send \<lparr>sr_cancel = False, sr_values = if_any readers vs\<rparr> p) (\<lambda>(sent, p).
     if sent = 0 then Inr (False, writeRequest, p, w)
     else if 0 < length writers then
       andThen (recv writeRequest p) (\<lambda>(success, writeRequest, p).
       if \<not> success \<or> sw_cancel writeRequest then Inr (False, writeRequest, p, w)
       else
         andThen (call_on_values writers 0 (sent_values writeRequest) w) (\<lambda>(vs, w).
         Inr (True, set_sent_values vs writeRequest, p, w)))
     else Inr (True, writeRequest, p, w))))"

text \<open>
  \<open>rq\<close> and \<open>rs\<close> are the codecs of the two messages. The CPU affinity of the thread has no effect on
  what it computes; it is all the strategy is used for.
\<close>

definition RunSidebandReadWriteLoop :: "'s easyrdma \<Rightarrow> 'v SidebandWriteRequest codec \<Rightarrow> 'v SidebandReadResponse codec \<Rightarrow>
    'v \<Rightarrow> string \<Rightarrow> SidebandStrategy \<Rightarrow> ('v, 'w) EndpointInstance list \<Rightarrow> ('v, 'w) EndpointInstance list \<Rightarrow> bool \<Rightarrow>
    's program \<times> 'w \<Rightarrow> (stop + ('s program \<times> 'w)) option" where
  "RunSidebandReadWriteLoop lib rq rs fresh sidebandIdentifier strategy readers writers initialClientWrite = (\<lambda>(pg, w).
     case GetOwnerSidebandDataToken sidebandIdentifier pg of
       Inl e \<Rightarrow> Some (Inl e)
     | Inr (result, sidebandToken) \<Rightarrow>
         let recv = ReadSidebandMessage lib rq sidebandToken;
             send = WriteSidebandMessage lib rs sidebandToken;
             writeRequest = \<lparr>sw_cancel = False, sw_values = None\<rparr>
         in after_loop
              (if initialClientWrite
               then repeat_turns (write_first_turn recv send fresh readers writers) (writeRequest, pg, w)
               else repeat_turns (read_first_turn recv send readers writers) (writeRequest, pg, w))
              (\<lambda>(writeRequest, pg, w).
                 andThen (CloseSidebandData lib sidebandToken pg) (\<lambda>(result, pg). Inr (pg, w))))"

text \<open>\<open>BeginSidebandStream\<close> answers the request and starts a thread that runs the loop.\<close>

record ('v, 'w) loop_thread =
  th_identifier :: string
  th_strategy :: SidebandStrategy
  th_readers :: "('v, 'w) EndpointInstance list"
  th_writers :: "('v, 'w) EndpointInstance list"
  th_initialClientWrite :: bool

definition run_thread :: "'s easyrdma \<Rightarrow> 'v SidebandWriteRequest codec \<Rightarrow> 'v SidebandReadResponse codec \<Rightarrow> 'v \<Rightarrow>
    ('v, 'w) loop_thread \<Rightarrow> 's program \<times> 'w \<Rightarrow> (stop + ('s program \<times> 'w)) option" where
  "run_thread lib rq rs fresh th =
     RunSidebandReadWriteLoop lib rq rs fresh (th_identifier th) (th_strategy th) (th_readers th) (th_writers th)
       (th_initialClientWrite th)"

definition BeginSidebandStream :: "'s easyrdma \<Rightarrow> token \<Rightarrow> BeginMonikerSidebandStreamRequest \<Rightarrow> ('v, 'w) service \<Rightarrow>
    's program \<Rightarrow> stop + (BeginMonikerSidebandStreamResponse \<times> ('v, 'w) loop_thread \<times> 's program)" where
  "BeginSidebandStream lib this request sv pg =
     (let bufferSize = 1024 * 1024; strategy = bq_strategy request in
      andThen (InitOwnerSidebandData strategy bufferSize pg) (\<lambda>(result, identifier, pg).
      andThen (GetConnectionAddress (pg_config pg) (pg_interfaces pg) strategy) (\<lambda>url.
      let response = \<lparr>rs_strategy = strategy, rs_connection_url = url, rs_sideband_identifier = identifier,
                      rs_buffer_size = bufferSize\<rparr> in
      andThen (QueueSidebandConnection lib strategy identifier True True bufferSize pg) (\<lambda>(result, pg).
      andThen (get_endpoints this sv) (\<lambda>endpoints.
      let (readers, writers) = InitiateMonikerList endpoints (bq_monikers request) in
      Inr (response,
           \<lparr>th_identifier = identifier, th_strategy = strategy, th_readers = readers, th_writers = writers,
            th_initialClientWrite = ml_is_initial_write (bq_monikers request)\<rparr>,
           pg))))))"

section \<open>Streaming over gRPC\<close>

text \<open>
  A call in progress: the messages the client has still to send, whether the client ends its stream
  after them, at which questions \<open>IsCancelled\<close> answers yes, and the messages written. A \<open>Read\<close> waits
  for a message or the end of the stream; it leaves the message alone if it fails.
\<close>

record ('q, 'r) rpc =
  rpc_requests :: "'q list"
  rpc_ended :: bool
  rpc_cancelled :: "nat \<Rightarrow> bool"
  rpc_asked :: nat
  rpc_results :: "'r list"

definition rpc_Read :: "'q \<Rightarrow> ('q, 'r) rpc \<Rightarrow> stop + (bool \<times> 'q \<times> ('q, 'r) rpc)" where
  "rpc_Read request rpc =
     (case rpc_requests rpc of
        q # qs \<Rightarrow> Inr (True, q, rpc\<lparr>rpc_requests := qs\<rparr>)
      | [] \<Rightarrow> if rpc_ended rpc then Inr (False, request, rpc) else Inl Blocks)"

definition rpc_IsCancelled :: "('q, 'r) rpc \<Rightarrow> bool \<times> ('q, 'r) rpc" where
  "rpc_IsCancelled rpc = (rpc_cancelled rpc (rpc_asked rpc), rpc\<lparr>rpc_asked := Suc (rpc_asked rpc)\<rparr>)"

definition rpc_Write :: "'r \<Rightarrow> ('q, 'r) rpc \<Rightarrow> ('q, 'r) rpc" where
  "rpc_Write result rpc = rpc\<lparr>rpc_results := rpc_results rpc @ [result]\<rparr>"

definition read_write_turn :: "'v \<Rightarrow> ('v, 'w) EndpointInstance list \<Rightarrow> ('v, 'w) EndpointInstance list \<Rightarrow>
    'v MonikerWriteRequest \<times> ('v MonikerWriteRequest, 'v MonikerReadResult) rpc \<times> 'w \<Rightarrow>
    stop + (bool \<times> 'v MonikerWriteRequest \<times> ('v MonikerWriteRequest, 'v MonikerReadResult) rpc \<times> 'w)" where
  "read_write_turn fresh readers writers = (\<lambda>(writeRequest, rpc, w).
     andThen (rpc_Read writeRequest rpc) (\<lambda>(success, writeRequest, rpc).
     if \<not> success then Inr (False, writeRequest, rpc, w)
     else let (cancelled, rpc) = rpc_IsCancelled rpc in
     if cancelled then Inr (False, writeRequest, rpc, w)
     else
       andThen (call_on_values writers 0 (get_data writeRequest) w) (\<lambda>(vs, w).
       let writeRequest = set_data vs writeRequest in
       andThen (call_on_new_values fresh readers [] w) (\<lambda>(vs, w).
       Inr (True, writeRequest, rpc_Write \<lparr>rr_data = if_any readers vs\<rparr> rpc, w)))))"

definition no_read_turn :: "('v, 'w) EndpointInstance list \<Rightarrow> ('v, 'w) EndpointInstance list \<Rightarrow>
    'v MonikerWriteRequest \<times> ('v MonikerWriteRequest, 'v MonikerReadResult) rpc \<times> 'w \<Rightarrow>
    stop + (bool \<times> 'v MonikerWriteRequest \<times> ('v MonikerWriteRequest, 'v MonikerReadResult) rpc \<times> 'w)" where
  "no_read_turn readers writers = (\<lambda>(writeRequest, rpc, w).
     let (cancelled, rpc) = rpc_IsCancelled rpc in
     if cancelled then Inr (False, writeRequest, rpc, w)
     else
       andThen (call_on_values readers 0 [] w) (\<lambda>(vs, w).
       let rpc = rpc_Write \<lparr>rr_data = if_any readers vs\<rparr> rpc in
       andThen (call_on_values writers 0 (get_data writeRequest) w) (\<lambda>(vs, w).
       Inr (True, set_data vs writeRequest, rpc, w))))"

definition StreamReadWrite :: "'v \<Rightarrow> token \<Rightarrow> ('v, 'w) service \<Rightarrow>
    ('v MonikerWriteRequest, 'v MonikerReadResult) rpc \<times> 'w \<Rightarrow>
    (stop + (('v MonikerWriteRequest, 'v MonikerReadResult) rpc \<times> 'w)) option" where
  "StreamReadWrite fresh this sv = (\<lambda>(rpc, w).
     case andThen (rpc_Read NoWriteData rpc) (\<lambda>(success, writeRequest, rpc).
          andThen (get_endpoints this sv) (\<lambda>endpoints.
          Inr (InitiateMonikerList endpoints (get_monikers writeRequest), writeRequest, rpc))) of
       Inl e \<Rightarrow> Some (Inl e)
     | Inr ((readers, writers), writeRequest, rpc) \<Rightarrow>
         after_loop
           (if ml_is_initial_write (get_monikers writeRequest)
            then repeat_turns (read_write_turn fresh readers writers) (writeRequest, rpc, w)
            else repeat_turns (no_read_turn readers writers) (writeRequest, rpc, w))
           (\<lambda>(writeRequest, rpc, w). Inr (rpc, w)))"

definition read_turn :: "'v \<Rightarrow> ('v, 'w) EndpointInstance list \<Rightarrow> (unit, 'v MonikerReadResult) rpc \<times> 'w \<Rightarrow>
    stop + (bool \<times> (unit, 'v MonikerReadResult) rpc \<times> 'w)" where
  "read_turn fresh readers = (\<lambda>(rpc, w).
     let (cancelled, rpc) = rpc_IsCancelled rpc in
     if cancelled then Inr (False, rpc, w)
     else
       andThen (call_on_new_values fresh readers [] w) (\<lambda>(vs, w).
       Inr (True, rpc_Write \<lparr>rr_data = if_any readers vs\<rparr> rpc, w)))"

definition StreamRead :: "'v \<Rightarrow> token \<Rightarrow> MonikerList \<Rightarrow> ('v, 'w) service \<Rightarrow>
    (unit, 'v MonikerReadResult) rpc \<times> 'w \<Rightarrow> (stop + ((unit, 'v MonikerReadResult) rpc \<times> 'w)) option" where
  "StreamRead fresh this request sv = (\<lambda>(rpc, w).
     case get_endpoints this sv of
       Inl e \<Rightarrow> Some (Inl e)
     | Inr endpoints \<Rightarrow> repeat_turns (read_turn fresh (fst (InitiateMonikerList endpoints request))) (rpc, w))"

definition write_turn :: "('v, 'w) EndpointInstance list \<Rightarrow>
    'v MonikerWriteRequest \<times> ('v MonikerWriteRequest, unit) rpc \<times> 'w \<Rightarrow>
    stop + (bool \<times> 'v MonikerWriteRequest \<times> ('v MonikerWriteRequest, unit) rpc \<times> 'w)" where
  "write_turn writers = (\<lambda>(writeRequest, rpc, w).
     andThen (rpc_Read writeRequest rpc) (\<lambda>(success, writeRequest, rpc).
     if \<not> success then Inr (False, writeRequest, rpc, w)
     else let (cancelled, rpc) = rpc_IsCancelled rpc in
     if cancelled then Inr (False, writeRequest, rpc, w)
     else
       andThen (call_on_values writers 0 (get_data writeRequest) w) (\<lambda>(vs, w).
       Inr (True, set_data vs writeRequest, rpc, w))))"

definition StreamWrite :: "token \<Rightarrow> ('v, 'w) service \<Rightarrow> ('v MonikerWriteRequest, unit) rpc \<times> 'w \<Rightarrow>
    (stop + (('v MonikerWriteRequest, unit) rpc \<times> 'w)) option" where
  "StreamWrite this sv = (\<lambda>(rpc, w).
     case andThen (rpc_Read NoWriteData rpc) (\<lambda>(success, writeRequest, rpc).
          andThen (get_endpoints this sv) (\<lambda>endpoints.
          Inr (InitiateMonikerList endpoints (get_monikers writeRequest), writeRequest, rpc))) of
       Inl e \<Rightarrow> Some (Inl e)
     | Inr ((readers, writers), writeRequest, rpc) \<Rightarrow>
         after_loop (repeat_turns (write_turn writers) (writeRequest, rpc, w))
           (\<lambda>(writeRequest, rpc, w). Inr (rpc, w)))"

end
