(* ===== verification/MonikerLoop.thy ===== *)
theory MonikerLoop
  imports MonikerService
begin

text \<open>
  What the loops of the data moniker service compute: the endpoint calls and responses that a list of
  write requests asks for, as a function, and the interface to a connection over which the loop of
  \<open>RunSidebandReadWriteLoop\<close> carries them out.
\<close>

section \<open>Loops\<close>

lemma repeat_turns_stop: "turn x = Inl e \<Longrightarrow> repeat_turns turn x = Some (Inl e)"
  by (subst repeat_turns.simps) simp

lemma repeat_turns_end: "turn x = Inr (False, y) \<Longrightarrow> repeat_turns turn x = Some (Inr y)"
  by (subst repeat_turns.simps) simp

lemma repeat_turns_next: "turn x = Inr (True, y) \<Longrightarrow> repeat_turns turn x = repeat_turns turn y"
  by (subst repeat_turns.simps) simp

text \<open>A loop whose condition stays true and whose body keeps returning does not end.\<close>

lemma repeat_turns_None:
  assumes "going x" and "\<And>x. going x \<Longrightarrow> \<exists>y. turn x = Inr (True, y) \<and> going y"
  shows "repeat_turns turn x = None"
proof (rule ccontr)
  assume "repeat_turns turn x \<noteq> None"
  then obtain r where r: "repeat_turns turn x = Some r" by blast
  have "(case z of (t, x) \<Rightarrow> \<lambda>r. t = turn \<longrightarrow> \<not> going x) r" if "(case z of (t, x) \<Rightarrow> repeat_turns t x) = Some r" for z
  proof (rule repeat_turns.raw_induct [where P = "\<lambda>t x r. t = turn \<longrightarrow> \<not> going x", OF _ that])
    fix rep t x r
    assume IH: "\<And>t x r. rep t x = Some r \<Longrightarrow> t = turn \<longrightarrow> \<not> going x"
      and step: "(case t x of Inl e \<Rightarrow> Some (Inl e) | Inr (go_on, x) \<Rightarrow> if go_on then rep t x else Some (Inr x)) = Some r"
    show "t = turn \<longrightarrow> \<not> going x"
    proof (intro impI notI)
      assume t: "t = turn" and "going x"
      then obtain y where "turn x = Inr (True, y)" "going y" using assms(2) by blast
      then show False using step IH [of t y r] t by simp
    qed
  qed
  from this [of "(turn, x)"] show False using r assms(1) by simp
qed

lemma after_loop_simps [simp]:
  "after_loop None f = None" "after_loop (Some (Inl e)) f = Some (Inl e)" "after_loop (Some (Inr x)) f = Some (f x)"
  by (simp_all add: after_loop_def)

section \<open>Endpoints\<close>

text \<open>Endpoints that the application has registered and that return a value.\<close>

definition registered :: "('v, 'w) EndpointInstance \<Rightarrow> bool" where
  "registered e \<longleftrightarrow> fst e \<noteq> None"

lemma call_on_values_nil [simp]: "es \<noteq> [] \<Longrightarrow> call_on_values es 0 [] w = Inl BadAccess"
  by (cases es) (simp_all add: element_def)

lemma call_on_new_values_length:
  "call_on_new_values fresh es vs w = Inr (vs', w') \<Longrightarrow> length vs' = length vs + length es"
  by (induction es arbitrary: vs w) (auto simp: andThen_eq_Inr_iff)

lemma call_on_values_length:
  "call_on_values es x vs w = Inr (vs', w') \<Longrightarrow> length vs' = length vs"
  by (induction es arbitrary: x vs w) (fastforce simp: andThen_eq_Inr_iff)+

text \<open>
  Too few values for the writers: if the endpoints return, the first writer without a value makes the
  call fail.
\<close>

lemma call_on_values_short:
  assumes "length vs < x + length es" and "x \<le> length vs"
    and "\<And>e v w. e \<in> set es \<Longrightarrow> \<exists>v' w'. call_endpoint e v w = Inr (v', w')"
  shows "call_on_values es x vs w = Inl BadAccess"
  using assms
proof (induction es arbitrary: x vs w)
  case Nil
  then show ?case by simp
next
  case (Cons e es)
  show ?case
  proof (cases "x < length vs")
    case True
    obtain v' w' where "call_endpoint e (vs ! x) w = Inr (v', w')" using Cons.prems(3) [of e "vs ! x" w] by auto
    then show ?thesis using True Cons.IH [of "vs[x := v']" "Suc x" w'] Cons.prems by (simp add: element_def)
  next
    case False
    then show ?thesis by (simp add: element_def)
  qed
qed

lemma push_instances_append:
  "push_instances endpoints ms es =
     es @ map (\<lambda>m. (case endpoints (mo_data_source m) of None \<Rightarrow> None | Some ptr \<Rightarrow> ptr, mo_data_instance m)) ms"
  by (induction ms arbitrary: es) simp_all

section \<open>What a list of requests asks for\<close>

text \<open>
  For each request: the writers get its values in order, then the readers fill a list of new values.
  The result is these lists up to the first failure, and the final state of the endpoints or the failure.
\<close>

fun serve :: "'v \<Rightarrow> ('v, 'w) EndpointInstance list \<Rightarrow> ('v, 'w) EndpointInstance list \<Rightarrow> 'v list list \<Rightarrow> 'w \<Rightarrow>
    'v list list \<times> (stop + 'w)" where
  "serve fresh readers writers [] w = ([], Inr w)"
| "serve fresh readers writers (vs # vss) w =
     (case andThen (call_on_values writers 0 vs w) (\<lambda>(_, w). call_on_new_values fresh readers [] w) of
        Inl e \<Rightarrow> ([], Inl e)
      | Inr (out, w) \<Rightarrow>
          (let (outs, result) = serve fresh readers writers vss w
           in (out # outs, result)))"

text \<open>The responses that the loop sends for them: none, if there are no readers.\<close>

definition response :: "'v list \<Rightarrow> 'v SidebandReadResponse" where
  "response vs = \<lparr>sr_cancel = False, sr_values = Some vs\<rparr>"

definition responses :: "('v, 'w) EndpointInstance list \<Rightarrow> 'v list list \<Rightarrow> 'v SidebandReadResponse list" where
  "responses readers outs = (if readers = [] then [] else map response outs)"

lemma responses_simps [simp]:
  "responses readers [] = []" "readers \<noteq> [] \<Longrightarrow> responses readers (out # outs) = response out # responses readers outs"
  "responses [] outs = []"
  by (simp_all add: responses_def)

section \<open>One turn of the loop\<close>

text \<open>The turn that a message makes, by what the message asks for.\<close>

lemma turn_cancelled:
  assumes "recv old p = Inr (True, q, p1)" and "sw_cancel q"
  shows "write_first_turn recv send fresh readers writers (old, p, w) = Inr (False, q, p1, w)"
  using assms by (simp add: write_first_turn_def)

lemma turn_fails:
  assumes "recv old p = Inr (True, q, p1)" and "\<not> sw_cancel q"
    and "andThen (call_on_values writers 0 (sent_values q) w) (\<lambda>(_, w). call_on_new_values fresh readers [] w) = Inl e"
  shows "write_first_turn recv send fresh readers writers (old, p, w) = Inl e"
  using assms by (cases "readers = []") (auto simp: write_first_turn_def andThen_eq_Inl_iff Let_def)

lemma turn_serves:
  assumes "recv old p = Inr (True, q, p1)" and "\<not> sw_cancel q"
    and calls: "andThen (call_on_values writers 0 (sent_values q) w) (\<lambda>(_, w). call_on_new_values fresh readers [] w) = Inr (out, w')"
    and "if readers = [] then p2 = p1 else send (response out) p1 = Inr (n, p2) \<and> n \<noteq> 0"
  shows "\<exists>q'. write_first_turn recv send fresh readers writers (old, p, w) = Inr (True, q', p2, w')"
proof -
  obtain vs w1 where writes: "call_on_values writers 0 (sent_values q) w = Inr (vs, w1)"
    and reads: "call_on_new_values fresh readers [] w1 = Inr (out, w')"
    using calls by (auto simp: andThen_eq_Inr_iff)
  show ?thesis
    using assms(1,2,4) writes reads
    by (cases "readers = []") (simp_all add: write_first_turn_def Let_def if_any_def response_def)
qed

section \<open>Connections as their clients see them\<close>

text \<open>
  Writing and reading several messages. \<open>avail c p qs\<close>: in state \<open>p\<close> the messages \<open>qs\<close> have arrived
  and the environment grants \<open>c\<close> units for receiving.
\<close>

fun write_messages :: "('r \<Rightarrow> 'p \<Rightarrow> stop + (int64 \<times> 'p)) \<Rightarrow> 'r list \<Rightarrow> 'p \<Rightarrow> stop + 'p" where
  "write_messages send [] p = Inr p"
| "write_messages send (r # rs) p = andThen (send r p) (\<lambda>(n, p). write_messages send rs p)"

fun read_messages :: "('q \<Rightarrow> 'p \<Rightarrow> stop + (bool \<times> 'q \<times> 'p)) \<Rightarrow> 'q \<Rightarrow> nat \<Rightarrow> 'p \<Rightarrow> stop + ('q list \<times> 'p)" where
  "read_messages recv old 0 p = Inr ([], p)"
| "read_messages recv old (Suc n) p =
     andThen (recv old p) (\<lambda>(success, q, p).
     andThen (read_messages recv old n p) (\<lambda>(qs, p). Inr (q # qs, p)))"

locale message_source =
  fixes recv :: "'q \<Rightarrow> 'p \<Rightarrow> stop + (bool \<times> 'q \<times> 'p)"
    and avail :: "nat \<Rightarrow> 'p \<Rightarrow> 'q list \<Rightarrow> bool"
    and cost_in :: "'q \<Rightarrow> nat"
  assumes avail_law: "avail (cost_in q + c) p (q # qs) \<Longrightarrow> \<exists>p'. recv old p = Inr (True, q, p') \<and> avail c p' qs"
begin

lemma read_all:
  "avail (sum_list (map cost_in ms) + c) p (ms @ qs) \<Longrightarrow>
    \<exists>p'. read_messages recv old (length ms) p = Inr (ms, p') \<and> avail c p' qs"
proof (induction ms arbitrary: p)
  case Nil
  then show ?case by simp
next
  case (Cons m ms)
  have "avail (cost_in m + (sum_list (map cost_in ms) + c)) p (m # ms @ qs)" using Cons.prems by (simp add: add.assoc)
  then obtain p1 where p1: "recv old p = Inr (True, m, p1)" "avail (sum_list (map cost_in ms) + c) p1 (ms @ qs)"
    using avail_law by blast
  then show ?case using Cons.IH [OF p1(2)] by auto
qed

end

text \<open>
  \<open>room b p rs\<close>: in state \<open>p\<close> the messages \<open>rs\<close> are on their way to the other end and the environment
  grants \<open>b\<close> units for sending.
\<close>

locale message_sink =
  fixes send :: "'r \<Rightarrow> 'p \<Rightarrow> stop + (int64 \<times> 'p)"
    and room :: "nat \<Rightarrow> 'p \<Rightarrow> 'r list \<Rightarrow> bool"
    and cost_out :: "'r \<Rightarrow> nat"
    and fits :: "'r \<Rightarrow> bool"
  assumes room_law: "room (cost_out r + b) p rs \<Longrightarrow> fits r \<Longrightarrow> \<exists>n p'. send r p = Inr (n, p') \<and> room b p' (rs @ [r])"
begin

lemma write_all:
  "room (sum_list (map cost_out ms) + b) p rs \<Longrightarrow> list_all fits ms \<Longrightarrow>
    \<exists>p'. write_messages send ms p = Inr p' \<and> room b p' (rs @ ms)"
proof (induction ms arbitrary: p rs)
  case Nil
  then show ?case by simp
next
  case (Cons m ms)
  have "room (cost_out m + (sum_list (map cost_out ms) + b)) p rs" "fits m"
    using Cons.prems by (simp_all add: add.assoc)
  then obtain n p1 where p1: "send m p = Inr (n, p1)" "room (sum_list (map cost_out ms) + b) p1 (rs @ [m])"
    using room_law by blast
  then show ?case using Cons.IH [OF p1(2)] Cons.prems(2) by auto
qed

end

text \<open>
  \<open>port b c p qs rs\<close>: in state \<open>p\<close> the messages \<open>qs\<close> have arrived and the messages \<open>rs\<close> are on their
  way to the other end; the environment still grants \<open>b\<close> units for sending and \<open>c\<close> for receiving.
\<close>

locale message_port =
  fixes recv :: "'q \<Rightarrow> 'p \<Rightarrow> stop + (bool \<times> 'q \<times> 'p)"
    and send :: "'r \<Rightarrow> 'p \<Rightarrow> stop + (int64 \<times> 'p)"
    and port :: "nat \<Rightarrow> nat \<Rightarrow> 'p \<Rightarrow> 'q list \<Rightarrow> 'r list \<Rightarrow> bool"
    and cost_in :: "'q \<Rightarrow> nat"
    and cost_out :: "'r \<Rightarrow> nat"
    and fits :: "'r \<Rightarrow> bool"
  assumes recv_law: "port b (cost_in q + c) p (q # qs) rs \<Longrightarrow>
      \<exists>p'. recv old p = Inr (True, q, p') \<and> port b c p' qs rs"
    and send_law: "port (cost_out r + b) c p qs rs \<Longrightarrow> fits r \<Longrightarrow>
      \<exists>n p'. send r p = Inr (n, p') \<and> n \<noteq> 0 \<and> port b c p' qs (rs @ [r])"
text \<open>A port is a sink, whatever has arrived, and a source of messages, whatever it sends.\<close>

sublocale message_port \<subseteq> sink: message_sink send "\<lambda>b p rs. port b c p qs rs" cost_out fits
  for c qs
  by unfold_locales (use send_law in blast)

sublocale message_port \<subseteq> source: message_source recv "\<lambda>c p qs. \<exists>b rs. port b c p qs rs" cost_in
  by unfold_locales (use recv_law in blast)

text \<open>The port over which the service gets write requests and sends read responses.\<close>

locale service_port = message_port recv send port cost_in cost_out fits
  for recv :: "'v SidebandWriteRequest \<Rightarrow> 'p \<Rightarrow> stop + (bool \<times> 'v SidebandWriteRequest \<times> 'p)"
    and send :: "'v SidebandReadResponse \<Rightarrow> 'p \<Rightarrow> stop + (int64 \<times> 'p)"
    and port cost_in cost_out fits
begin

lemma cancel_ends_loop:
  assumes "port b (cost_in q + c) p (q # qs) rs" and "sw_cancel q"
  shows "\<exists>p'. write_first_turn recv send fresh readers writers (old, p, w) = Inr (False, q, p', w) \<and> port b c p' qs rs"
  using recv_law [OF assms(1), of old] assms(2) by (auto simp: write_first_turn_def)

text \<open>One turn: the values go to the writers and the readers' values back, or an endpoint stops the thread.\<close>

lemma failing_turn:
  assumes "port b (cost_in q + c) p (q # qs) rs" and "\<not> sw_cancel q"
    and "andThen (call_on_values writers 0 (sent_values q) w) (\<lambda>(_, w). call_on_new_values fresh readers [] w) = Inl e"
  shows "write_first_turn recv send fresh readers writers (old, p, w) = Inl e"
  using recv_law [OF assms(1), of old] turn_fails [where recv = recv, OF _ assms(2,3)] by blast

lemma serving_turn:
  assumes port: "port (sum_list (map cost_out (responses readers [out])) + b) (cost_in q + c) p (q # qs) rs"
    and go: "\<not> sw_cancel q"
    and calls: "andThen (call_on_values writers 0 (sent_values q) w) (\<lambda>(_, w). call_on_new_values fresh readers [] w) = Inr (out, w')"
    and fit: "list_all fits (responses readers [out])"
  shows "\<exists>q' p'. write_first_turn recv send fresh readers writers (old, p, w) = Inr (True, q', p', w') \<and>
    port b c p' qs (rs @ responses readers [out])"
proof -
  let ?cost = "sum_list (map cost_out (responses readers [out]))"
  obtain p1 where p1: "recv old p = Inr (True, q, p1)" "port (?cost + b) c p1 qs rs"
    using recv_law [OF port] by blast
  show ?thesis
  proof (cases "readers = []")
    case True
    then show ?thesis using turn_serves [where recv = recv and send = send, OF p1(1) go calls, of p1] p1(2) by auto
  next
    case False
    then obtain n p2 where p2: "send (response out) p1 = Inr (n, p2)" "n \<noteq> 0" "port b c p2 qs (rs @ [response out])"
      using send_law [of "response out" b c p1 qs rs] p1(2) fit by auto
    then show ?thesis using turn_serves [where recv = recv and send = send, OF p1(1) go calls, of p2 n] False by auto
  qed
qed

lemma write_first_loop:
  assumes "port (sum_list (map cost_out (responses readers outs)) + b) (sum_list (map cost_in qs) + (cost_in stop + c))
      p (qs @ stop # rest) rs"
    and "list_all (\<lambda>q. \<not> sw_cancel q) qs" and "sw_cancel stop"
    and "serve fresh readers writers (map sent_values qs) w = (outs, result)"
    and "list_all fits (responses readers outs)"
  shows "case result of
      Inl e \<Rightarrow> repeat_turns (write_first_turn recv send fresh readers writers) (old, p, w) = Some (Inl e)
    | Inr w' \<Rightarrow> \<exists>p'. repeat_turns (write_first_turn recv send fresh readers writers) (old, p, w) = Some (Inr (stop, p', w')) \<and>
        port b c p' rest (rs @ responses readers outs)"
  using assms
proof (induction qs arbitrary: p w outs rs old)
  case Nil
  then have start: "port b (cost_in stop + c) p (stop # rest) rs" by simp
  then obtain p' where turn: "write_first_turn recv send fresh readers writers (old, p, w) = Inr (False, stop, p', w)"
    and "port b c p' rest rs"
    using cancel_ends_loop [OF start Nil.prems(3), of fresh readers writers old w] by blast
  then show ?case using Nil.prems(4) repeat_turns_end [of "write_first_turn recv send fresh readers writers", OF turn] by auto
next
  case (Cons q qs)
  let ?turn = "write_first_turn recv send fresh readers writers"
  let ?cost = "\<lambda>outs. sum_list (map cost_out (responses readers outs))"
  let ?left = "sum_list (map cost_in qs) + (cost_in stop + c)"
  let ?calls = "andThen (call_on_values writers 0 (sent_values q) w) (\<lambda>(_, w). call_on_new_values fresh readers [] w)"
  have start: "port (?cost outs + b) (cost_in q + ?left) p (q # qs @ stop # rest) rs"
    using Cons.prems(1) by (simp add: add.assoc)
  have go: "\<not> sw_cancel q" "list_all (\<lambda>q. \<not> sw_cancel q) qs" using Cons.prems(2) by simp_all
  show ?case
  proof (cases ?calls)
    case (Inl e)
    then have "result = Inl e" using Cons.prems(4) by simp
    then show ?thesis using repeat_turns_stop [of ?turn, OF failing_turn [OF start go(1) Inl]] by simp
  next
    case (Inr z)
    obtain out w2 where calls: "?calls = Inr (out, w2)" using Inr by (cases z) simp
    obtain outs' where tail: "serve fresh readers writers (map sent_values qs) w2 = (outs', result)"
      and outs: "outs = out # outs'"
      using Cons.prems(4) calls by (auto split: prod.splits)
    have split: "responses readers outs = responses readers [out] @ responses readers outs'"
      by (simp add: outs responses_def)
    have "port (?cost [out] + (?cost outs' + b)) (cost_in q + ?left) p (q # qs @ stop # rest) rs"
      using start by (simp add: split add.assoc)
    then obtain q' p' where turn: "?turn (old, p, w) = Inr (True, q', p', w2)"
      and port: "port (?cost outs' + b) ?left p' (qs @ stop # rest) (rs @ responses readers [out])"
      using serving_turn [OF _ go(1) calls] Cons.prems(5) by (fastforce simp: split)
    show ?thesis
      using Cons.IH [OF port go(2) Cons.prems(3) tail, of q'] Cons.prems(5)
      unfolding repeat_turns_next [of ?turn, OF turn] by (simp add: split split: sum.splits)
  qed
qed

end

end
