(* ===== verification/SocketPort.thy ===== *)
theory SocketPort
  imports MonikerLoop
begin

text \<open>
  A socket connection as the port over which the data moniker service streams, and the properties of
  the loop of \<open>RunSidebandReadWriteLoop\<close> over it.
\<close>

section \<open>The port\<close>

definition message_ok :: "int64 \<Rightarrow> byte list \<Rightarrow> bool" where
  "message_ok bsize m \<longleftrightarrow> length m \<le> unat bsize \<and> length m < 2 ^ 31"

text \<open>
  A connection from one end: the size of its buffer, its socket, the other end, and what the environment
  grants that end for sending and for receiving.
\<close>

record connection =
  co_bufferSize :: int64
  co_socket :: nat
  co_peer :: SocketSidebandData
  co_peer_sends :: nat
  co_peer_recvs :: nat

text \<open>
  The object behind \<open>t\<close> is this end of the connection: \<open>qs\<close> has arrived from the other end, \<open>rs\<close> is on
  the way there. Nothing else of the process has changed since \<open>pg0\<close>.
\<close>

definition socket_port :: "'q codec \<Rightarrow> 'r codec \<Rightarrow> connection \<Rightarrow> token \<Rightarrow> 's program \<Rightarrow> nat \<Rightarrow> nat \<Rightarrow>
    's program \<Rightarrow> 'q list \<Rightarrow> 'r list \<Rightarrow> bool" where
  "socket_port rq rs co t pg0 b c pg qs outs \<longleftrightarrow>
     codec_ok rq \<and> list_all (\<lambda>q. message_ok (co_bufferSize co) (pb_serialize rq q)) qs \<and> same_objects pg0 pg \<and>
     (\<exists>r. socket_at t r 0 pg \<and> sd_bufferSize r = co_bufferSize co \<and> so_socket r = co_socket co \<and>
        So_channel (co_peer co) r (co_peer_sends co) c (mc_net pg) (map (pb_serialize rq) qs) \<and>
        So_channel r (co_peer co) b (co_peer_recvs co) (mc_net pg) (map (pb_serialize rs) outs))"

lemma So_channel_buffer [simp]:
  "So_channel w (r\<lparr>sd_serializeBuffer := buf\<rparr>) b c net q = So_channel w r b c net q"
  "So_channel (r\<lparr>sd_serializeBuffer := buf\<rparr>) w b c net q = So_channel r w b c net q"
  by (simp_all add: So_channel_def)

lemma same_objects_after_message:
  assumes "socket_at t r n mc"
  shows "same_objects mc (after_message t r net buf mc)"
  using assms by (auto simp: same_objects_def socket_at_def after_message_def UsageId_def So_UsageId_def)

lemma message_ok_fits: "message_ok bsize m \<Longrightarrow> message_fits m"
  by (simp add: message_ok_def message_fits_def)

lemma socket_port_send:
  assumes port: "socket_port rq rs co t pg0 (length (frame (pb_serialize rs resp)) + b) c pg qs outs"
    and fits: "message_ok (co_bufferSize co) (pb_serialize rs resp)"
  shows "\<exists>pg'. WriteSidebandMessage lib rs t resp pg = Inr (of_nat (length (pb_serialize rs resp)), pg') \<and>
    socket_port rq rs co t pg0 b c pg' qs (outs @ [resp])"
proof -
  let ?bs = "pb_serialize rs resp"
  obtain r where at: "socket_at t r 0 pg" and bsize: "sd_bufferSize r = co_bufferSize co" "so_socket r = co_socket co"
    and chan_in: "So_channel (co_peer co) r (co_peer_sends co) c (mc_net pg) (map (pb_serialize rq) qs)"
    and chan_out: "So_channel r (co_peer co) (length (frame ?bs) + b) (co_peer_recvs co) (mc_net pg) (map (pb_serialize rs) outs)"
    and ok: "codec_ok rq" "list_all (\<lambda>q. message_ok (co_bufferSize co) (pb_serialize rq q)) qs" "same_objects pg0 pg"
    using port by (auto simp: socket_port_def)
  have fit: "socket_at t r (length ?bs) pg" and len: "length ?bs < 2 ^ 31"
    using at fits bsize by (simp_all add: socket_at_def message_ok_def)
  obtain net' where sent: "So_send r ?bs (mc_net pg) = Inr (True, net')"
    and out': "So_channel r (co_peer co) b (co_peer_recvs co) net' (map (pb_serialize rs) outs @ [?bs])"
    and in': "So_channel (co_peer co) r (co_peer_sends co) c net' (map (pb_serialize rq) qs)"
    using So_send_beside [OF chan_out chan_in] fits message_ok_fits by blast
  obtain buf where buf: "length buf = unat (sd_bufferSize r)"
    and wrote: "WriteSidebandMessage lib rs t resp pg = Inr (of_nat (length ?bs), after_message t r net' buf pg)"
    using WriteSidebandMessage_socket [OF fit len sent, of lib] by blast
  have "socket_port rq rs co t pg0 b c (after_message t r net' buf pg) qs (outs @ [resp])"
    unfolding socket_port_def
    using ok same_objects_trans [OF ok(3) same_objects_after_message [OF at]] out' in' bsize
    by (intro conjI exI [of _ "r\<lparr>sd_serializeBuffer := buf\<rparr>"]
        socket_at_after_message [OF at buf]) (auto simp: after_message_def)
  then show ?thesis using wrote by blast
qed

interpretation socket_messages:
  message_port "ReadSidebandMessage lib rq t" "WriteSidebandMessage lib rs t" "socket_port rq rs co t pg0"
    "\<lambda>q. length (frame (pb_serialize rq q))" "\<lambda>r. length (frame (pb_serialize rs r))"
    "\<lambda>r. message_ok (co_bufferSize co) (pb_serialize rs r) \<and> 0 < length (pb_serialize rs r)"
  for lib :: "'s easyrdma" and rq :: "'q codec" and rs :: "'r codec" and t co pg0
proof unfold_locales
  fix b c q outs old and pg :: "'s program" and qs :: "'q list"
  let ?bs = "pb_serialize rq q"
  assume port: "socket_port rq rs co t pg0 b (length (frame ?bs) + c) pg (q # qs) outs"
  then obtain r where at: "socket_at t r 0 pg" and bsize: "sd_bufferSize r = co_bufferSize co" "so_socket r = co_socket co"
    and chan_in: "So_channel (co_peer co) r (co_peer_sends co) (length (frame ?bs) + c) (mc_net pg) (?bs # map (pb_serialize rq) qs)"
    and chan_out: "So_channel r (co_peer co) b (co_peer_recvs co) (mc_net pg) (map (pb_serialize rs) outs)"
    and ok: "codec_ok rq" "message_ok (co_bufferSize co) ?bs" "list_all (\<lambda>q. message_ok (co_bufferSize co) (pb_serialize rq q)) qs"
      "same_objects pg0 pg"
    by (auto simp: socket_port_def)
  have fit: "socket_at t r (length ?bs) pg" and len: "length ?bs < 2 ^ 31"
    using at ok(2) bsize by (simp_all add: socket_at_def message_ok_def)
  have parse: "pb_parse rq ?bs old = (True, q)" using ok(1) by (simp add: codec_ok_def)
  let ?received = "\<lambda>net. So_channel (co_peer co) r (co_peer_sends co) c net (map (pb_serialize rq) qs) \<and>
    So_channel r (co_peer co) b (co_peer_recvs co) net (map (pb_serialize rs) outs)"
  obtain net1 where prefix: "So_ReadLengthPrefix r (mc_net pg) = Inr (of_nat (length ?bs), net1)"
    using So_receive_parts [OF chan_in, of ?bs 0] by auto
  have payload: "\<exists>net2. So_ReadFromLengthPrefixed r dst (of_nat (length ?bs)) 0 net1 =
      Inr (True, mem_write 0 ?bs dst, of_nat (length ?bs), net2) \<and> ?received net2" if "length ?bs \<le> length dst" for dst
    using So_receive_parts_after [OF chan_in that, of 0] prefix So_channel_after_recv [OF chan_out] by auto
  obtain net2 buf where net2: "?received net2" and buf: "length buf = unat (sd_bufferSize r)"
    and read: "ReadSidebandMessage lib rq t old pg = Inr (True, q, after_message t r net2 buf pg)"
    using ReadSidebandMessage_socket [OF fit len prefix payload parse, of lib] by auto
  have "socket_port rq rs co t pg0 b c (after_message t r net2 buf pg) qs outs"
    unfolding socket_port_def
    using ok same_objects_trans [OF ok(4) same_objects_after_message [OF at]] net2 bsize
    by (intro conjI exI [of _ "r\<lparr>sd_serializeBuffer := buf\<rparr>"]
        socket_at_after_message [OF at buf]) (auto simp: after_message_def)
  then show "\<exists>p'. ReadSidebandMessage lib rq t old pg = Inr (True, q, p') \<and> socket_port rq rs co t pg0 b c p' qs outs"
    using read by blast
next
  fix resp b c outs and pg :: "'s program" and qs :: "'q list"
  let ?bs = "pb_serialize rs resp"
  assume port: "socket_port rq rs co t pg0 (length (frame ?bs) + b) c pg qs outs"
    and fits: "message_ok (co_bufferSize co) ?bs \<and> 0 < length ?bs"
  have "(of_nat (length ?bs) :: int64) \<noteq> 0" using fits by (simp add: message_ok_def int64_of_nat_nonzero)
  then show "\<exists>n p'. WriteSidebandMessage lib rs t resp pg = Inr (n, p') \<and> n \<noteq> 0 \<and>
      socket_port rq rs co t pg0 b c p' qs (outs @ [resp])"
    using socket_port_send [OF port, of lib] fits by blast
qed

text \<open>The messages that have arrived can be read even when the other end has gone.\<close>

definition socket_inbox :: "'q codec \<Rightarrow> int64 \<Rightarrow> token \<Rightarrow> nat \<Rightarrow> 's program \<Rightarrow> 'q list \<Rightarrow> bool" where
  "socket_inbox rq bsize t c pg qs \<longleftrightarrow>
     codec_ok rq \<and> list_all (\<lambda>q. message_ok bsize (pb_serialize rq q)) qs \<and>
     (\<exists>r. socket_at t r 0 pg \<and> sd_bufferSize r = bsize \<and> So_arrived r c (mc_net pg) (map (pb_serialize rq) qs))"

interpretation socket_inbox:
  message_source "ReadSidebandMessage lib rq t" "socket_inbox rq bsize t" "\<lambda>q. length (frame (pb_serialize rq q))"
  for lib :: "'s easyrdma" and rq :: "'q codec" and t bsize
proof unfold_locales
  fix q c old and pg :: "'s program" and qs :: "'q list"
  let ?bs = "pb_serialize rq q"
  assume "socket_inbox rq bsize t (length (frame ?bs) + c) pg (q # qs)"
  then obtain r where at: "socket_at t r 0 pg" and size: "sd_bufferSize r = bsize"
    and inbox: "So_arrived r (length (frame ?bs) + c) (mc_net pg) (?bs # map (pb_serialize rq) qs)"
    and ok: "codec_ok rq" "message_ok bsize ?bs" "list_all (\<lambda>q. message_ok bsize (pb_serialize rq q)) qs"
    by (auto simp: socket_inbox_def)
  have fit: "socket_at t r (length ?bs) pg" and len: "length ?bs < 2 ^ 31"
    using at ok(2) size by (simp_all add: socket_at_def message_ok_def)
  have parse: "pb_parse rq ?bs old = (True, q)" using ok(1) by (simp add: codec_ok_def)
  let ?received = "\<lambda>net. So_arrived r c net (map (pb_serialize rq) qs)"
  obtain net1 where prefix: "So_ReadLengthPrefix r (mc_net pg) = Inr (of_nat (length ?bs), net1)"
    using So_receive_arrived [OF inbox, of ?bs 0] by auto
  have payload: "\<exists>net2. So_ReadFromLengthPrefixed r dst (of_nat (length ?bs)) 0 net1 =
      Inr (True, mem_write 0 ?bs dst, of_nat (length ?bs), net2) \<and> ?received net2" if "length ?bs \<le> length dst" for dst
    using So_receive_arrived [OF inbox that, of 0] prefix by auto
  obtain net2 buf where net2: "?received net2" and buf: "length buf = unat (sd_bufferSize r)"
    and read: "ReadSidebandMessage lib rq t old pg = Inr (True, q, after_message t r net2 buf pg)"
    using ReadSidebandMessage_socket [OF fit len prefix payload parse, of lib] by auto
  have "socket_inbox rq bsize t c (after_message t r net2 buf pg) qs"
    unfolding socket_inbox_def
    using ok net2 size
    by (intro conjI exI [of _ "r\<lparr>sd_serializeBuffer := buf\<rparr>"] socket_at_after_message [OF at buf])
      (auto simp: after_message_def So_arrived_def)
  then show "\<exists>p'. ReadSidebandMessage lib rq t old pg = Inr (True, q, p') \<and> socket_inbox rq bsize t c p' qs"
    using read by blast
qed

interpretation socket_service:
  service_port "ReadSidebandMessage lib rq t" "WriteSidebandMessage lib rs t" "socket_port rq rs co t pg0"
    "\<lambda>q. length (frame (pb_serialize rq q))" "\<lambda>r. length (frame (pb_serialize rs r))"
    "\<lambda>r. message_ok (co_bufferSize co) (pb_serialize rs r) \<and> 0 < length (pb_serialize rs r)"
  for lib :: "'s easyrdma" and rq :: "'v SidebandWriteRequest codec" and rs :: "'v SidebandReadResponse codec"
    and t co pg0
  by (rule service_port.intro) (rule socket_messages.message_port_axioms)

end
