(* ===== verification/MonikerSideband.thy ===== *)
theory MonikerSideband
  imports SocketPort
begin

text \<open>
  Properties of the data moniker service over a sideband connection
  (\<open>RunSidebandReadWriteLoop\<close> of \<^verbatim>\<open>moniker_src/moniker_service.cc\<close>).
\<close>

section \<open>The end of the loop\<close>

lemma close_socket:
  assumes "t \<noteq> 0" and "mc_objects pg t = Some (SocketSideband r)" and "pg_buffers pg (so_id r) = Some x"
  shows "\<exists>pg'. CloseSidebandData lib t pg = Inr (0, pg') \<and> pg_buffers pg' (so_id r) = None \<and> mc_objects pg' t = None \<and>
    mc_net pg' = So_delete r (mc_net pg)"
  using assms
  by (simp add: CloseSidebandData_def deref_def UsageId_def So_UsageId_def Sideband_delete_def)

text \<open>What the other end has after a close: the messages that were sent, and then the end of the stream.\<close>

definition last_messages :: "'r codec \<Rightarrow> SocketSidebandData \<Rightarrow> nat \<Rightarrow> 'r list \<Rightarrow> net \<Rightarrow> bool" where
  "last_messages rs w c outs net \<longleftrightarrow> So_arrived w c net (map (pb_serialize rs) outs) \<and>
     (\<exists>p. nt_eps net (so_socket w) = Some p \<and> ep_eof p)"

lemma last_messages_delete:
  assumes "So_channel r w b y net (map (pb_serialize rs) outs)"
  shows "last_messages rs w y outs (So_delete r net)"
  using assms by (auto simp: last_messages_def So_channel_def So_arrived_def connected_def So_delete_def sys_close_def)

lemma socket_port_close:
  assumes "socket_port rq rs co t pg0 b c pg qs outs" and "pg_buffers pg0 ident = Some t"
    and "mc_objects pg0 t = Some obj" and "UsageId obj = ident"
  shows "\<exists>pg'. CloseSidebandData lib t pg = Inr (0, pg') \<and> pg_buffers pg' ident = None \<and> mc_objects pg' t = None \<and>
    last_messages rs (co_peer co) (co_peer_recvs co) outs (mc_net pg')"
proof -
  obtain r where at: "socket_at t r 0 pg" and same: "same_objects pg0 pg"
    and chan: "So_channel r (co_peer co) b (co_peer_recvs co) (mc_net pg) (map (pb_serialize rs) outs)"
    using assms(1) by (auto simp: socket_port_def)
  have obj: "t \<noteq> 0" "mc_objects pg t = Some (SocketSideband r)" using at by (simp_all add: socket_at_def)
  have "map_option UsageId (mc_objects pg t) = map_option UsageId (mc_objects pg0 t)"
    using same by (simp add: same_objects_def)
  then have ident: "so_id r = ident" using obj assms(3,4) by (simp add: UsageId_def So_UsageId_def)
  have "pg_buffers pg = pg_buffers pg0" using same by (auto simp: same_objects_def dest: program_more)
  then have "pg_buffers pg (so_id r) = Some t" using ident assms(2) by simp
  from close_socket [OF obj this, of lib] show ?thesis
    using ident last_messages_delete [OF chan] by auto
qed

section \<open>The whole stream\<close>

text \<open>The thread of a stream that starts with a write, once its connection is registered.\<close>

lemma run_write_first:
  assumes "pg_buffers pg ident = Some t"
  shows "RunSidebandReadWriteLoop lib rq rs fresh ident strategy readers writers True (pg, st) =
      after_loop (repeat_turns (write_first_turn (ReadSidebandMessage lib rq t) (WriteSidebandMessage lib rs t) fresh readers writers)
          (\<lparr>sw_cancel = False, sw_values = None\<rparr>, pg, st))
        (\<lambda>(q, pg, st). andThen (CloseSidebandData lib t pg) (\<lambda>(k, pg). Inr (pg, st)))"
  using assms by (simp add: RunSidebandReadWriteLoop_def GetOwnerSidebandDataToken_def Let_def)

lemma stream_over_port:
  assumes "pg_buffers pg ident = Some t" and "mc_objects pg t = Some obj" and "UsageId obj = ident"
    and "list_all (\<lambda>q. \<not> sw_cancel q) qs" and "sw_cancel stop"
    and "serve fresh readers writers (map sent_values qs) st = (outs, result)"
    and "list_all (\<lambda>r. message_ok (co_bufferSize co) (pb_serialize rs r) \<and> 0 < length (pb_serialize rs r)) (responses readers outs)"
    and "socket_port rq rs co t pg
      (sum_list (map (\<lambda>r. length (frame (pb_serialize rs r))) (responses readers outs)) + b)
      (sum_list (map (\<lambda>q. length (frame (pb_serialize rq q))) qs) + (length (frame (pb_serialize rq stop)) + c))
      pg (qs @ stop # rest) []"
  shows "case result of
      Inl e \<Rightarrow> RunSidebandReadWriteLoop lib rq rs fresh ident strategy readers writers True (pg, st) = Some (Inl e)
    | Inr st' \<Rightarrow> \<exists>pg'. RunSidebandReadWriteLoop lib rq rs fresh ident strategy readers writers True (pg, st) =
          Some (Inr (pg', st')) \<and> pg_buffers pg' ident = None \<and> mc_objects pg' t = None \<and>
        last_messages rs (co_peer co) (co_peer_recvs co) (responses readers outs) (mc_net pg')"
proof -
  let ?turn = "write_first_turn (ReadSidebandMessage lib rq t) (WriteSidebandMessage lib rs t) fresh readers writers"
  let ?start = "(\<lparr>sw_cancel = False, sw_values = None\<rparr>, pg, st)"
  note run = run_write_first [OF assms(1), of lib rq rs fresh strategy readers writers st]
  have loop: "case result of
      Inl e \<Rightarrow> repeat_turns ?turn ?start = Some (Inl e)
    | Inr st' \<Rightarrow> \<exists>p'. repeat_turns ?turn ?start = Some (Inr (stop, p', st')) \<and>
        socket_port rq rs co t pg b c p' rest ([] @ responses readers outs)"
    by (rule socket_service.write_first_loop [OF assms(8,4,5,6,7)])
  show ?thesis
  proof (cases result)
    case (Inl e)
    then show ?thesis using run loop by simp
  next
    case (Inr st')
    then obtain p' where p': "repeat_turns ?turn ?start = Some (Inr (stop, p', st'))"
      and port: "socket_port rq rs co t pg b c p' rest (responses readers outs)"
      using loop by auto
    obtain pg' where "CloseSidebandData lib t p' = Inr (0, pg')" "pg_buffers pg' ident = None" "mc_objects pg' t = None"
      "last_messages rs (co_peer co) (co_peer_recvs co) (responses readers outs) (mc_net pg')"
      using socket_port_close [OF port assms(1-3)] by blast
    then show ?thesis using Inr run p' by simp
  qed
qed


section \<open>Properties\<close>

text \<open>
  C14. A stream whose client writes first: if the client has sent its write requests and then a cancel
  request, the thread gives the values of each request to the writers in order, reads all readers
  after that into one response per request (none if there are no readers), sends these in order, and
  at the cancel request closes the connection and takes it off the registry. If an endpoint or a
  missing value stops the thread, that is how the loop ends.
\<close>

theorem moniker_stream_serves:
  assumes "pg_buffers pg ident = Some t" and "mc_objects pg t = Some obj" and "UsageId obj = ident"
    and "list_all (\<lambda>q. \<not> sw_cancel q) qs" and "sw_cancel stop"
    and "serve fresh readers writers (map sent_values qs) st = (outs, result)"
    and "list_all (\<lambda>r. message_ok (co_bufferSize co) (pb_serialize rs r) \<and> 0 < length (pb_serialize rs r)) (responses readers outs)"
    and "socket_port rq rs co t pg
      (sum_list (map (\<lambda>r. length (frame (pb_serialize rs r))) (responses readers outs)) + b)
      (sum_list (map (\<lambda>q. length (frame (pb_serialize rq q))) qs) + (length (frame (pb_serialize rq stop)) + c))
      pg (qs @ stop # rest) []"
  shows "case result of
      Inl e \<Rightarrow> RunSidebandReadWriteLoop lib rq rs fresh ident strategy readers writers True (pg, st) = Some (Inl e)
    | Inr st' \<Rightarrow> \<exists>pg'. RunSidebandReadWriteLoop lib rq rs fresh ident strategy readers writers True (pg, st) =
          Some (Inr (pg', st')) \<and> pg_buffers pg' ident = None \<and> mc_objects pg' t = None \<and>
        last_messages rs (co_peer co) (co_peer_recvs co) (responses readers outs) (mc_net pg')"
  using assms by (rule stream_over_port)

text \<open>Messages of bytes, an endpoint that records values and one that counts the records, and a stream.\<close>

definition example_requests :: "byte SidebandWriteRequest codec" where
  "example_requests = \<lparr>
     pb_serialize = (\<lambda>m. case sw_values m of
         None \<Rightarrow> if sw_cancel m then [1] else []
       | Some vs \<Rightarrow> (if sw_cancel m then 1 else 0) # 1 # vs),
     pb_parse = (\<lambda>bs old. (True, case bs of
         [] \<Rightarrow> \<lparr>sw_cancel = False, sw_values = None\<rparr>
       | [b] \<Rightarrow> \<lparr>sw_cancel = (b = 1), sw_values = None\<rparr>
       | b # _ # vs \<Rightarrow> \<lparr>sw_cancel = (b = 1), sw_values = Some vs\<rparr>))\<rparr>"

definition example_responses :: "byte SidebandReadResponse codec" where
  "example_responses = \<lparr>
     pb_serialize = (\<lambda>m. case sr_values m of
         None \<Rightarrow> if sr_cancel m then [1] else []
       | Some vs \<Rightarrow> (if sr_cancel m then 1 else 0) # 1 # vs),
     pb_parse = (\<lambda>bs old. (True, case bs of
         [] \<Rightarrow> \<lparr>sr_cancel = False, sr_values = None\<rparr>
       | [b] \<Rightarrow> \<lparr>sr_cancel = (b = 1), sr_values = None\<rparr>
       | b # _ # vs \<Rightarrow> \<lparr>sr_cancel = (b = 1), sr_values = Some vs\<rparr>))\<rparr>"

lemma example_requests_ok: "codec_ok example_requests"
  by (auto simp: codec_ok_def example_requests_def split: option.splits)

lemma example_responses_ok: "codec_ok example_responses"
  by (auto simp: codec_ok_def example_responses_def split: option.splits)

definition recorder :: "(byte, byte list) EndpointInstance" where
  "recorder = (Some (\<lambda>i v w. Inr (v, w @ [v])), 0)"

definition counter :: "(byte, byte list) EndpointInstance" where
  "counter = (Some (\<lambda>i v w. Inr (of_nat (length w), w)), 0)"

definition example_stream :: "byte SidebandWriteRequest list \<Rightarrow> fifo program" where
  "example_stream qs = (example_program 6 [])\<lparr>mc_objects := [1 \<mapsto> SocketSideband ((So_new_accepted 4 64 False)\<lparr>so_id := ''X''\<rparr>)],
     mc_next := 2, pg_buffers := [''X'' \<mapsto> 1],
     mc_net := (example_net 0)\<lparr>nt_eps :=
       [4 \<mapsto> (fresh_endpoint 5 (replicate 100 (Transfer 0)))\<lparr>ep_in := concat (map (\<lambda>q. frame (pb_serialize example_requests q)) qs)\<rparr>,
        5 \<mapsto> fresh_endpoint 4 (replicate 100 (Transfer 0))]\<rparr>\<rparr>"

definition example_connection :: connection where
  "example_connection = \<lparr>co_bufferSize = 64, co_socket = 4, co_peer = So_new_accepted 5 64 False, co_peer_sends = 0,
     co_peer_recvs = 0\<rparr>"

lemma example_stream_object [simp]:
  "pg_buffers (example_stream qs) ''X'' = Some 1"
  "mc_objects (example_stream qs) 1 = Some (SocketSideband ((So_new_accepted 4 64 False)\<lparr>so_id := ''X''\<rparr>))"
  by (simp_all add: example_stream_def)

lemma example_stream_port:
  assumes "b \<le> 100" and "c \<le> 100" and "list_all (\<lambda>q. message_ok 64 (pb_serialize example_requests q)) qs"
  shows "socket_port example_requests rs example_connection 1 (example_stream qs) b c (example_stream qs) qs []"
proof -
  let ?r = "(So_new_accepted 4 64 False)\<lparr>so_id := ''X''\<rparr>" and ?w = "So_new_accepted 5 64 False"
  have fits: "list_all message_fits (map (pb_serialize example_requests) qs)"
    using assms(3) message_ok_fits by (simp add: list.pred_map list.pred_mono_strong)
  have "socket_at 1 ?r 0 (example_stream qs)"
    by (simp add: socket_at_def So_new_accepted_def buffer_allocated_def example_stream_def)
  moreover have "So_channel ?w ?r 0 c (mc_net (example_stream qs)) (map (pb_serialize example_requests) qs)"
    using assms(2) fits by (simp add: So_channel_def connected_def example_stream_def So_new_accepted_def fresh_endpoint_def
        grants_recvs_transfers comp_def)
  moreover have "So_channel ?r ?w b 0 (mc_net (example_stream qs)) []"
    using assms(1) by (simp add: So_channel_def connected_def example_stream_def So_new_accepted_def fresh_endpoint_def
        grants_sends_replicate)
  ultimately show ?thesis
    unfolding socket_port_def using example_requests_ok assms(3)
    by (intro conjI exI [of _ ?r]) (simp_all add: same_objects_def So_new_accepted_def example_connection_def)
qed

theorem moniker_stream_serves_witness:
  "case Inr [7, 9] of
      Inl e \<Rightarrow> RunSidebandReadWriteLoop (fifo_lib 64 2) example_requests example_responses 0 ''X'' SOCKETS [counter] [recorder] True
        (example_stream ([\<lparr>sw_cancel = False, sw_values = Some [7]\<rparr>, \<lparr>sw_cancel = False, sw_values = Some [9]\<rparr>] @
           \<lparr>sw_cancel = True, sw_values = None\<rparr> # []), []) = Some (Inl e)
    | Inr st' \<Rightarrow> \<exists>pg'. RunSidebandReadWriteLoop (fifo_lib 64 2) example_requests example_responses 0 ''X'' SOCKETS [counter] [recorder] True
        (example_stream ([\<lparr>sw_cancel = False, sw_values = Some [7]\<rparr>, \<lparr>sw_cancel = False, sw_values = Some [9]\<rparr>] @
           \<lparr>sw_cancel = True, sw_values = None\<rparr> # []), []) = Some (Inr (pg', st')) \<and>
        pg_buffers pg' ''X'' = None \<and> mc_objects pg' 1 = None \<and>
        last_messages example_responses (co_peer example_connection) (co_peer_recvs example_connection) (responses [counter] [[1], [2]]) (mc_net pg')"
proof (rule moniker_stream_serves [where b = 0 and c = 0 and obj = "SocketSideband ((So_new_accepted 4 64 False)\<lparr>so_id := ''X''\<rparr>)"])
  show "serve 0 [counter] [recorder] (map sent_values [\<lparr>sw_cancel = False, sw_values = Some [7]\<rparr>, \<lparr>sw_cancel = False, sw_values = Some [9]\<rparr>]) [] =
      ([[1], [2]], Inr [7, 9])"
    by (simp add: counter_def recorder_def sent_values_def call_endpoint_def element_def)
  show "socket_port example_requests example_responses example_connection 1
      (example_stream ([\<lparr>sw_cancel = False, sw_values = Some [7]\<rparr>, \<lparr>sw_cancel = False, sw_values = Some [9]\<rparr>] @
        \<lparr>sw_cancel = True, sw_values = None\<rparr> # []))
      (sum_list (map (\<lambda>r. length (frame (pb_serialize example_responses r))) (responses [counter] [[1], [2]])) + 0)
      (sum_list (map (\<lambda>q. length (frame (pb_serialize example_requests q)))
         [\<lparr>sw_cancel = False, sw_values = Some [7]\<rparr>, \<lparr>sw_cancel = False, sw_values = Some [9]\<rparr>]) +
       (length (frame (pb_serialize example_requests \<lparr>sw_cancel = True, sw_values = None\<rparr>)) + 0))
      (example_stream ([\<lparr>sw_cancel = False, sw_values = Some [7]\<rparr>, \<lparr>sw_cancel = False, sw_values = Some [9]\<rparr>] @
        \<lparr>sw_cancel = True, sw_values = None\<rparr> # []))
      ([\<lparr>sw_cancel = False, sw_values = Some [7]\<rparr>, \<lparr>sw_cancel = False, sw_values = Some [9]\<rparr>] @
        \<lparr>sw_cancel = True, sw_values = None\<rparr> # []) []"
    by (rule example_stream_port)
      (simp_all add: example_responses_def example_requests_def responses_def response_def sizeof_int64_def message_ok_def example_connection_def)
qed (simp_all add: UsageId_def So_UsageId_def example_responses_def responses_def response_def message_ok_def example_connection_def)

text \<open>
  A write request with fewer values than the stream has writers, from any client, makes the thread
  read behind the end of the values.
\<close>

theorem moniker_missing_value:
  assumes "pg_buffers pg ident = Some t"
    and "socket_port rq rs co t pg b (length (frame (pb_serialize rq q)) + c) pg (q # rest) outs"
    and "\<not> sw_cancel q" and "length (sent_values q) < length writers"
    and "\<And>e v st. e \<in> set writers \<Longrightarrow> \<exists>v' st'. call_endpoint e v st = Inr (v', st')"
  shows "RunSidebandReadWriteLoop lib rq rs fresh ident strategy readers writers True (pg, st) = Some (Inl BadAccess)"
proof -
  let ?turn = "write_first_turn (ReadSidebandMessage lib rq t) (WriteSidebandMessage lib rs t) fresh readers writers"
  let ?q = "\<lparr>sw_cancel = False, sw_values = None\<rparr>"
  obtain p' where "ReadSidebandMessage lib rq t ?q pg = Inr (True, q, p')"
    using socket_messages.recv_law [OF assms(2)] by blast
  moreover have "call_on_values writers 0 (sent_values q) st = Inl BadAccess"
    by (rule call_on_values_short) (use assms(4,5) in auto)
  ultimately have turn: "?turn (?q, pg, st) = Inl BadAccess"
    using assms(3) by (simp add: write_first_turn_def)
  then show ?thesis
    using assms(1) repeat_turns_stop [of ?turn, OF turn]
    by (simp add: RunSidebandReadWriteLoop_def GetOwnerSidebandDataToken_def Let_def)
qed

theorem moniker_missing_value_witness:
  "RunSidebandReadWriteLoop (fifo_lib 64 2) example_requests example_responses 0 ''X'' SOCKETS [] [recorder, recorder] True
    (example_stream [\<lparr>sw_cancel = False, sw_values = Some [7]\<rparr>], []) = Some (Inl BadAccess)"
proof (rule moniker_missing_value [where c = 0])
  show "socket_port example_requests example_responses example_connection 1
      (example_stream [\<lparr>sw_cancel = False, sw_values = Some [7]\<rparr>]) 0
      (length (frame (pb_serialize example_requests \<lparr>sw_cancel = False, sw_values = Some [7]\<rparr>)) + 0)
      (example_stream [\<lparr>sw_cancel = False, sw_values = Some [7]\<rparr>]) [\<lparr>sw_cancel = False, sw_values = Some [7]\<rparr>] []"
    by (rule example_stream_port) (simp_all add: example_requests_def sizeof_int64_def message_ok_def example_connection_def)
qed (auto simp: sent_values_def recorder_def call_endpoint_def)




text \<open>
  C38. A stream whose service reads first does not work if it has readers: the first element of an
  empty response is asked for.
\<close>

theorem moniker_read_first_crashes:
  assumes "pg_buffers pg ident = Some t" and "readers \<noteq> []"
  shows "RunSidebandReadWriteLoop lib rq rs fresh ident strategy readers writers False (pg, st) = Some (Inl BadAccess)"
proof -
  let ?turn = "read_first_turn (ReadSidebandMessage lib rq t) (WriteSidebandMessage lib rs t) readers writers"
  have turn: "?turn (\<lparr>sw_cancel = False, sw_values = None\<rparr>, pg, st) = Inl BadAccess"
    using assms(2) by (simp add: read_first_turn_def)
  then show ?thesis
    using assms(1) repeat_turns_stop [of ?turn, OF turn]
    by (simp add: RunSidebandReadWriteLoop_def GetOwnerSidebandDataToken_def Let_def)
qed

theorem moniker_read_first_crashes_witness:
  "RunSidebandReadWriteLoop (fifo_lib 64 2) example_requests example_responses 0 ''X'' SOCKETS [counter] [recorder] False
    (example_stream [], []) = Some (Inl BadAccess)"
  by (rule moniker_read_first_crashes) simp_all

text \<open>
  Nor does it without readers: the response has no fields and so no bytes, which the thread takes
  for a failed write. It sends the empty message and closes the connection, and no writer is called
  whatever the client has sent.
\<close>

theorem moniker_read_first_no_readers:
  assumes "pg_buffers pg ident = Some t" and "mc_objects pg t = Some obj" and "UsageId obj = ident"
    and "pb_serialize rs \<lparr>sr_cancel = False, sr_values = None\<rparr> = []"
    and "socket_port rq rs co t pg (sizeof_int64 + b) c pg qs []"
  shows "\<exists>pg'. RunSidebandReadWriteLoop lib rq rs fresh ident strategy [] writers False (pg, st) = Some (Inr (pg', st)) \<and>
    pg_buffers pg' ident = None \<and> last_messages rs (co_peer co) (co_peer_recvs co) [\<lparr>sr_cancel = False, sr_values = None\<rparr>] (mc_net pg')"
proof -
  let ?turn = "read_first_turn (ReadSidebandMessage lib rq t) (WriteSidebandMessage lib rs t) [] writers"
  let ?q = "\<lparr>sw_cancel = False, sw_values = None\<rparr>" and ?r = "\<lparr>sr_cancel = False, sr_values = None\<rparr>"
  have port: "socket_port rq rs co t pg (length (frame (pb_serialize rs ?r)) + b) c pg qs []"
    using assms(4,5) by simp
  have "message_ok (co_bufferSize co) (pb_serialize rs ?r)" using assms(4) by (simp add: message_ok_def example_connection_def)
  from socket_port_send [OF port this, of lib] obtain p' where
    send: "WriteSidebandMessage lib rs t ?r pg = Inr (0, p')" and port': "socket_port rq rs co t pg b c p' qs [?r]"
    using assms(4) by auto
  have turn: "?turn (?q, pg, st) = Inr (False, ?q, p', st)"
    using send by (simp add: read_first_turn_def if_any_def)
  obtain pg' where "CloseSidebandData lib t p' = Inr (0, pg')" "pg_buffers pg' ident = None"
    "last_messages rs (co_peer co) (co_peer_recvs co) [?r] (mc_net pg')"
    using socket_port_close [OF port' assms(1-3), of lib] by blast
  then show ?thesis
    using assms(1) repeat_turns_end [of ?turn, OF turn]
    by (simp add: RunSidebandReadWriteLoop_def GetOwnerSidebandDataToken_def Let_def)
qed

theorem moniker_read_first_no_readers_witness:
  "\<exists>pg'. RunSidebandReadWriteLoop (fifo_lib 64 2) example_requests example_responses 0 ''X'' SOCKETS [] [recorder] False
      (example_stream [\<lparr>sw_cancel = False, sw_values = Some [7]\<rparr>], []) = Some (Inr (pg', [])) \<and>
    pg_buffers pg' ''X'' = None \<and>
    last_messages example_responses (co_peer example_connection) (co_peer_recvs example_connection) [\<lparr>sr_cancel = False, sr_values = None\<rparr>] (mc_net pg')"
proof (rule moniker_read_first_no_readers [where b = 0 and c = 0 and obj = "SocketSideband ((So_new_accepted 4 64 False)\<lparr>so_id := ''X''\<rparr>)"])
  show "socket_port example_requests example_responses example_connection 1
      (example_stream [\<lparr>sw_cancel = False, sw_values = Some [7]\<rparr>]) (sizeof_int64 + 0) 0
      (example_stream [\<lparr>sw_cancel = False, sw_values = Some [7]\<rparr>]) [\<lparr>sw_cancel = False, sw_values = Some [7]\<rparr>] []"
    by (rule example_stream_port) (simp_all add: example_requests_def sizeof_int64_def message_ok_def example_connection_def)
qed (simp_all add: UsageId_def So_UsageId_def example_responses_def)

end
