(* ===== verification/StreamTurns.thy ===== *)
theory StreamTurns
  imports MonikerSideband
begin

text \<open>
  A stream of the data moniker service (\<^verbatim>\<open>moniker_src/moniker_service.cc\<close>) in which the two ends take
  turns: the calls of the client and the turns of the service's loop in any order, with the cancel request and the close
  that follows it. An abstract machine says in which orders nobody has to wait and what each end then gets; a
  locale says what a connection has to promise so that the code is a refinement of this machine.
\<close>

section \<open>Steps of the two ends\<close>

datatype 'v stream_move = Asks "'v SidebandWriteRequest" | Takes | Serves

record ('s, 'v, 'w) stream =
  sm_client :: "'s program"
  sm_server :: "'s program"
  sm_request :: "'v SidebandWriteRequest"
  sm_endpoints :: 'w
  sm_running :: bool
  sm_got :: "'v SidebandReadResponse list"

text \<open>The network and the RDMA library are the same for both processes: what the first has done the other one finds.\<close>

definition network :: "'s program \<Rightarrow> 's program \<Rightarrow> 's program" where
  "network mp pg = pg\<lparr>mc_net := mc_net mp, mc_rdma := mc_rdma mp\<rparr>"

definition stream_start :: "'s program \<Rightarrow> 's program \<Rightarrow> 'w \<Rightarrow> ('s, 'v, 'w) stream" where
  "stream_start mp pg w = \<lparr>sm_client = mp, sm_server = network mp pg,
     sm_request = \<lparr>sw_cancel = False, sw_values = None\<rparr>, sm_endpoints = w, sm_running = True, sm_got = []\<rparr>"

text \<open>
  The client writes a request or reads a response into a new message, or the thread of the service makes
  one turn of its loop and, if that was the last one, closes the connection.
\<close>

fun stream_step :: "'s easyrdma \<Rightarrow> 'v SidebandWriteRequest codec \<Rightarrow> 'v SidebandReadResponse codec \<Rightarrow> 'v \<Rightarrow>
    ('v, 'w) EndpointInstance list \<Rightarrow> ('v, 'w) EndpointInstance list \<Rightarrow> token \<Rightarrow> token \<Rightarrow> 'v stream_move \<Rightarrow>
    ('s, 'v, 'w) stream \<Rightarrow> stop + ('s, 'v, 'w) stream" where
  "stream_step lib rq rs fresh readers writers tp t (Asks q) s =
     andThen (WriteSidebandMessage lib rq tp q (sm_client s)) (\<lambda>(n, mp).
     Inr (s\<lparr>sm_client := mp, sm_server := network mp (sm_server s)\<rparr>))"
| "stream_step lib rq rs fresh readers writers tp t Takes s =
     andThen (ReadSidebandMessage lib rs tp \<lparr>sr_cancel = False, sr_values = None\<rparr> (sm_client s)) (\<lambda>(success, r, mp).
     Inr (s\<lparr>sm_client := mp, sm_server := network mp (sm_server s), sm_got := sm_got s @ [r]\<rparr>))"
| "stream_step lib rq rs fresh readers writers tp t Serves s =
     (if sm_running s then
        andThen (write_first_turn (ReadSidebandMessage lib rq t) (WriteSidebandMessage lib rs t) fresh readers writers
            (sm_request s, sm_server s, sm_endpoints s)) (\<lambda>(go_on, q, pg, w).
        andThen (if go_on then Inr (0, pg) else CloseSidebandData lib t pg) (\<lambda>(k, pg).
        Inr (s\<lparr>sm_client := network pg (sm_client s), sm_server := pg, sm_request := q, sm_endpoints := w,
          sm_running := go_on\<rparr>)))
      else Inr s)"

fun stream_steps :: "'s easyrdma \<Rightarrow> 'v SidebandWriteRequest codec \<Rightarrow> 'v SidebandReadResponse codec \<Rightarrow> 'v \<Rightarrow>
    ('v, 'w) EndpointInstance list \<Rightarrow> ('v, 'w) EndpointInstance list \<Rightarrow> token \<Rightarrow> token \<Rightarrow> 'v stream_move list \<Rightarrow>
    ('s, 'v, 'w) stream \<Rightarrow> stop + ('s, 'v, 'w) stream" where
  "stream_steps lib rq rs fresh readers writers tp t [] s = Inr s"
| "stream_steps lib rq rs fresh readers writers tp t (m # ms) s =
     andThen (stream_step lib rq rs fresh readers writers tp t m s) (stream_steps lib rq rs fresh readers writers tp t ms)"

fun asks :: "'v stream_move list \<Rightarrow> 'v SidebandWriteRequest list" where
  "asks [] = []"
| "asks (Asks q # ms) = q # asks ms"
| "asks (m # ms) = asks ms"

lemma network_simps [simp]:
  "mc_net (network mp pg) = mc_net mp" "mc_rdma (network mp pg) = mc_rdma mp" "mc_objects (network mp pg) = mc_objects pg"
  "pg_buffers (network mp pg) = pg_buffers pg" "network mp (network mp' pg) = network mp pg"
  by (simp_all add: network_def)

text \<open>
  Turns of the service that nothing comes between are the loop of its thread, in
  \<open>RunSidebandReadWriteLoop\<close>.
\<close>

lemma serves_are_the_loop:
  assumes "thread = after_loop (repeat_turns (write_first_turn (ReadSidebandMessage lib rq t) (WriteSidebandMessage lib rs t)
      fresh readers writers) (sm_request s, sm_server s, sm_endpoints s))
    (\<lambda>(q, pg, st). andThen (CloseSidebandData lib t pg) (\<lambda>(k, pg). Inr (pg, st)))"
    and "sm_running s"
  shows "case stream_steps lib rq rs fresh readers writers tp t (replicate n Serves) s of
      Inl e \<Rightarrow> thread = Some (Inl e)
    | Inr s' \<Rightarrow> \<not> sm_running s' \<longrightarrow> thread = Some (Inr (sm_server s', sm_endpoints s'))"
  using assms
proof (induction n arbitrary: s)
  case 0
  then show ?case by simp
next
  case (Suc n)
  let ?turn = "write_first_turn (ReadSidebandMessage lib rq t) (WriteSidebandMessage lib rs t) fresh readers writers"
  have ended: "stream_steps lib rq rs fresh readers writers tp t (replicate n Serves) s = Inr s" if "\<not> sm_running s" for s
    using that by (induction n) simp_all
  show ?case
  proof (cases "?turn (sm_request s, sm_server s, sm_endpoints s)")
    case (Inl e)
    then show ?thesis using Suc.prems repeat_turns_stop [of ?turn, OF Inl] by simp
  next
    case (Inr y)
    then obtain go q pg w where turn: "?turn (sm_request s, sm_server s, sm_endpoints s) = Inr (go, q, pg, w)"
      by (cases y) auto
    show ?thesis
    proof (cases go)
      case True
      have "repeat_turns ?turn (sm_request s, sm_server s, sm_endpoints s) = repeat_turns ?turn (q, pg, w)"
        by (rule repeat_turns_next) (use turn True in simp)
      then show ?thesis
        using True Suc.IH [of "s\<lparr>sm_client := network pg (sm_client s), sm_server := pg, sm_request := q, sm_endpoints := w,
            sm_running := True\<rparr>"] Suc.prems turn by simp
    next
      case False
      have "repeat_turns ?turn (sm_request s, sm_server s, sm_endpoints s) = Some (Inr (q, pg, w))"
        by (rule repeat_turns_end) (use turn False in simp)
      then show ?thesis
        using False Suc.prems turn ended
        by (cases "CloseSidebandData lib t pg") auto
    qed
  qed
qed

text \<open>
  The thread of a stream is what the turns of the service are when nothing comes between them: if some
  number of turns fails, \<open>RunSidebandReadWriteLoop\<close> ends in this failure, and if after some number of turns the
  stream has been closed, it returns in the state after them.
\<close>

lemma turns_are_the_thread:
  assumes "pg_buffers (sm_server s) ident = Some t" and "sm_running s"
    and "sm_request s = \<lparr>sw_cancel = False, sw_values = None\<rparr>"
  shows "case stream_steps lib rq rs fresh readers writers tp t (replicate n Serves) s of
      Inl e \<Rightarrow> RunSidebandReadWriteLoop lib rq rs fresh ident strategy readers writers True (sm_server s, sm_endpoints s) =
        Some (Inl e)
    | Inr s' \<Rightarrow> \<not> sm_running s' \<longrightarrow>
        RunSidebandReadWriteLoop lib rq rs fresh ident strategy readers writers True (sm_server s, sm_endpoints s) =
          Some (Inr (sm_server s', sm_endpoints s'))"
  by (rule serves_are_the_loop) (simp_all add: run_write_first [OF assms(1)] assms(2,3))

section \<open>The abstract machine\<close>

text \<open>
  Between the ends are the requests that have been asked and the responses that have been sent and not yet
  taken. \<open>k\<close> of them fit in either direction; \<open>may_close\<close> tells for which responses still to be taken the
  service may close without losing them. A step that would have to wait, that asks something after a cancel
  request or that closes too early is none of the machine's (\<open>None\<close>). A step gives the responses that are
  sent in it.
\<close>

record ('v, 'w) exchange =
  ex_asked :: "'v SidebandWriteRequest list"
  ex_sent :: "'v SidebandReadResponse list"
  ex_got :: "'v SidebandReadResponse list"
  ex_endpoints :: 'w
  ex_open :: bool

fun exchange_step :: "nat \<Rightarrow> ('v SidebandReadResponse list \<Rightarrow> bool) \<Rightarrow> 'v \<Rightarrow>
    ('v, 'w) EndpointInstance list \<Rightarrow> ('v, 'w) EndpointInstance list \<Rightarrow> 'v stream_move \<Rightarrow> ('v, 'w) exchange \<Rightarrow>
    (stop + ('v SidebandReadResponse list \<times> ('v, 'w) exchange)) option" where
  "exchange_step k may_close fresh readers writers (Asks q) a =
     (if ex_open a \<and> length (ex_asked a) < k \<and> list_all (\<lambda>q. \<not> sw_cancel q) (ex_asked a)
      then Some (Inr ([], a\<lparr>ex_asked := ex_asked a @ [q]\<rparr>)) else None)"
| "exchange_step k may_close fresh readers writers Takes a =
     (case ex_sent a of [] \<Rightarrow> None
      | r # outs \<Rightarrow> Some (Inr ([], a\<lparr>ex_sent := outs, ex_got := ex_got a @ [r]\<rparr>)))"
| "exchange_step k may_close fresh readers writers Serves a =
     (if \<not> ex_open a then Some (Inr ([], a))
      else case ex_asked a of [] \<Rightarrow> None
      | q # qs \<Rightarrow>
          if sw_cancel q then
            (if may_close (ex_sent a) then Some (Inr ([], a\<lparr>ex_asked := qs, ex_open := False\<rparr>)) else None)
          else case andThen (call_on_values writers 0 (sent_values q) (ex_endpoints a))
              (\<lambda>(_, w). call_on_new_values fresh readers [] w) of
            Inl e \<Rightarrow> Some (Inl e)
          | Inr (out, w) \<Rightarrow>
              if readers = [] \<or> length (ex_sent a) < k
              then Some (Inr (responses readers [out],
                a\<lparr>ex_asked := qs, ex_sent := ex_sent a @ responses readers [out], ex_endpoints := w\<rparr>))
              else None)"

text \<open>A run gives all the responses that are sent in it, up to the end or to the failure of an endpoint.\<close>

fun exchange_steps :: "nat \<Rightarrow> ('v SidebandReadResponse list \<Rightarrow> bool) \<Rightarrow> 'v \<Rightarrow>
    ('v, 'w) EndpointInstance list \<Rightarrow> ('v, 'w) EndpointInstance list \<Rightarrow> 'v stream_move list \<Rightarrow> ('v, 'w) exchange \<Rightarrow>
    ('v SidebandReadResponse list \<times> (stop + ('v, 'w) exchange)) option" where
  "exchange_steps k may_close fresh readers writers [] a = Some ([], Inr a)"
| "exchange_steps k may_close fresh readers writers (m # ms) a =
     (case exchange_step k may_close fresh readers writers m a of
        None \<Rightarrow> None
      | Some (Inl e) \<Rightarrow> Some ([], Inl e)
      | Some (Inr (rs, a)) \<Rightarrow>
          map_option (\<lambda>(rss, result). (rs @ rss, result)) (exchange_steps k may_close fresh readers writers ms a))"

definition exchange_start :: "'w \<Rightarrow> ('v, 'w) exchange" where
  "exchange_start w = \<lparr>ex_asked = [], ex_sent = [], ex_got = [], ex_endpoints = w, ex_open = True\<rparr>"

text \<open>What one step of a run does.\<close>

lemma exchange_steps_Cons:
  assumes "exchange_steps k may_close fresh readers writers (m # ms) a = Some (rl, result)"
  obtains (fails) e where "exchange_step k may_close fresh readers writers m a = Some (Inl e)" "rl = []" "result = Inl e"
    | (goes) rs a1 rl' where "exchange_step k may_close fresh readers writers m a = Some (Inr (rs, a1))"
      "exchange_steps k may_close fresh readers writers ms a1 = Some (rl', result)" "rl = rs @ rl'"
  using assms by (auto split: option.splits sum.splits prod.splits)

lemma exchange_step_keeps:
  assumes "exchange_step k may_close fresh readers writers m a = Some (Inr (rs, a'))"
  shows "ex_got a' @ ex_sent a' = ex_got a @ ex_sent a @ rs"
  using assms by (cases m) (auto split: if_splits list.splits sum.splits prod.splits)

lemma exchange_closed:
  assumes "exchange_steps k may_close fresh readers writers ms a = Some (rl, result)" and "\<not> ex_open a"
  shows "rl = [] \<and> (\<exists>a'. result = Inr a' \<and> ex_endpoints a' = ex_endpoints a \<and> \<not> ex_open a')"
  using assms
proof (induction ms arbitrary: a rl)
  case Nil
  then show ?case by auto
next
  case (Cons m ms)
  obtain a1 rl' where a1: "exchange_steps k may_close fresh readers writers ms a1 = Some (rl', result)" "rl = rl'"
    "ex_endpoints a1 = ex_endpoints a" "\<not> ex_open a1"
    using Cons.prems by (elim exchange_steps_Cons; cases m) (auto split: list.splits)
  then show ?case using Cons.IH [OF a1(1,4)] by simp
qed

text \<open>Whatever the order of a run is, what has been sent is what the reference function gives for the first requests.\<close>

lemma exchange_serves:
  assumes "exchange_steps k may_close fresh readers writers ms a = Some (rl, Inr a')"
  shows "\<exists>n outs. serve fresh readers writers (map sent_values (take n (ex_asked a @ asks ms))) (ex_endpoints a) =
      (outs, Inr (ex_endpoints a')) \<and> list_all (\<lambda>q. \<not> sw_cancel q) (take n (ex_asked a @ asks ms)) \<and>
    rl = responses readers outs \<and> ex_got a' @ ex_sent a' = ex_got a @ ex_sent a @ rl"
  using assms
proof (induction ms arbitrary: a rl)
  case Nil
  then show ?case by (intro exI [of _ 0] exI [of _ "[]"]) simp
next
  case (Cons m ms)
  from Cons.prems obtain rs a1 rl' where step: "exchange_step k may_close fresh readers writers m a = Some (Inr (rs, a1))"
    and run: "exchange_steps k may_close fresh readers writers ms a1 = Some (rl', Inr a')" and rl: "rl = rs @ rl'"
    by (elim exchange_steps_Cons) auto
  have kept: "ex_got a' @ ex_sent a' = ex_got a @ ex_sent a @ rl"
    using Cons.IH [OF run] exchange_step_keeps [OF step] rl by auto
  obtain n outs where IH: "serve fresh readers writers (map sent_values (take n (ex_asked a1 @ asks ms))) (ex_endpoints a1) =
      (outs, Inr (ex_endpoints a'))" "list_all (\<lambda>q. \<not> sw_cancel q) (take n (ex_asked a1 @ asks ms))"
      "rl' = responses readers outs"
    using Cons.IH [OF run] by auto
  consider (same) "ex_asked a1 @ asks ms = ex_asked a @ asks (m # ms)" "ex_endpoints a1 = ex_endpoints a" "rs = []"
    | (ends) "m = Serves" "\<not> ex_open a1" "ex_endpoints a1 = ex_endpoints a" "rs = []"
    | (served) q out where "ex_asked a = q # ex_asked a1" "asks (m # ms) = asks ms" "\<not> sw_cancel q"
      "andThen (call_on_values writers 0 (sent_values q) (ex_endpoints a)) (\<lambda>(_, w). call_on_new_values fresh readers [] w) =
        Inr (out, ex_endpoints a1)" "rs = responses readers [out]"
    using step by (cases m) (auto split: if_splits list.splits sum.splits prod.splits)
  then show ?case
  proof cases
    case same
    then show ?thesis using IH rl kept by (intro exI [of _ n] exI [of _ outs]) simp
  next
    case ends
    then show ?thesis using exchange_closed [OF run] rl kept by (intro exI [of _ 0] exI [of _ "[]"]) auto
  next
    case served
    then show ?thesis
      using IH rl kept by (intro exI [of _ "Suc n"] exI [of _ "out # outs"]) (simp add: responses_def)
  qed
qed

lemma exchange_start_serves:
  assumes "exchange_steps k may_close fresh readers writers ms (exchange_start w) = Some (rl, Inr a)"
  obtains n outs where "serve fresh readers writers (map sent_values (take n (asks ms))) w = (outs, Inr (ex_endpoints a))"
    "list_all (\<lambda>q. \<not> sw_cancel q) (take n (asks ms))" "rl = responses readers outs" "ex_got a @ ex_sent a = rl"
  using exchange_serves [OF assms] by (auto simp: exchange_start_def)

section \<open>What a connection promises\<close>

text \<open>
  The state of the code that the abstract state stands for. \<open>ends mp pg qs outs ql rl\<close>: the two processes
  are the ends of the connection with \<open>qs\<close> and \<open>outs\<close> under way, and the environment still grants what the
  requests \<open>ql\<close> and the responses \<open>rl\<close> need. \<open>left_over mp outs\<close>: the connection has been closed and the client
  can still read \<open>outs\<close>.
\<close>

definition follows :: "('s program \<Rightarrow> 's program \<Rightarrow> 'v SidebandWriteRequest list \<Rightarrow> 'v SidebandReadResponse list \<Rightarrow>
      'v SidebandWriteRequest list \<Rightarrow> 'v SidebandReadResponse list \<Rightarrow> bool) \<Rightarrow>
    ('s program \<Rightarrow> 'v SidebandReadResponse list \<Rightarrow> bool) \<Rightarrow> string \<Rightarrow> token \<Rightarrow>
    ('v, 'w) exchange \<Rightarrow> ('s, 'v, 'w) stream \<Rightarrow> 'v SidebandWriteRequest list \<Rightarrow> 'v SidebandReadResponse list \<Rightarrow> bool" where
  "follows ends left_over ident t a s ql rl \<longleftrightarrow>
     sm_got s = ex_got a \<and> sm_endpoints s = ex_endpoints a \<and> sm_running s = ex_open a \<and>
     (if ex_open a then ends (sm_client s) (sm_server s) (ex_asked a) (ex_sent a) ql rl
      else left_over (sm_client s) (ex_sent a) \<and> pg_buffers (sm_server s) ident = None \<and> mc_objects (sm_server s) t = None)"

locale stream_ends =
  fixes lib :: "'s easyrdma" and rq :: "'v SidebandWriteRequest codec" and rs :: "'v SidebandReadResponse codec"
    and tp t :: token and ident :: string and k :: nat
    and may_close :: "'v SidebandReadResponse list \<Rightarrow> bool"
    and ends :: "'s program \<Rightarrow> 's program \<Rightarrow> 'v SidebandWriteRequest list \<Rightarrow> 'v SidebandReadResponse list \<Rightarrow>
      'v SidebandWriteRequest list \<Rightarrow> 'v SidebandReadResponse list \<Rightarrow> bool"
    and left_over :: "'s program \<Rightarrow> 'v SidebandReadResponse list \<Rightarrow> bool"
    and ok_q :: "'v SidebandWriteRequest \<Rightarrow> bool" and ok_r :: "'v SidebandReadResponse \<Rightarrow> bool"
  assumes asks_law: "ends mp pg qs outs (q # ql) rl \<Longrightarrow> length qs < k \<Longrightarrow> ok_q q \<Longrightarrow>
      \<exists>n mp'. WriteSidebandMessage lib rq tp q mp = Inr (n, mp') \<and> ends mp' (network mp' pg) (qs @ [q]) outs ql rl"
    and takes_law: "ends mp pg qs (r # outs) ql rl \<Longrightarrow>
      \<exists>mp'. ReadSidebandMessage lib rs tp old_r mp = Inr (True, r, mp') \<and> ends mp' (network mp' pg) qs outs ql rl"
    and recv_law: "ends mp pg (q # qs) outs ql rl \<Longrightarrow>
      \<exists>pg'. ReadSidebandMessage lib rq t old_q pg = Inr (True, q, pg') \<and> ends (network pg' mp) pg' qs outs ql rl"
    and send_law: "ends mp pg qs outs ql (r # rl) \<Longrightarrow> length outs < k \<Longrightarrow> ok_r r \<Longrightarrow>
      \<exists>n pg'. WriteSidebandMessage lib rs t r pg = Inr (n, pg') \<and> n \<noteq> 0 \<and> ends (network pg' mp) pg' qs (outs @ [r]) ql rl"
    and close_law: "ends mp pg qs outs ql rl \<Longrightarrow> may_close outs \<Longrightarrow>
      \<exists>n pg'. CloseSidebandData lib t pg = Inr (n, pg') \<and> pg_buffers pg' ident = None \<and> mc_objects pg' t = None \<and>
        left_over (network pg' mp) outs"
    and left_over_law: "left_over mp (r # outs) \<Longrightarrow>
      \<exists>mp'. ReadSidebandMessage lib rs tp old_r mp = Inr (True, r, mp') \<and> left_over mp' outs"
begin

lemma asks_step:
  assumes "follows ends left_over ident t a s (q # ql) rl" and "ok_q q"
    and "exchange_step k may_close fresh readers writers (Asks q) a = Some (Inr (given, a'))"
  shows "\<exists>s'. stream_step lib rq rs fresh readers writers tp t (Asks q) s = Inr s' \<and>
    follows ends left_over ident t a' s' ql rl"
proof -
  have a: "ex_open a" "length (ex_asked a) < k" "a' = a\<lparr>ex_asked := ex_asked a @ [q]\<rparr>"
    using assms(3) by (simp_all split: if_splits)
  then show ?thesis
    using asks_law [of "sm_client s" "sm_server s" "ex_asked a" "ex_sent a" q ql rl] assms(1,2) by (auto simp: follows_def)
qed

lemma takes_step:
  assumes "follows ends left_over ident t a s ql rl"
    and "exchange_step k may_close fresh readers writers Takes a = Some (Inr (given, a'))"
  shows "\<exists>s'. stream_step lib rq rs fresh readers writers tp t Takes s = Inr s' \<and>
    follows ends left_over ident t a' s' ql rl"
proof -
  obtain r outs where a: "ex_sent a = r # outs" "a' = a\<lparr>ex_sent := outs, ex_got := ex_got a @ [r]\<rparr>"
    using assms(2) by (auto split: list.splits)
  have "\<exists>mp'. ReadSidebandMessage lib rs tp \<lparr>sr_cancel = False, sr_values = None\<rparr> (sm_client s) = Inr (True, r, mp') \<and>
      (if ex_open a then ends mp' (network mp' (sm_server s)) (ex_asked a) outs ql rl else left_over mp' outs)"
    using takes_law left_over_law assms(1) a(1) by (auto simp: follows_def split: if_splits)
  then show ?thesis using assms(1) a by (auto simp: follows_def split: if_splits)
qed

lemma receives:
  assumes "follows ends left_over ident t a s ql rl" and "ex_open a" and "ex_asked a = q # qs"
  obtains p1 where "ReadSidebandMessage lib rq t (sm_request s) (sm_server s) = Inr (True, q, p1)"
    "ends (network p1 (sm_client s)) p1 qs (ex_sent a) ql rl"
proof -
  have "ends (sm_client s) (sm_server s) (q # qs) (ex_sent a) ql rl" using assms by (simp add: follows_def)
  from recv_law [OF this] that show thesis by blast
qed

lemma cancel_step:
  assumes "follows ends left_over ident t a s ql rl" and "ex_open a" and "ex_asked a = q # qs" and "sw_cancel q"
    and "may_close (ex_sent a)"
  shows "\<exists>s'. stream_step lib rq rs fresh readers writers tp t Serves s = Inr s' \<and>
    follows ends left_over ident t (a\<lparr>ex_asked := qs, ex_open := False\<rparr>) s' ql rl"
proof -
  obtain p1 where p1: "ReadSidebandMessage lib rq t (sm_request s) (sm_server s) = Inr (True, q, p1)"
    "ends (network p1 (sm_client s)) p1 qs (ex_sent a) ql rl"
    by (rule receives [OF assms(1-3)])
  obtain n p2 where p2: "CloseSidebandData lib t p1 = Inr (n, p2)" "pg_buffers p2 ident = None" "mc_objects p2 t = None"
    "left_over (network p2 (sm_client s)) (ex_sent a)"
    using close_law [OF p1(2) assms(5)] by auto
  show ?thesis
    using p2 assms(1,2)
    by (simp add: follows_def turn_cancelled [where recv = "ReadSidebandMessage lib rq t", OF p1(1) assms(4)])
qed

lemma serves_step:
  assumes "follows ends left_over ident t a s ql (responses readers [out] @ rl)" and "ex_open a" and "ex_asked a = q # qs"
    and "\<not> sw_cancel q"
    and calls: "andThen (call_on_values writers 0 (sent_values q) (ex_endpoints a))
      (\<lambda>(_, w). call_on_new_values fresh readers [] w) = Inr (out, w)"
    and "readers = [] \<or> length (ex_sent a) < k" and "list_all ok_r (responses readers [out])"
  shows "\<exists>s'. stream_step lib rq rs fresh readers writers tp t Serves s = Inr s' \<and>
    follows ends left_over ident t
      (a\<lparr>ex_asked := qs, ex_sent := ex_sent a @ responses readers [out], ex_endpoints := w\<rparr>) s' ql rl"
proof -
  obtain p1 where p1: "ReadSidebandMessage lib rq t (sm_request s) (sm_server s) = Inr (True, q, p1)"
    "ends (network p1 (sm_client s)) p1 qs (ex_sent a) ql (responses readers [out] @ rl)"
    by (rule receives [OF assms(1-3)])
  have "\<exists>n p2. (if readers = [] then p2 = p1 else WriteSidebandMessage lib rs t (response out) p1 = Inr (n, p2) \<and> n \<noteq> 0) \<and>
      ends (network p2 (sm_client s)) p2 qs (ex_sent a @ responses readers [out]) ql rl"
  proof (cases "readers = []")
    case True
    then show ?thesis using p1(2) by simp
  next
    case False
    then show ?thesis using send_law [of _ p1 qs "ex_sent a" ql "response out" rl] p1(2) assms(6,7) by fastforce
  qed
  then obtain n p2 where p2: "if readers = [] then p2 = p1 else WriteSidebandMessage lib rs t (response out) p1 = Inr (n, p2) \<and> n \<noteq> 0"
    "ends (network p2 (sm_client s)) p2 qs (ex_sent a @ responses readers [out]) ql rl" by blast
  then show ?thesis
    using turn_serves [where recv = "ReadSidebandMessage lib rq t" and send = "WriteSidebandMessage lib rs t",
        OF p1(1) assms(4) calls p2(1)] assms(1,2)
    by (auto simp: follows_def)
qed

lemma failing_step:
  assumes "follows ends left_over ident t a s ql rl"
    and "exchange_step k may_close fresh readers writers m a = Some (Inl e)"
  shows "stream_step lib rq rs fresh readers writers tp t m s = Inl e"
proof -
  obtain q qs where a: "m = Serves" "ex_open a" "ex_asked a = q # qs" "\<not> sw_cancel q"
      "andThen (call_on_values writers 0 (sent_values q) (ex_endpoints a))
        (\<lambda>(_, w). call_on_new_values fresh readers [] w) = Inl e"
    using assms(2) by (cases m) (auto split: if_splits list.splits sum.splits)
  obtain p1 where "ReadSidebandMessage lib rq t (sm_request s) (sm_server s) = Inr (True, q, p1)"
    by (rule receives [OF assms(1) a(2,3)])
  then show ?thesis
    using a(1,2) assms(1)
    by (simp add: follows_def turn_fails [where recv = "ReadSidebandMessage lib rq t", OF _ a(4,5)])
qed

lemma stream_follows:
  assumes "exchange_steps k may_close fresh readers writers ms a = Some (rl, result)"
    and "follows ends left_over ident t a s (asks ms) rl"
    and "list_all ok_q (asks ms)" and "list_all ok_r rl"
  shows "case result of
      Inl e \<Rightarrow> stream_steps lib rq rs fresh readers writers tp t ms s = Inl e
    | Inr a' \<Rightarrow> \<exists>s'. stream_steps lib rq rs fresh readers writers tp t ms s = Inr s' \<and>
        follows ends left_over ident t a' s' [] []"
  using assms
proof (induction ms arbitrary: a s rl)
  case Nil
  then show ?case by auto
next
  case (Cons m ms)
  from Cons.prems(1) show ?case
  proof (cases rule: exchange_steps_Cons)
    case (fails e)
    then show ?thesis using failing_step [OF Cons.prems(2), of fresh readers writers m e] by simp
  next
    case (goes given a1 rl')
    have "\<exists>s1. stream_step lib rq rs fresh readers writers tp t m s = Inr s1 \<and>
        follows ends left_over ident t a1 s1 (asks ms) rl'"
    proof (cases m)
      case (Asks q)
      then show ?thesis
        using goes asks_step [of a s q "asks ms" rl] Cons.prems(2,3) by (auto split: if_splits)
    next
      case Takes
      then show ?thesis
        using goes takes_step [of a s "asks ms" rl] Cons.prems(2) by (auto split: list.splits)
    next
      case Serves
      consider (closed) "\<not> ex_open a" "given = []" "a1 = a"
        | (cancelled) q qs where "ex_open a" "ex_asked a = q # qs" "sw_cancel q" "may_close (ex_sent a)" "given = []"
          "a1 = a\<lparr>ex_asked := qs, ex_open := False\<rparr>"
        | (served) q qs out w where "ex_open a" "ex_asked a = q # qs" "\<not> sw_cancel q"
          "andThen (call_on_values writers 0 (sent_values q) (ex_endpoints a))
            (\<lambda>(_, w). call_on_new_values fresh readers [] w) = Inr (out, w)"
          "readers = [] \<or> length (ex_sent a) < k" "given = responses readers [out]"
          "a1 = a\<lparr>ex_asked := qs, ex_sent := ex_sent a @ responses readers [out], ex_endpoints := w\<rparr>"
        using goes(1) Serves by (auto split: if_splits list.splits sum.splits prod.splits)
      then show ?thesis
      proof cases
        case closed
        then show ?thesis using Serves goes(3) Cons.prems(2) by (simp add: follows_def)
      next
        case cancelled
        then show ?thesis using Serves goes(3) Cons.prems(2) cancel_step [of a s "asks ms" rl] by simp
      next
        case served
        then show ?thesis
          using Serves goes(3) Cons.prems(2,4) serves_step [of a s "asks ms" readers out rl' q qs writers fresh w] by simp
      qed
    qed
    then obtain s1 where s1: "stream_step lib rq rs fresh readers writers tp t m s = Inr s1"
      "follows ends left_over ident t a1 s1 (asks ms) rl'" by blast
    have "list_all ok_q (asks ms)" using Cons.prems(3) by (cases m) simp_all
    then show ?thesis using s1(1) Cons.IH [OF goes(2) s1(2)] Cons.prems(4) goes(3) by (cases result) simp_all
  qed
qed

text \<open>From the beginning of a stream, with nothing under way.\<close>

lemma stream_refines:
  assumes "ends mp (network mp pg) [] [] (asks ms) rl"
    and "exchange_steps k may_close fresh readers writers ms (exchange_start w) = Some (rl, result)"
    and "list_all ok_q (asks ms)" and "list_all ok_r rl"
  shows "case result of
      Inl e \<Rightarrow> stream_steps lib rq rs fresh readers writers tp t ms (stream_start mp pg w) = Inl e
    | Inr a \<Rightarrow> \<exists>s. stream_steps lib rq rs fresh readers writers tp t ms (stream_start mp pg w) = Inr s \<and>
        follows ends left_over ident t a s [] []"
proof (rule stream_follows [OF assms(2) _ assms(3,4)])
  show "follows ends left_over ident t (exchange_start w) (stream_start mp pg w) (asks ms) rl"
    using assms(1) by (simp add: follows_def stream_start_def exchange_start_def)
qed

end

end
