(* ===== verification/MonikerStreams.thy ===== *)
theory MonikerStreams
  imports MonikerSideband
begin

text \<open>
  Properties of the data moniker service over gRPC streams, and of its registration of endpoints
  (\<open>StreamRead\<close>, \<open>StreamWrite\<close>, \<open>StreamReadWrite\<close>, \<open>RegisterMonikerEndpoint\<close> of
  \<^verbatim>\<open>moniker_src/moniker_service.cc\<close>).
\<close>

section \<open>The loops\<close>

definition moniker_result :: "('v, 'w) EndpointInstance list \<Rightarrow> 'v list \<Rightarrow> 'v MonikerReadResult" where
  "moniker_result readers vs = \<lparr>rr_data = if_any readers vs\<rparr>"

text \<open>\<open>n\<close> readings of all readers, one after the other.\<close>

fun samples :: "'v \<Rightarrow> ('v, 'w) EndpointInstance list \<Rightarrow> nat \<Rightarrow> 'w \<Rightarrow> stop + ('v list list \<times> 'w)" where
  "samples fresh readers 0 w = Inr ([], w)"
| "samples fresh readers (Suc n) w =
     andThen (call_on_new_values fresh readers [] w) (\<lambda>(out, w).
     andThen (samples fresh readers n w) (\<lambda>(outs, w). Inr (out # outs, w)))"

lemma read_loop_samples:
  assumes "samples fresh readers n w = Inr (outs, w')" and "\<And>k. k < n \<Longrightarrow> \<not> rpc_cancelled rpc (rpc_asked rpc + k)"
    and "rpc_cancelled rpc (rpc_asked rpc + n)"
  shows "repeat_turns (read_turn fresh readers) (rpc, w) = Some (Inr (rpc\<lparr>rpc_asked := rpc_asked rpc + Suc n,
    rpc_results := rpc_results rpc @ map (moniker_result readers) outs\<rparr>, w'))"
  using assms
proof (induction n arbitrary: rpc w outs)
  case 0
  then have turn: "read_turn fresh readers (rpc, w) = Inr (False, rpc\<lparr>rpc_asked := Suc (rpc_asked rpc)\<rparr>, w)"
    by (simp add: read_turn_def rpc_IsCancelled_def)
  then show ?case using repeat_turns_end [of "read_turn fresh readers", OF turn] 0 by simp
next
  case (Suc n)
  obtain out w1 outs' where out: "call_on_new_values fresh readers [] w = Inr (out, w1)"
    and outs': "samples fresh readers n w1 = Inr (outs', w')" and outs: "outs = out # outs'"
    using Suc.prems(1) by (auto simp: andThen_eq_Inr_iff)
  let ?rpc = "rpc\<lparr>rpc_asked := Suc (rpc_asked rpc), rpc_results := rpc_results rpc @ [moniker_result readers out]\<rparr>"
  have turn: "read_turn fresh readers (rpc, w) = Inr (True, ?rpc, w1)"
    using Suc.prems(2) [of 0] out by (simp add: read_turn_def rpc_IsCancelled_def rpc_Write_def moniker_result_def)
  have "\<not> rpc_cancelled ?rpc (rpc_asked ?rpc + k)" if "k < n" for k
    using Suc.prems(2) [of "Suc k"] that by simp
  then show ?case
    using Suc.IH [OF outs', of ?rpc] Suc.prems(3) outs
    unfolding repeat_turns_next [of "read_turn fresh readers", OF turn] by simp
qed

lemma read_loop_first_cancel:
  assumes "\<And>w. \<exists>vs w'. call_on_new_values fresh readers [] w = Inr (vs, w')"
  shows "\<exists>outs w'. samples fresh readers n w = Inr (outs, w')"
proof (induction n arbitrary: w)
  case (Suc n)
  obtain vs w1 where "call_on_new_values fresh readers [] w = Inr (vs, w1)" using assms by blast
  then show ?case using Suc.IH [of w1] by auto
qed simp

lemma write_loop_serve:
  assumes "rpc_requests rpc = map WriteData vss" and "rpc_ended rpc"
    and "\<And>k. \<not> rpc_cancelled rpc k" and "serve fresh [] writers vss w = (outs, result)"
  shows "case result of
      Inl e \<Rightarrow> repeat_turns (write_turn writers) (old, rpc, w) = Some (Inl e)
    | Inr w' \<Rightarrow> \<exists>req. repeat_turns (write_turn writers) (old, rpc, w) =
        Some (Inr (req, rpc\<lparr>rpc_requests := [], rpc_asked := rpc_asked rpc + length vss\<rparr>, w'))"
  using assms
proof (induction vss arbitrary: rpc w old outs)
  case Nil
  then have turn: "write_turn writers (old, rpc, w) = Inr (False, old, rpc, w)"
    by (simp add: write_turn_def rpc_Read_def)
  then show ?case using repeat_turns_end [of "write_turn writers", OF turn] Nil by auto
next
  case (Cons vs vss)
  let ?rpc = "rpc\<lparr>rpc_requests := map WriteData vss, rpc_asked := Suc (rpc_asked rpc)\<rparr>"
  show ?case
  proof (cases "call_on_values writers 0 vs w")
    case (Inl e)
    then have turn: "write_turn writers (old, rpc, w) = Inl e"
      using Cons.prems by (simp add: write_turn_def rpc_Read_def rpc_IsCancelled_def)
    then show ?thesis using repeat_turns_stop [of "write_turn writers", OF turn] Cons.prems(4) Inl by auto
  next
    case (Inr z)
    obtain vs' w1 where z: "z = (vs', w1)" by (cases z)
    then have turn: "write_turn writers (old, rpc, w) = Inr (True, WriteData vs', ?rpc, w1)"
      using Cons.prems Inr by (simp add: write_turn_def rpc_Read_def rpc_IsCancelled_def)
    obtain outs' where tail: "serve fresh [] writers vss w1 = (outs', result)"
      using Cons.prems(4) Inr z by (auto split: prod.splits)
    show ?thesis
      using Cons.IH [where rpc = ?rpc and old = "WriteData vs'", OF _ _ _ tail] Cons.prems(2,3)
      unfolding repeat_turns_next [of "write_turn writers", OF turn] by (simp split: sum.splits)
  qed
qed

lemma read_write_loop_serve:
  assumes "rpc_requests rpc = map WriteData vss" and "rpc_ended rpc"
    and "\<And>k. \<not> rpc_cancelled rpc k" and "serve fresh readers writers vss w = (outs, result)"
  shows "case result of
      Inl e \<Rightarrow> repeat_turns (read_write_turn fresh readers writers) (old, rpc, w) = Some (Inl e)
    | Inr w' \<Rightarrow> \<exists>req. repeat_turns (read_write_turn fresh readers writers) (old, rpc, w) =
        Some (Inr (req, rpc\<lparr>rpc_requests := [], rpc_asked := rpc_asked rpc + length vss,
          rpc_results := rpc_results rpc @ map (moniker_result readers) outs\<rparr>, w'))"
  using assms
proof (induction vss arbitrary: rpc w old outs)
  case Nil
  then have turn: "read_write_turn fresh readers writers (old, rpc, w) = Inr (False, old, rpc, w)"
    by (simp add: read_write_turn_def rpc_Read_def)
  then show ?case using repeat_turns_end [of "read_write_turn fresh readers writers", OF turn] Nil by auto
next
  case (Cons vs vss)
  let ?turn = "read_write_turn fresh readers writers"
  show ?case
  proof (cases "andThen (call_on_values writers 0 vs w) (\<lambda>(_, w). call_on_new_values fresh readers [] w)")
    case (Inl e)
    then have turn: "?turn (old, rpc, w) = Inl e"
      using Cons.prems
      by (auto simp: read_write_turn_def rpc_Read_def rpc_IsCancelled_def Let_def andThen_eq_Inl_iff)
    then show ?thesis using repeat_turns_stop [of ?turn, OF turn] Cons.prems(4) Inl by auto
  next
    case (Inr z)
    obtain out w2 where z: "z = (out, w2)" by (cases z)
    then obtain vs' w1 where parts: "call_on_values writers 0 vs w = Inr (vs', w1)"
      "call_on_new_values fresh readers [] w1 = Inr (out, w2)"
      using Inr by (auto simp: andThen_eq_Inr_iff)
    let ?rpc = "rpc\<lparr>rpc_requests := map WriteData vss, rpc_asked := Suc (rpc_asked rpc),
      rpc_results := rpc_results rpc @ [moniker_result readers out]\<rparr>"
    have turn: "?turn (old, rpc, w) = Inr (True, WriteData vs', ?rpc, w2)"
      using Cons.prems parts
      by (simp add: read_write_turn_def rpc_Read_def rpc_IsCancelled_def rpc_Write_def moniker_result_def)
    obtain outs' where tail: "serve fresh readers writers vss w2 = (outs', result)" and outs: "outs = out # outs'"
      using Cons.prems(4) Inr z by (auto split: prod.splits)
    show ?thesis
      using Cons.IH [where rpc = ?rpc and old = "WriteData vs'", OF _ _ _ tail] Cons.prems(2,3) outs
      unfolding repeat_turns_next [of ?turn, OF turn] by (simp split: sum.splits)
  qed
qed

section \<open>Properties of the registration\<close>

lemma get_endpoints_new [simp]:
  "this \<noteq> 0 \<Longrightarrow> get_endpoints this (MonikerServiceImpl this sv) = Inr Map.empty"
  by (simp add: get_endpoints_def MonikerServiceImpl_def)

text \<open>
  C29. An endpoint registered under a new name is what every moniker made for that name by
  \<open>RegisterMonikerInstance\<close> resolves to, together with its instance, among readers and among writers;
  a later registration under the same name changes nothing.
\<close>

theorem registered_moniker_resolved:
  assumes "get_endpoints (ms_s_Server sv) sv = Inr endpoints" and "endpoints name = None"
  shows "\<exists>sv' endpoints'. RegisterMonikerEndpoint name (Some f) sv = Inr sv' \<and>
    get_endpoints (ms_s_Server sv) sv' = Inr endpoints' \<and>
    InitiateMonikerList endpoints' \<lparr>ml_is_initial_write = first, ml_read_monikers = [RegisterMonikerInstance name i m],
      ml_write_monikers = [RegisterMonikerInstance name j m']\<rparr> = ([(Some f, i)], [(Some f, j)]) \<and>
    RegisterMonikerEndpoint name g sv' = Inr sv'"
  using assms
  by (auto simp: RegisterMonikerEndpoint_def get_endpoints_def emplace_def InitiateMonikerList_def
      RegisterMonikerInstance_def map_upd_triv split: if_splits option.splits)

definition example_service :: "(byte, byte list) service" where
  "example_service = \<lparr>ms_s_Server = 8, ms_servers = [8 \<mapsto> [''count'' \<mapsto> fst counter, ''record'' \<mapsto> fst recorder]]\<rparr>"

definition example_moniker :: "string \<Rightarrow> Moniker" where
  "example_moniker name = RegisterMonikerInstance name 0 \<lparr>mo_service_location = '''', mo_data_source = '''', mo_data_instance = 0\<rparr>"

lemma example_endpoints:
  "get_endpoints 8 example_service = Inr [''count'' \<mapsto> fst counter, ''record'' \<mapsto> fst recorder]"
  by (simp add: get_endpoints_def example_service_def)

theorem registered_moniker_resolved_witness:
  "\<exists>sv' endpoints'. RegisterMonikerEndpoint ''other'' (Some (\<lambda>i v w. Inr (v, w))) example_service = Inr sv' \<and>
    get_endpoints (ms_s_Server example_service) sv' = Inr endpoints' \<and>
    InitiateMonikerList endpoints' \<lparr>ml_is_initial_write = True,
      ml_read_monikers = [RegisterMonikerInstance ''other'' 3 (example_moniker ''count'')],
      ml_write_monikers = [RegisterMonikerInstance ''other'' 4 (example_moniker ''record'')]\<rparr> =
        ([(Some (\<lambda>i v w. Inr (v, w)), 3)], [(Some (\<lambda>i v w. Inr (v, w)), 4)]) \<and>
    RegisterMonikerEndpoint ''other'' None sv' = Inr sv'"
proof (rule registered_moniker_resolved)
  show "get_endpoints (ms_s_Server example_service) example_service =
      Inr [''count'' \<mapsto> fst counter, ''record'' \<mapsto> fst recorder]"
    using example_endpoints by (simp add: example_service_def)
qed simp

text \<open>
  A moniker whose source nobody has registered is accepted; the null endpoint is called when its
  turn comes.
\<close>

theorem unknown_source_crashes:
  assumes "get_endpoints this sv = Inr endpoints" and "ml_read_monikers request = ms @ m # ms'"
    and "endpoints (mo_data_source m) = None"
    and "\<And>e v st. e \<in> set (push_instances endpoints ms []) \<Longrightarrow> \<exists>v' st'. call_endpoint e v st = Inr (v', st')"
    and "\<not> rpc_cancelled rpc (rpc_asked rpc)"
  shows "StreamRead fresh this request sv (rpc, st) = Some (Inl NullPointer)"
proof -
  have stop: "call_on_new_values fresh (es @ (None, i) # es') vs st = Inl NullPointer"
    if "\<And>e v st. e \<in> set es \<Longrightarrow> \<exists>v' st'. call_endpoint e v st = Inr (v', st')" for es es' i vs st
    using that
  proof (induction es arbitrary: vs st)
    case Nil
    then show ?case by (simp add: call_endpoint_def)
  next
    case (Cons e es)
    obtain v st' where "call_endpoint e fresh st = Inr (v, st')" using Cons.prems [of e fresh st] by auto
    then show ?case using Cons by simp
  qed
  let ?readers = "fst (InitiateMonikerList endpoints request)"
  obtain es' where "?readers = push_instances endpoints ms [] @ (None, mo_data_instance m) # es'"
    using assms(2,3) by (simp add: InitiateMonikerList_def push_instances_append)
  then have "call_on_new_values fresh ?readers [] st = Inl NullPointer" using stop [OF assms(4)] by simp
  then have turn: "read_turn fresh ?readers (rpc, st) = Inl NullPointer"
    using assms(5) by (simp add: read_turn_def rpc_IsCancelled_def)
  show ?thesis using assms(1) repeat_turns_stop [of "read_turn fresh ?readers", OF turn] by (simp add: StreamRead_def)
qed

definition example_rpc :: "'q list \<Rightarrow> nat option \<Rightarrow> ('q, 'r) rpc" where
  "example_rpc qs stop = \<lparr>rpc_requests = qs, rpc_ended = True,
     rpc_cancelled = (\<lambda>k. case stop of None \<Rightarrow> False | Some n \<Rightarrow> n \<le> k), rpc_asked = 0, rpc_results = []\<rparr>"

definition example_list :: "bool \<Rightarrow> string list \<Rightarrow> string list \<Rightarrow> MonikerList" where
  "example_list first rs ws = \<lparr>ml_is_initial_write = first, ml_read_monikers = map example_moniker rs,
     ml_write_monikers = map example_moniker ws\<rparr>"

theorem unknown_source_crashes_witness:
  "StreamRead 0 8 (example_list True [''count'', ''none''] []) example_service (example_rpc [] (Some 3), []) =
    Some (Inl NullPointer)"
proof (rule unknown_source_crashes [OF example_endpoints])
  show "ml_read_monikers (example_list True [''count'', ''none''] []) =
      [example_moniker ''count''] @ example_moniker ''none'' # []"
    by (simp add: example_list_def)
qed (auto simp: example_moniker_def RegisterMonikerInstance_def example_rpc_def call_endpoint_def counter_def)

section \<open>Properties of the streams\<close>

text \<open>
  C27. \<open>StreamRead\<close> sends one result per turn until the call is cancelled: if the first question that
  is answered with yes is the one after \<open>n\<close> turns, the client gets \<open>n\<close> results, each with one value
  of every reader in the order of the monikers.
\<close>

theorem stream_read_samples:
  assumes "get_endpoints this sv = Inr endpoints"
    and "samples fresh (fst (InitiateMonikerList endpoints request)) n st = Inr (outs, st')"
    and "\<And>k. k < n \<Longrightarrow> \<not> rpc_cancelled rpc (rpc_asked rpc + k)" and "rpc_cancelled rpc (rpc_asked rpc + n)"
  shows "StreamRead fresh this request sv (rpc, st) = Some (Inr (rpc\<lparr>rpc_asked := rpc_asked rpc + Suc n,
    rpc_results := rpc_results rpc @ map (moniker_result (fst (InitiateMonikerList endpoints request))) outs\<rparr>, st'))"
  using assms(1) read_loop_samples [OF assms(2-4)] by (simp add: StreamRead_def)

definition example_reading :: "(unit, byte MonikerReadResult) rpc" where
  "example_reading = example_rpc [] (Some 2)"

theorem stream_read_samples_witness:
  "StreamRead 0 8 (example_list True [''count'', ''count''] []) example_service (example_reading, [5]) =
    Some (Inr (example_reading\<lparr>rpc_asked := rpc_asked example_reading + Suc 2,
      rpc_results := rpc_results example_reading @
        map (moniker_result (fst (InitiateMonikerList [''count'' \<mapsto> fst counter, ''record'' \<mapsto> fst recorder]
          (example_list True [''count'', ''count''] [])))) [[1, 1], [1, 1]]\<rparr>, [5]))"
proof (rule stream_read_samples [OF example_endpoints])
  show "samples 0 (fst (InitiateMonikerList [''count'' \<mapsto> fst counter, ''record'' \<mapsto> fst recorder]
      (example_list True [''count'', ''count''] []))) 2 [5] = Inr ([[1, 1], [1, 1]], [5])"
    by (simp add: numeral_2_eq_2 InitiateMonikerList_def example_list_def example_moniker_def
        RegisterMonikerInstance_def call_endpoint_def counter_def)
qed (simp_all add: example_reading_def example_rpc_def)

text \<open>
  C28. If its readers always return a value, \<open>StreamRead\<close> ends exactly if the call is cancelled at some
  time.
\<close>

theorem stream_read_returns_iff:
  assumes "get_endpoints this sv = Inr endpoints"
    and "\<And>st. \<exists>vs st'. call_on_new_values fresh (fst (InitiateMonikerList endpoints request)) [] st = Inr (vs, st')"
  shows "(\<exists>y. StreamRead fresh this request sv (rpc, st) = Some y) = (\<exists>k. rpc_cancelled rpc (rpc_asked rpc + k))"
proof
  let ?readers = "fst (InitiateMonikerList endpoints request)"
  assume "\<exists>k. rpc_cancelled rpc (rpc_asked rpc + k)"
  then obtain n where n: "rpc_cancelled rpc (rpc_asked rpc + n)" "\<And>k. k < n \<Longrightarrow> \<not> rpc_cancelled rpc (rpc_asked rpc + k)"
    using exists_least_iff [of "\<lambda>k. rpc_cancelled rpc (rpc_asked rpc + k)"] by blast
  obtain outs st' where s: "samples fresh ?readers n st = Inr (outs, st')" using read_loop_first_cancel [OF assms(2)] by blast
  show "\<exists>y. StreamRead fresh this request sv (rpc, st) = Some y"
    using read_loop_samples [OF s n(2) n(1)] assms(1) by (simp add: StreamRead_def)
next
  let ?readers = "fst (InitiateMonikerList endpoints request)"
  assume returns: "\<exists>y. StreamRead fresh this request sv (rpc, st) = Some y"
  show "\<exists>k. rpc_cancelled rpc (rpc_asked rpc + k)"
  proof (rule ccontr)
    assume never: "\<nexists>k. rpc_cancelled rpc (rpc_asked rpc + k)"
    let ?going = "\<lambda>(rpc' :: (unit, 'a MonikerReadResult) rpc, st' :: 'b).
      rpc_cancelled rpc' = rpc_cancelled rpc \<and> rpc_asked rpc \<le> rpc_asked rpc'"
    have "repeat_turns (read_turn fresh ?readers) (rpc, st) = None"
    proof (rule repeat_turns_None [where going = ?going])
      fix x assume "?going x"
      then obtain rpc' st' where x: "x = (rpc', st')" "rpc_cancelled rpc' = rpc_cancelled rpc"
        "rpc_asked rpc \<le> rpc_asked rpc'"
        by (cases x) auto
      have "\<not> rpc_cancelled rpc' (rpc_asked rpc')" using never x(2,3) le_Suc_ex by metis
      moreover obtain vs st'' where "call_on_new_values fresh ?readers [] st' = Inr (vs, st'')" using assms(2) by blast
      ultimately show "\<exists>y. read_turn fresh ?readers x = Inr (True, y) \<and> ?going y"
        using x by (simp add: read_turn_def rpc_IsCancelled_def rpc_Write_def)
    qed simp
    then show False using returns assms(1) by (simp add: StreamRead_def)
  qed
qed

theorem stream_read_returns_iff_witness:
  "(\<exists>y. StreamRead 0 8 (example_list True [''count''] []) example_service (example_rpc [] None, []) = Some y) =
    (\<exists>k. rpc_cancelled (example_rpc [] None :: (unit, byte MonikerReadResult) rpc)
      (rpc_asked (example_rpc [] None :: (unit, byte MonikerReadResult) rpc) + k))"
  by (rule stream_read_returns_iff [OF example_endpoints])
    (simp add: InitiateMonikerList_def example_list_def example_moniker_def RegisterMonikerInstance_def
      call_endpoint_def counter_def)

text \<open>
  C26. \<open>StreamWrite\<close> gives the values of every message after the first to the writers that the first
  one names, in order, until the client ends its stream; a missing value or a failing endpoint ends it
  there.
\<close>

theorem stream_write_delivers:
  assumes "get_endpoints this sv = Inr endpoints"
    and "rpc_requests rpc = WriteMonikers monikers # map WriteData vss" and "rpc_ended rpc"
    and "\<And>k. \<not> rpc_cancelled rpc k"
    and "serve fresh [] (snd (InitiateMonikerList endpoints monikers)) vss st = (outs, result)"
  shows "StreamWrite this sv (rpc, st) = Some (case result of
      Inl e \<Rightarrow> Inl e
    | Inr st' \<Rightarrow> Inr (rpc\<lparr>rpc_requests := [], rpc_asked := rpc_asked rpc + length vss\<rparr>, st'))"
proof -
  let ?rpc = "rpc\<lparr>rpc_requests := map WriteData vss\<rparr>"
  obtain readers writers where lists: "InitiateMonikerList endpoints monikers = (readers, writers)"
    by (cases "InitiateMonikerList endpoints monikers")
  have "serve fresh [] writers vss st = (outs, result)" using assms(5) lists by simp
  from write_loop_serve [of ?rpc, OF _ _ _ this, of "WriteMonikers monikers"] show ?thesis
    using assms(1-4) lists by (auto simp: StreamWrite_def rpc_Read_def split: sum.splits)
qed

definition example_writing :: "(byte MonikerWriteRequest, unit) rpc" where
  "example_writing = example_rpc [WriteMonikers (example_list True [] [''record'']), WriteData [7], WriteData [9]] None"

theorem stream_write_delivers_witness:
  "StreamWrite 8 example_service (example_writing, []) = Some (case Inr [7, 9] of
      Inl e \<Rightarrow> Inl e
    | Inr st' \<Rightarrow> Inr (example_writing\<lparr>rpc_requests := [], rpc_asked := rpc_asked example_writing + length [[7], [9 :: byte]]\<rparr>, st'))"
proof (rule stream_write_delivers [where fresh = 0 and outs = "[[], []]", OF example_endpoints])
  show "serve 0 [] (snd (InitiateMonikerList [''count'' \<mapsto> fst counter, ''record'' \<mapsto> fst recorder]
      (example_list True [] [''record'']))) [[7], [9]] [] = ([[], []], Inr [7, 9])"
    by (simp add: InitiateMonikerList_def example_list_def example_moniker_def RegisterMonikerInstance_def
        call_endpoint_def recorder_def element_def)
qed (simp_all add: example_writing_def example_rpc_def)

text \<open>
  C25. \<open>StreamReadWrite\<close> with an initial write answers every message after the first with one result: the
  writers get its values in order, then the readers are read.
\<close>

theorem stream_read_write_serves:
  assumes "get_endpoints this sv = Inr endpoints"
    and "rpc_requests rpc = WriteMonikers monikers # map WriteData vss" and "rpc_ended rpc"
    and "\<And>k. \<not> rpc_cancelled rpc k" and "ml_is_initial_write monikers"
    and "InitiateMonikerList endpoints monikers = (readers, writers)"
    and "serve fresh readers writers vss st = (outs, result)"
  shows "StreamReadWrite fresh this sv (rpc, st) = Some (case result of
      Inl e \<Rightarrow> Inl e
    | Inr st' \<Rightarrow> Inr (rpc\<lparr>rpc_requests := [], rpc_asked := rpc_asked rpc + length vss,
        rpc_results := rpc_results rpc @ map (moniker_result readers) outs\<rparr>, st'))"
proof -
  let ?rpc = "rpc\<lparr>rpc_requests := map WriteData vss\<rparr>"
  from read_write_loop_serve [of ?rpc, OF _ _ _ assms(7), of "WriteMonikers monikers"] show ?thesis
    using assms(1-6) by (auto simp: StreamReadWrite_def rpc_Read_def split: sum.splits)
qed

definition example_conversation :: "(byte MonikerWriteRequest, byte MonikerReadResult) rpc" where
  "example_conversation =
     example_rpc [WriteMonikers (example_list True [''count''] [''record'']), WriteData [7], WriteData [9]] None"

theorem stream_read_write_serves_witness:
  "StreamReadWrite 0 8 example_service (example_conversation, []) = Some (case Inr [7, 9] of
      Inl e \<Rightarrow> Inl e
    | Inr st' \<Rightarrow> Inr (example_conversation\<lparr>rpc_requests := [],
        rpc_asked := rpc_asked example_conversation + length [[7], [9 :: byte]],
        rpc_results := rpc_results example_conversation @ map (moniker_result [counter]) [[1], [2]]\<rparr>, st'))"
proof (rule stream_read_write_serves [where writers = "[recorder]", OF example_endpoints])
  show "InitiateMonikerList [''count'' \<mapsto> fst counter, ''record'' \<mapsto> fst recorder] (example_list True [''count''] [''record'']) =
      ([counter], [recorder])"
    by (simp add: InitiateMonikerList_def example_list_def example_moniker_def RegisterMonikerInstance_def
        counter_def recorder_def)
  show "serve 0 [counter] [recorder] [[7], [9]] [] = ([[1], [2]], Inr [7, 9])"
    by (simp add: counter_def recorder_def call_endpoint_def element_def)
qed (simp_all add: example_conversation_def example_rpc_def example_list_def)

text \<open>
  Without an initial write, \<open>StreamReadWrite\<close> never reads a message after the first. With readers or
  writers it fails in its first turn, at the first element of an empty list of values.
\<close>

theorem stream_read_write_never_reads:
  assumes "get_endpoints this sv = Inr endpoints"
    and "rpc_requests rpc = WriteMonikers monikers # requests" and "\<not> ml_is_initial_write monikers"
    and "InitiateMonikerList endpoints monikers = (readers, writers)" and "readers \<noteq> [] \<or> writers \<noteq> []"
    and "\<not> rpc_cancelled rpc (rpc_asked rpc)"
  shows "StreamReadWrite fresh this sv (rpc, st) = Some (Inl BadAccess)"
proof -
  have turn: "no_read_turn readers writers (WriteMonikers monikers, rpc\<lparr>rpc_requests := requests\<rparr>, st) = Inl BadAccess"
    using assms(5,6) by (cases "readers = []") (simp_all add: no_read_turn_def rpc_IsCancelled_def Let_def)
  show ?thesis
    using assms(1-4) repeat_turns_stop [of "no_read_turn readers writers", OF turn]
    by (simp add: StreamReadWrite_def rpc_Read_def)
qed

theorem stream_read_write_never_reads_witness:
  "StreamReadWrite 0 8 example_service (example_rpc [WriteMonikers (example_list False [] [''record'']), WriteData [7]] None, []) =
    Some (Inl BadAccess)"
proof (rule stream_read_write_never_reads [where writers = "[recorder]" and readers = "[]", OF example_endpoints])
  show "InitiateMonikerList [''count'' \<mapsto> fst counter, ''record'' \<mapsto> fst recorder] (example_list False [] [''record'']) =
      ([], [recorder])"
    by (simp add: InitiateMonikerList_def example_list_def example_moniker_def RegisterMonikerInstance_def recorder_def)
qed (simp_all add: example_rpc_def example_list_def)

text \<open>
  A client that opens a \<open>StreamReadWrite\<close> and ends it without a message keeps the service sending it
  empty results for ever.
\<close>

theorem stream_read_write_spins:
  assumes "get_endpoints this sv = Inr endpoints" and "rpc_requests rpc = []" and "rpc_ended rpc"
    and "\<And>k. \<not> rpc_cancelled rpc k"
  shows "StreamReadWrite fresh this sv (rpc, st) = None"
proof -
  let ?going = "\<lambda>(request :: 'a MonikerWriteRequest, rpc' :: ('a MonikerWriteRequest, 'a MonikerReadResult) rpc, st' :: 'b).
    rpc_cancelled rpc' = rpc_cancelled rpc"
  have "repeat_turns (no_read_turn [] []) (NoWriteData, rpc, st) = None"
  proof (rule repeat_turns_None [where going = ?going])
    fix x assume "?going x"
    then show "\<exists>y. no_read_turn [] [] x = Inr (True, y) \<and> ?going y"
      using assms(4) by (cases x) (simp add: no_read_turn_def rpc_IsCancelled_def rpc_Write_def)
  qed simp
  then show ?thesis
    using assms(1-3)
    by (simp add: StreamReadWrite_def rpc_Read_def InitiateMonikerList_def empty_monikers_def)
qed

theorem stream_read_write_spins_witness:
  "StreamReadWrite 0 8 example_service (example_rpc [] None, []) = None"
  by (rule stream_read_write_spins [OF example_endpoints]) (simp_all add: example_rpc_def)

end
