(* ===== verification/MonikerSession.thy ===== *)
theory MonikerSession
  imports MonikerStreams
begin

text \<open>
  A whole session of the data moniker service over a sideband socket, from both sides: the service
  answers the request for a stream and starts its thread, the client connects with what the answer
  says, and the two exchange messages.
\<close>

section \<open>Beginning a stream\<close>

definition server_ready :: "'s program \<Rightarrow> bool" where
  "server_ready s \<longleftrightarrow> So_idle s \<and> mc_next s \<noteq> 0 \<and> mc_next s + 1 \<noteq> 0"

lemma BeginSidebandStream_sockets:
  assumes "bq_strategy request = SOCKETS \<or> bq_strategy request = SOCKETS_LOW_LATENCY" and "server_ready s"
    and "NextConnectionId (pg_nextId s) = Inr (ident, k)" and "length ident = ConnectIdLength"
    and "GetConnectionAddress (pg_config s) (pg_interfaces s) (bq_strategy request) = Inr url"
    and "get_endpoints this sv = Inr endpoints"
    and "InitiateMonikerList endpoints (bq_monikers request) = (readers, writers)"
  shows "BeginSidebandStream lib this request sv s = Inr
    (\<lparr>rs_strategy = bq_strategy request, rs_connection_url = url, rs_sideband_identifier = ident, rs_buffer_size = 1048576\<rparr>,
     \<lparr>th_identifier = ident, th_strategy = bq_strategy request, th_readers = readers, th_writers = writers,
      th_initialClientWrite = ml_is_initial_write (bq_monikers request)\<rparr>,
     s\<lparr>pg_nextId := k, pg_sockets := \<lparr>sq_connectQueue = 0, sq_nextConnectLowLatency = (bq_strategy request = SOCKETS_LOW_LATENCY),
       sq_nextConnectBufferSize = 1048576, sq_nextConnectionId = ident\<rparr>\<rparr>)"
  using assms
  by (auto simp: BeginSidebandStream_def InitOwnerSidebandData_def Init_queued_def strcpy_def ConnectIdLength_eq
      QueueSidebandConnection_def So_QueueSidebandConnection_def Semaphore_wait_def server_ready_def So_idle_def
      Semaphore_initial_def Let_def)

section \<open>The client\<close>

text \<open>The client can resolve and reach the server, and the kernel grants both ends \<open>b\<close> bytes in each direction.\<close>

definition client_can_reach :: "string \<Rightarrow> string \<Rightarrow> nat \<Rightarrow> 's program \<Rightarrow> bool" where
  "client_can_reach a p b c \<longleftrightarrow>
     (case nt_resolve (mc_net c) a p of Some (addr # addrs) \<Rightarrow> nt_reachable (mc_net c) addr | _ \<Rightarrow> False) \<and>
     0 < nt_next_fd (mc_net c) \<and> nt_next_fd (mc_net c) < nt_fd_limit (mc_net c) \<and> nt_backlog (mc_net c) = [] \<and>
     grants_sends (ConnectIdLength + b) (nt_plan (mc_net c)) \<and> grants_recvs (ConnectIdLength + b) (nt_plan (mc_net c)) \<and>
     mc_next c \<noteq> 0 \<and> mc_next c + 1 \<noteq> 0"

lemma So_channel_socket:
  "so_socket w = so_socket w' \<Longrightarrow> so_socket r = so_socket r' \<Longrightarrow> So_channel w r b c net q = So_channel w' r' b c net q"
  by (simp add: So_channel_def)

lemma So_arrived_socket: "so_socket r = so_socket r' \<Longrightarrow> So_arrived r c net q = So_arrived r' c net q"
  by (simp add: So_arrived_def)

text \<open>Both ends right after the connection was made.\<close>

definition new_connection :: "SocketSidebandData \<Rightarrow> SocketSidebandData \<Rightarrow> nat \<Rightarrow> nat \<Rightarrow> connection" where
  "new_connection this peer x y = \<lparr>co_bufferSize = sd_bufferSize this, co_socket = so_socket this, co_peer = peer,
     co_peer_sends = x, co_peer_recvs = y\<rparr>"

lemma new_port:
  assumes "t \<noteq> 0" and "mc_objects pg t = Some (SocketSideband this)" and "sd_serializeBuffer this = []"
    and "0 \<le> sint (sd_bufferSize this)" and "codec_ok rq"
    and "list_all (\<lambda>q. message_ok (sd_bufferSize this) (pb_serialize rq q)) qs"
    and "So_channel peer this x c (mc_net pg) (map (pb_serialize rq) qs)" and "So_channel this peer b y (mc_net pg) []"
  shows "socket_port rq rs (new_connection this peer x y) t pg b c pg qs []"
  using assms by (auto simp: socket_port_def new_connection_def socket_at_def buffer_allocated_def same_objects_def)

lemma connected_client:
  assumes resp: "resp = \<lparr>rs_strategy = strategy, rs_connection_url = url, rs_sideband_identifier = ident, rs_buffer_size = 1048576\<rparr>"
    and strategy: "strategy = SOCKETS \<or> strategy = SOCKETS_LOW_LATENCY"
    and "SplitUrlString url = [a, p]" and reach: "client_can_reach a p b c" and "pg_buffers c ident = None"
    and "length ident = ConnectIdLength" and "So_pending (strategy, ident, 1048576) s" and "pg_buffers s ident = None"
    and "mc_next s \<noteq> 0" and "mc_next s + 1 \<noteq> 0"
  shows "\<exists>w r c1 s2. InitMonikerSidebandData lib resp c = Inr (mc_next c, c1) \<and>
    accept_loop sockfd (Readable # evs) (s\<lparr>mc_net := mc_net c1\<rparr>) = accept_loop sockfd evs s2 \<and>
    mc_objects c1 (mc_next c) = Some (SocketSideband w) \<and> mc_objects s2 (mc_next s) = Some (SocketSideband r) \<and>
    so_id r = ident \<and> pg_buffers s2 ident = Some (mc_next s) \<and> sd_serializeBuffer w = [] \<and> sd_serializeBuffer r = [] \<and>
    sd_bufferSize w = 1048576 \<and> sd_bufferSize r = 1048576 \<and>
    So_channel w r b b (mc_net s2) [] \<and> So_channel r w b b (mc_net s2) []"
proof -
  obtain addr addrs where "nt_resolve (mc_net c) a p = Some (addr # addrs)" "nt_reachable (mc_net c) addr"
    using reach by (auto simp: client_can_reach_def split: option.splits list.splits)
  then obtain w r c' s2 where init: "So_ClientInit url ident 1048576 (strategy = SOCKETS_LOW_LATENCY) c = Inr (mc_next c, c')"
    and accept: "accept_loop sockfd (Readable # evs) (s\<lparr>mc_net := mc_net c'\<rparr>) = accept_loop sockfd evs s2"
    and w: "w = (So_new ident 1048576 (strategy = SOCKETS_LOW_LATENCY))\<lparr>so_socket := nt_next_fd (mc_net c)\<rparr>"
    and r: "r = (So_new_accepted (Suc (nt_next_fd (mc_net c))) 1048576 (strategy = SOCKETS_LOW_LATENCY))\<lparr>so_id := ident\<rparr>"
    and objs: "mc_objects c' (mc_next c) = Some (SocketSideband w)" "mc_objects s2 (mc_next s) = Some (SocketSideband r)"
    and regs: "pg_buffers c' = pg_buffers c" "pg_buffers s2 = (pg_buffers s)(ident \<mapsto> mc_next s)"
    and chans: "So_channel w r b b (mc_net s2) []" "So_channel r w b b (mc_net s2) []"
    using socket_handshake_objects [of url a p c addr addrs b ident strategy 1048576 s 1048576 "strategy = SOCKETS_LOW_LATENCY"
        sockfd evs] assms
    by (auto simp: client_can_reach_def)
  let ?c1 = "c'\<lparr>pg_buffers := (pg_buffers c')(ident \<mapsto> mc_next c)\<rparr>"
  have "InitMonikerSidebandData lib resp c = Inr (mc_next c, ?c1)"
    using init strategy regs(1) assms(5) unfolding resp
    by (auto simp: InitMonikerSidebandData_def InitClientSidebandData_def insert_client_def emplace_def)
  then show ?thesis
    using accept objs regs chans w r
    by (intro exI [of _ w] exI [of _ r] exI [of _ ?c1] exI [of _ s2]) (simp add: So_new_def So_new_accepted_def)
qed

section \<open>The session\<close>

text \<open>The beginning of a session as a whole: both processes have an end of the connection.\<close>

lemma session_connected:
  assumes strategy: "bq_strategy request = SOCKETS \<or> bq_strategy request = SOCKETS_LOW_LATENCY"
    and ident: "NextConnectionId (pg_nextId s) = Inr (ident, k)" "length ident = ConnectIdLength"
    and url: "GetConnectionAddress (pg_config s) (pg_interfaces s) (bq_strategy request) = Inr url"
      "SplitUrlString url = [a, p]"
    and server: "server_ready s" "pg_buffers s ident = None"
    and client: "client_can_reach a p b c" "pg_buffers c ident = None"
    and endpoints: "get_endpoints this sv = Inr endpoints"
      "InitiateMonikerList endpoints (bq_monikers request) = (readers, writers)"
  obtains resp s1 tc c1 s2 ts w r where
    "BeginSidebandStream lib this request sv s = Inr (resp, \<lparr>th_identifier = ident, th_strategy = bq_strategy request,
      th_readers = readers, th_writers = writers, th_initialClientWrite = ml_is_initial_write (bq_monikers request)\<rparr>, s1)"
    "InitMonikerSidebandData lib resp c = Inr (tc, c1)"
    "accept_loop sockfd (Readable # evs) (s1\<lparr>mc_net := mc_net c1\<rparr>) = accept_loop sockfd evs s2"
    "tc \<noteq> 0" "mc_objects c1 tc = Some (SocketSideband w)" "ts \<noteq> 0" "mc_objects s2 ts = Some (SocketSideband r)"
    "so_id r = ident" "pg_buffers s2 ident = Some ts" "sd_serializeBuffer w = []" "sd_serializeBuffer r = []"
    "sd_bufferSize w = 1048576" "sd_bufferSize r = 1048576"
    "So_channel w r b b (mc_net s2) []" "So_channel r w b b (mc_net s2) []"
proof -
  let ?size = "1048576 :: int64"
  let ?resp = "\<lparr>rs_strategy = bq_strategy request, rs_connection_url = url, rs_sideband_identifier = ident, rs_buffer_size = ?size\<rparr>"
  let ?s1 = "s\<lparr>pg_nextId := k, pg_sockets := \<lparr>sq_connectQueue = 0, sq_nextConnectLowLatency = (bq_strategy request = SOCKETS_LOW_LATENCY),
       sq_nextConnectBufferSize = ?size, sq_nextConnectionId = ident\<rparr>\<rparr>"
  have begun: "BeginSidebandStream lib this request sv s = Inr (?resp, \<lparr>th_identifier = ident, th_strategy = bq_strategy request,
      th_readers = readers, th_writers = writers, th_initialClientWrite = ml_is_initial_write (bq_monikers request)\<rparr>, ?s1)"
    by (rule BeginSidebandStream_sockets [OF strategy server(1) ident url(1) endpoints(1,2)])
  have "So_pending (bq_strategy request, ident, ?size) ?s1" "pg_buffers ?s1 ident = None" "mc_next ?s1 \<noteq> 0" "mc_next ?s1 + 1 \<noteq> 0"
    using server by (simp_all add: So_pending_def server_ready_def)
  from connected_client [OF refl strategy url(2) client ident(2) this, of lib sockfd evs] obtain w r c1 s2 where
    init: "InitMonikerSidebandData lib ?resp c = Inr (mc_next c, c1)"
    and accept: "accept_loop sockfd (Readable # evs) (?s1\<lparr>mc_net := mc_net c1\<rparr>) = accept_loop sockfd evs s2"
    and objs: "mc_objects c1 (mc_next c) = Some (SocketSideband w)" "mc_objects s2 (mc_next s) = Some (SocketSideband r)"
    and reg: "so_id r = ident" "pg_buffers s2 ident = Some (mc_next s)"
    and fresh: "sd_serializeBuffer w = []" "sd_serializeBuffer r = []" "sd_bufferSize w = ?size" "sd_bufferSize r = ?size"
    and chans: "So_channel w r b b (mc_net s2) []" "So_channel r w b b (mc_net s2) []"
    by auto
  have "mc_next c \<noteq> 0" "mc_next s \<noteq> 0" using client(1) server(1) by (simp_all add: client_can_reach_def server_ready_def)
  then show ?thesis
    by (intro that [of ?resp ?s1 "mc_next c" c1 s2 w "mc_next s" r] begun init accept objs reg fresh chans)
qed

text \<open>
  C34. A session with an initial write, over sockets: \<open>BeginSidebandStream\<close> answers and queues the
  connection; with the answer alone \<open>InitMonikerSidebandData\<close> gives the client a token, and the server
  accepts and registers the connection; the client writes its requests and a cancel request; the
  thread that was started serves them and ends; the client then reads exactly the responses that the
  readers gave, in order.
\<close>

theorem moniker_session:
  assumes strategy: "bq_strategy request = SOCKETS \<or> bq_strategy request = SOCKETS_LOW_LATENCY"
    and ident: "NextConnectionId (pg_nextId s) = Inr (ident, k)" "length ident = ConnectIdLength"
    and url: "GetConnectionAddress (pg_config s) (pg_interfaces s) (bq_strategy request) = Inr url"
      "SplitUrlString url = [a, p]"
    and server: "server_ready s" "pg_buffers s ident = None"
    and client: "client_can_reach a p b c" "pg_buffers c ident = None"
    and endpoints: "get_endpoints this sv = Inr endpoints"
      "InitiateMonikerList endpoints (bq_monikers request) = (readers, writers)"
      "ml_is_initial_write (bq_monikers request)"
    and codecs: "codec_ok rq" "codec_ok rs"
    and requests: "list_all (\<lambda>q. message_ok 1048576 (pb_serialize rq q) \<and> 0 < length (pb_serialize rq q)) (qs @ [stop])"
      "sum_list (map (\<lambda>q. length (frame (pb_serialize rq q))) (qs @ [stop])) \<le> b"
      "list_all (\<lambda>q. \<not> sw_cancel q) qs" "sw_cancel stop"
    and served: "serve fresh readers writers (map sent_values qs) st = (outs, Inr st')"
    and answers: "list_all (\<lambda>r. message_ok 1048576 (pb_serialize rs r) \<and> 0 < length (pb_serialize rs r)) (responses readers outs)"
      "sum_list (map (\<lambda>r. length (frame (pb_serialize rs r))) (responses readers outs)) \<le> b"
  shows "\<exists>resp th s1 tc c1 s2 c2 s3 c3.
    BeginSidebandStream lib this request sv s = Inr (resp, th, s1) \<and>
    InitMonikerSidebandData lib resp c = Inr (tc, c1) \<and>
    accept_loop sockfd (Readable # evs) (s1\<lparr>mc_net := mc_net c1\<rparr>) = accept_loop sockfd evs s2 \<and>
    write_messages (WriteSidebandMessage lib rq tc) (qs @ [stop]) (c1\<lparr>mc_net := mc_net s2\<rparr>) = Inr c2 \<and>
    run_thread lib rq rs fresh th (s2\<lparr>mc_net := mc_net c2\<rparr>, st) = Some (Inr (s3, st')) \<and>
    read_messages (ReadSidebandMessage lib rs tc) old (length (responses readers outs)) (c2\<lparr>mc_net := mc_net s3\<rparr>) =
      Inr (responses readers outs, c3)"
proof (rule session_connected [OF strategy ident url server client endpoints(1,2), of lib sockfd evs], goal_cases)
  case (1 resp s1 tc c1 s2 ts w r)
  note begun = 1(1) and init = 1(2) and accept = 1(3) and objs = 1(5,7) and reg = 1(8,9) and fresh = 1(10-13) and chans = 1(14,15)
    and live = 1(4,6)
  let ?size = "1048576 :: int64" and ?c1 = "c1\<lparr>mc_net := mc_net s2\<rparr>"
  let ?th = "\<lparr>th_identifier = ident, th_strategy = bq_strategy request, th_readers = readers, th_writers = writers,
      th_initialClientWrite = ml_is_initial_write (bq_monikers request)\<rparr>"
  let ?cost = "\<lambda>qs. sum_list (map (\<lambda>q. length (frame (pb_serialize rq q))) qs)"
  obtain b1 where b1: "b = ?cost (qs @ [stop]) + b1" using requests(2) le_Suc_ex by blast
  have "socket_port rs rq (new_connection w r b b) tc ?c1 b b ?c1 [] []"
    by (rule new_port) (use live objs fresh codecs chans in simp_all)
  then have "socket_port rs rq (new_connection w r b b) tc ?c1 (?cost (qs @ [stop]) + b1) b ?c1 [] []"
    using b1 by simp
  from socket_messages.sink.write_all [OF this, of lib] obtain c2 where
    wrote: "write_messages (WriteSidebandMessage lib rq tc) (qs @ [stop]) ?c1 = Inr c2"
    and cport: "socket_port rs rq (new_connection w r b b) tc ?c1 b1 b c2 [] (qs @ [stop])"
    using requests(1) fresh(3) by (auto simp: new_connection_def)
  then obtain w' where w': "socket_at tc w' 0 c2" "sd_bufferSize w' = ?size" "so_socket w' = so_socket w"
    and there: "So_channel w' r b1 b (mc_net c2) (map (pb_serialize rq) (qs @ [stop]))"
    and home: "So_channel r w' b b (mc_net c2) []"
    using fresh(3) by (auto simp: socket_port_def new_connection_def)
  let ?s2 = "s2\<lparr>mc_net := mc_net c2\<rparr>"
  obtain b2 where b2: "b = sum_list (map (\<lambda>r. length (frame (pb_serialize rs r))) (responses readers outs)) + b2"
    using answers(2) le_Suc_ex by blast
  have b1': "b = ?cost qs + (length (frame (pb_serialize rq stop)) + b1)" using b1 by (simp add: add.assoc)
  have "socket_port rq rs (new_connection r w b1 b) ts ?s2 b b ?s2 (qs @ [stop]) []"
    by (rule new_port)
      (use live objs fresh codecs requests(1) there home So_channel_socket [OF w'(3) refl] So_channel_socket [OF refl w'(3)]
        in \<open>simp_all add: list.pred_map list_all_iff\<close>)
  then have "socket_port rq rs (new_connection r w b1 b) ts ?s2
      (sum_list (map (\<lambda>r. length (frame (pb_serialize rs r))) (responses readers outs)) + b2)
      (?cost qs + (length (frame (pb_serialize rq stop)) + b1)) ?s2 (qs @ stop # []) []"
    using b2 b1' by simp
  from stream_over_port [OF _ _ _ requests(3,4) served _ this, of ident "SocketSideband r" lib "bq_strategy request"]
  obtain s3 where run: "run_thread lib rq rs fresh ?th (?s2, st) = Some (Inr (s3, st'))"
    and last: "last_messages rs w b (responses readers outs) (mc_net s3)"
    using reg objs(2) answers(1) fresh(4) endpoints(3)
    by (auto simp: run_thread_def new_connection_def UsageId_def So_UsageId_def)
  have "socket_inbox rs ?size tc (sum_list (map (\<lambda>r. length (frame (pb_serialize rs r))) (responses readers outs)) + b2)
      (c2\<lparr>mc_net := mc_net s3\<rparr>) (responses readers outs @ [])"
    using w' codecs(2) answers(1) last b2 So_arrived_socket [OF w'(3)]
    by (auto simp: socket_inbox_def socket_at_def last_messages_def list_all_iff)
  from socket_inbox.read_all [OF this, of lib old] obtain c3 where
    "read_messages (ReadSidebandMessage lib rs tc) old (length (responses readers outs)) (c2\<lparr>mc_net := mc_net s3\<rparr>) =
      Inr (responses readers outs, c3)"
    by blast
  then show ?case using begun init accept wrote run by blast
qed

text \<open>A server that announces its address as \<open>host\<close>, a client, and a conversation.\<close>

definition example_server :: "fifo program" where
  "example_server = (example_program 3 [])\<lparr>pg_config := \<lparr>sc_address = ''host'', sc_port = 0\<rparr>\<rparr>"

definition example_client :: "fifo program" where
  "example_client = example_program 3 (replicate 100 (Transfer 0))"

definition example_request :: BeginMonikerSidebandStreamRequest where
  "example_request = \<lparr>bq_strategy = SOCKETS, bq_monikers = example_list True [''count''] [''record'']\<rparr>"

lemma example_number: "format_10d 2 = ''         2''"
  by code_simp

lemma example_identifier: "NextConnectionId (pg_nextId example_server) = Inr (''ID:         2'', 2)"
  by (simp add: NextConnectionId_eq example_server_def example_program_def initial_nextId_def example_number)

lemma example_url: "GetConnectionAddress (pg_config example_server) (pg_interfaces example_server) (bq_strategy example_request) =
    Inr ''host:50055''"
  by (simp add: GetConnectionAddress_def example_request_def GetSocketsAddress_def GetSocketsPort_def example_server_def
      example_program_def)

lemma example_session:
  "SplitUrlString ''host:50055'' = [''host'', ''50055'']"
  "client_can_reach ''host'' ''50055'' 50 example_client" "server_ready example_server"
  "InitiateMonikerList [''count'' \<mapsto> fst counter, ''record'' \<mapsto> fst recorder] (bq_monikers example_request) =
    ([counter], [recorder])"
  by (simp add: SplitUrlString.simps)
    (simp_all add: client_can_reach_def example_client_def example_program_def ConnectIdLength_eq grants_sends_replicate
      grants_recvs_transfers server_ready_def example_server_def So_idle_def InitiateMonikerList_def example_request_def
      example_list_def example_moniker_def RegisterMonikerInstance_def counter_def recorder_def)

theorem moniker_session_witness:
  "\<exists>resp th s1 tc c1 s2 c2 s3 c3.
    BeginSidebandStream (fifo_lib 64 2) 8 example_request example_service example_server = Inr (resp, th, s1) \<and>
    InitMonikerSidebandData (fifo_lib 64 2) resp example_client = Inr (tc, c1) \<and>
    accept_loop 3 (Readable # [StopFlag]) (s1\<lparr>mc_net := mc_net c1\<rparr>) = accept_loop 3 [StopFlag] s2 \<and>
    write_messages (WriteSidebandMessage (fifo_lib 64 2) example_requests tc)
      ([\<lparr>sw_cancel = False, sw_values = Some [7]\<rparr>] @ [\<lparr>sw_cancel = True, sw_values = None\<rparr>]) (c1\<lparr>mc_net := mc_net s2\<rparr>) = Inr c2 \<and>
    run_thread (fifo_lib 64 2) example_requests example_responses 0 th (s2\<lparr>mc_net := mc_net c2\<rparr>, []) = Some (Inr (s3, [7])) \<and>
    read_messages (ReadSidebandMessage (fifo_lib 64 2) example_responses tc) \<lparr>sr_cancel = True, sr_values = None\<rparr>
      (length (responses [counter] [[1]])) (c2\<lparr>mc_net := mc_net s3\<rparr>) = Inr (responses [counter] [[1]], c3)"
proof (rule moniker_session [where b = 50, OF _ example_identifier _ example_url example_session(1,3) _ example_session(2) _
      example_endpoints example_session(4)])
  show "serve 0 [counter] [recorder] (map sent_values [\<lparr>sw_cancel = False, sw_values = Some [7]\<rparr>]) [] = ([[1]], Inr [7])"
    by (simp add: counter_def recorder_def sent_values_def call_endpoint_def element_def)
qed (simp_all add: example_server_def example_client_def example_program_def example_request_def example_list_def
    ConnectIdLength_eq example_requests_ok example_responses_ok, simp_all add: example_requests_def example_responses_def
    message_ok_def responses_def response_def sizeof_int64_def)

end
