(* ===== verification/SocketStream.thy ===== *)
theory SocketStream
  imports StreamTurns MonikerSession
begin

text \<open>
  A stream of the data moniker service over a sideband socket in which the two ends take turns, and a whole
  session with such a stream: from \<open>BeginSidebandStream\<close> to the close, with the client and the service running at the
  same time. Unlike over RDMA the kernel keeps what the client has not read when the service closes.
\<close>

section \<open>Two ends of a socket connection\<close>

abbreviation frame_cost :: "'m codec \<Rightarrow> 'm list \<Rightarrow> nat" where
  "frame_cost pb ms \<equiv> sum_list (map (\<lambda>m. length (frame (pb_serialize pb m))) ms)"

abbreviation socket_sendable :: "int64 \<Rightarrow> 'm codec \<Rightarrow> 'm \<Rightarrow> bool" where
  "socket_sendable bsize pb m \<equiv> message_ok bsize (pb_serialize pb m) \<and> 0 < length (pb_serialize pb m)"

text \<open>After a step of one end, the other end shares the network with it.\<close>

lemma socket_port_network:
  assumes "socket_port rq rs (new_connection r w bc cc) t pg0 bs cs pg qs outs"
    and "socket_port rs rq (new_connection w r bs' cs') tp mp0 bc' cc' mp outs' qs'"
    and "list_all (\<lambda>q. message_ok (sd_bufferSize r) (pb_serialize rq q)) qs'"
  shows "socket_port rq rs (new_connection r w bc' cc') t pg0 bs' cs' (network mp pg) qs' outs'"
proof -
  obtain r' where r': "socket_at t r' 0 pg" "sd_bufferSize r' = sd_bufferSize r" "so_socket r' = so_socket r"
    "codec_ok rq" "same_objects pg0 pg"
    using assms(1) by (auto simp: socket_port_def new_connection_def)
  obtain w' where w': "so_socket w' = so_socket w"
    and chans: "So_channel r w' bs' cc' (mc_net mp) (map (pb_serialize rs) outs')"
      "So_channel w' r bc' cs' (mc_net mp) (map (pb_serialize rq) qs')"
    using assms(2) by (auto simp: socket_port_def new_connection_def)
  have "So_channel w r' bc' cs' (mc_net mp) (map (pb_serialize rq) qs')"
    "So_channel r' w bs' cc' (mc_net mp) (map (pb_serialize rs) outs')"
    using chans So_channel_socket [OF w' r'(3) [symmetric]] So_channel_socket [OF r'(3) [symmetric] w'] by simp_all
  then show ?thesis
    unfolding socket_port_def using r' assms(3)
    by (intro conjI exI [of _ r']) (simp_all add: new_connection_def socket_at_def network_def same_objects_def)
qed

text \<open>
  Both ends, in the middle of a stream: \<open>qs\<close> is on its way to the service and \<open>outs\<close> to the client, and the
  kernel grants each end what is still to be sent and received, and \<open>bc\<close>, \<open>cc\<close>, \<open>bs\<close> and \<open>cs\<close> bytes more.
\<close>

definition socket_ends :: "'v SidebandWriteRequest codec \<Rightarrow> 'v SidebandReadResponse codec \<Rightarrow> SocketSidebandData \<Rightarrow>
    SocketSidebandData \<Rightarrow> token \<Rightarrow> token \<Rightarrow> 's program \<Rightarrow> 's program \<Rightarrow> nat \<Rightarrow> nat \<Rightarrow> nat \<Rightarrow> nat \<Rightarrow> 's program \<Rightarrow> 's program \<Rightarrow>
    'v SidebandWriteRequest list \<Rightarrow> 'v SidebandReadResponse list \<Rightarrow> 'v SidebandWriteRequest list \<Rightarrow>
    'v SidebandReadResponse list \<Rightarrow> bool" where
  "socket_ends rq rs w r tp t mp0 pg0 bc cc bs cs mp pg qs outs ql rl \<longleftrightarrow> sd_bufferSize w = sd_bufferSize r \<and>
     socket_port rs rq (new_connection w r (frame_cost rs rl + bs) (frame_cost rq (qs @ ql) + cs)) tp mp0
       (frame_cost rq ql + bc) (frame_cost rs (outs @ rl) + cc) mp outs qs \<and>
     socket_port rq rs (new_connection r w (frame_cost rq ql + bc) (frame_cost rs (outs @ rl) + cc)) t pg0
       (frame_cost rs rl + bs) (frame_cost rq (qs @ ql) + cs) pg qs outs"

lemma socket_port_arrived:
  "socket_port rq rs (new_connection r w x y) t pg0 b c pg qs outs \<Longrightarrow>
    list_all (\<lambda>q. message_ok (sd_bufferSize r) (pb_serialize rq q)) qs"
  by (simp add: socket_port_def new_connection_def)

definition socket_closable :: "token \<Rightarrow> string \<Rightarrow> 's program \<Rightarrow> 'r list \<Rightarrow> bool" where
  "socket_closable t ident pg outs \<longleftrightarrow>
     pg_buffers pg ident = Some t \<and> (\<exists>obj. mc_objects pg t = Some obj \<and> UsageId obj = ident)"

definition socket_left_over :: "'r codec \<Rightarrow> int64 \<Rightarrow> token \<Rightarrow> 's program \<Rightarrow> 'r list \<Rightarrow> bool" where
  "socket_left_over rs bsize tp mp outs \<longleftrightarrow> (\<exists>c. socket_inbox rs bsize tp (frame_cost rs outs + c) mp outs)"

lemma closed_left_over:
  assumes "socket_port rs rq (new_connection w r bs cs) tp mp0 bc cc mp outs qs" and "frame_cost rs outs \<le> cc"
    and "last_messages rs w cc outs (mc_net pg)"
  shows "socket_left_over rs (sd_bufferSize w) tp (network pg mp) outs"
proof -
  obtain c where c: "cc = frame_cost rs outs + c" using assms(2) le_Suc_ex by blast
  obtain w' where "socket_at tp w' 0 mp" "sd_bufferSize w' = sd_bufferSize w" "so_socket w' = so_socket w" "codec_ok rs"
    "list_all (\<lambda>r. message_ok (sd_bufferSize w) (pb_serialize rs r)) outs"
    using assms(1) by (auto simp: socket_port_def new_connection_def)
  then have "socket_inbox rs (sd_bufferSize w) tp cc (network pg mp) outs"
    using assms(3) So_arrived_socket [of w' w]
    by (auto simp: socket_inbox_def last_messages_def socket_at_def)
  then show ?thesis using c by (auto simp: socket_left_over_def)
qed

interpretation socket_turns:
  stream_ends lib rq rs tp t ident k "socket_closable t ident pg0" "socket_ends rq rs w r tp t mp0 pg0 bc cc bs cs"
    "socket_left_over rs (sd_bufferSize w) tp" "socket_sendable (sd_bufferSize w) rq" "socket_sendable (sd_bufferSize r) rs"
  for lib :: "'s easyrdma" and rq :: "'v SidebandWriteRequest codec" and rs :: "'v SidebandReadResponse codec"
    and tp t ident k w r mp0 pg0 bc cc bs cs
proof (unfold_locales, goal_cases)
  case (1 mp pg qs outs q ql rl)
  then have client: "socket_port rs rq (new_connection w r (frame_cost rs rl + bs) (frame_cost rq (qs @ q # ql) + cs)) tp mp0
      (length (frame (pb_serialize rq q)) + (frame_cost rq ql + bc)) (frame_cost rs (outs @ rl) + cc) mp outs qs"
    and server: "socket_port rq rs (new_connection r w (frame_cost rq (q # ql) + bc) (frame_cost rs (outs @ rl) + cc)) t pg0
      (frame_cost rs rl + bs) (frame_cost rq (qs @ q # ql) + cs) pg qs outs"
    and size: "sd_bufferSize w = sd_bufferSize r" by (simp_all add: socket_ends_def add.assoc)
  obtain n mp' where wrote: "WriteSidebandMessage lib rq tp q mp = Inr (n, mp')"
    and client': "socket_port rs rq (new_connection w r (frame_cost rs rl + bs) (frame_cost rq (qs @ q # ql) + cs)) tp mp0
      (frame_cost rq ql + bc) (frame_cost rs (outs @ rl) + cc) mp' outs (qs @ [q])"
    using socket_messages.send_law [OF client, of lib] 1(3) by (auto simp: new_connection_def)
  have "list_all (\<lambda>q. message_ok (sd_bufferSize r) (pb_serialize rq q)) (qs @ [q])"
    using socket_port_arrived [OF server] 1(3) size by simp
  from socket_port_network [OF server client' this] show ?case
    using wrote client' size by (simp add: socket_ends_def)
next
  case (2 mp pg qs r' outs ql rl old_r)
  then have client: "socket_port rs rq (new_connection w r (frame_cost rs rl + bs) (frame_cost rq (qs @ ql) + cs)) tp mp0
      (frame_cost rq ql + bc) (length (frame (pb_serialize rs r')) + (frame_cost rs (outs @ rl) + cc)) mp (r' # outs) qs"
    and server: "socket_port rq rs (new_connection r w (frame_cost rq ql + bc) (frame_cost rs (r' # outs @ rl) + cc)) t pg0
      (frame_cost rs rl + bs) (frame_cost rq (qs @ ql) + cs) pg qs (r' # outs)"
    and size: "sd_bufferSize w = sd_bufferSize r" by (simp_all add: socket_ends_def add.assoc)
  obtain mp' where read: "ReadSidebandMessage lib rs tp old_r mp = Inr (True, r', mp')"
    and client': "socket_port rs rq (new_connection w r (frame_cost rs rl + bs) (frame_cost rq (qs @ ql) + cs)) tp mp0
      (frame_cost rq ql + bc) (frame_cost rs (outs @ rl) + cc) mp' outs qs"
    using socket_messages.recv_law [OF client, of lib old_r] by blast
  from socket_port_network [OF server client' socket_port_arrived [OF server]] show ?case
    using read client' size by (simp add: socket_ends_def)
next
  case (3 mp pg q qs outs ql rl old_q)
  then have client: "socket_port rs rq (new_connection w r (frame_cost rs rl + bs) (frame_cost rq (q # qs @ ql) + cs)) tp mp0
      (frame_cost rq ql + bc) (frame_cost rs (outs @ rl) + cc) mp outs (q # qs)"
    and server: "socket_port rq rs (new_connection r w (frame_cost rq ql + bc) (frame_cost rs (outs @ rl) + cc)) t pg0
      (frame_cost rs rl + bs) (length (frame (pb_serialize rq q)) + (frame_cost rq (qs @ ql) + cs)) pg (q # qs) outs"
    and size: "sd_bufferSize w = sd_bufferSize r" by (simp_all add: socket_ends_def add.assoc)
  obtain pg' where read: "ReadSidebandMessage lib rq t old_q pg = Inr (True, q, pg')"
    and server': "socket_port rq rs (new_connection r w (frame_cost rq ql + bc) (frame_cost rs (outs @ rl) + cc)) t pg0
      (frame_cost rs rl + bs) (frame_cost rq (qs @ ql) + cs) pg' qs outs"
    using socket_messages.recv_law [OF server, of lib old_q] by blast
  from socket_port_network [OF client server' socket_port_arrived [OF client]] show ?case
    using read server' size by (simp add: socket_ends_def)
next
  case (4 mp pg qs outs ql r' rl)
  then have client: "socket_port rs rq (new_connection w r (frame_cost rs (r' # rl) + bs) (frame_cost rq (qs @ ql) + cs)) tp mp0
      (frame_cost rq ql + bc) (frame_cost rs (outs @ r' # rl) + cc) mp outs qs"
    and server: "socket_port rq rs (new_connection r w (frame_cost rq ql + bc) (frame_cost rs (outs @ r' # rl) + cc)) t pg0
      (length (frame (pb_serialize rs r')) + (frame_cost rs rl + bs)) (frame_cost rq (qs @ ql) + cs) pg qs outs"
    and size: "sd_bufferSize w = sd_bufferSize r" by (simp_all add: socket_ends_def add.assoc)
  obtain n pg' where wrote: "WriteSidebandMessage lib rs t r' pg = Inr (n, pg')" "n \<noteq> 0"
    and server': "socket_port rq rs (new_connection r w (frame_cost rq ql + bc) (frame_cost rs (outs @ r' # rl) + cc)) t pg0
      (frame_cost rs rl + bs) (frame_cost rq (qs @ ql) + cs) pg' qs (outs @ [r'])"
    using socket_messages.send_law [OF server, of lib] 4(3) by (auto simp: new_connection_def)
  have "list_all (\<lambda>r'. message_ok (sd_bufferSize w) (pb_serialize rs r')) (outs @ [r'])"
    using socket_port_arrived [OF client] 4(3) size by simp
  from socket_port_network [OF client server' this] show ?case
    using wrote server' size by (simp add: socket_ends_def)
next
  case (5 mp pg qs outs ql rl)
  then have client: "socket_port rs rq (new_connection w r (frame_cost rs rl + bs) (frame_cost rq (qs @ ql) + cs)) tp mp0
      (frame_cost rq ql + bc) (frame_cost rs (outs @ rl) + cc) mp outs qs"
    and server: "socket_port rq rs (new_connection r w (frame_cost rq ql + bc) (frame_cost rs (outs @ rl) + cc)) t pg0
      (frame_cost rs rl + bs) (frame_cost rq (qs @ ql) + cs) pg qs outs" by (simp_all add: socket_ends_def)
  from 5(2) obtain obj where obj: "pg_buffers pg0 ident = Some t" "mc_objects pg0 t = Some obj" "UsageId obj = ident"
    by (auto simp: socket_closable_def)
  obtain pg' where "CloseSidebandData lib t pg = Inr (0, pg')" "pg_buffers pg' ident = None" "mc_objects pg' t = None"
    "last_messages rs w (frame_cost rs (outs @ rl) + cc) outs (mc_net pg')"
    using socket_port_close [OF server obj, of lib] by (auto simp: new_connection_def)
  then show ?case using closed_left_over [OF client] by fastforce
next
  case (6 mp r' outs old_r)
  then obtain c where "socket_inbox rs (sd_bufferSize w) tp (length (frame (pb_serialize rs r')) + (frame_cost rs outs + c)) mp (r' # outs)"
    by (auto simp: socket_left_over_def add.assoc)
  from socket_inbox.avail_law [OF this, of lib old_r] show ?case unfolding socket_left_over_def by blast
qed

text \<open>From the beginning, with nothing under way.\<close>

lemma socket_stream_over_turns:
  assumes "socket_port rs rq (new_connection w r (frame_cost rs rl + bs) (frame_cost rq (asks ms) + cs)) tp mp
      (frame_cost rq (asks ms) + bc) (frame_cost rs rl + cc) mp [] []"
    and "socket_port rq rs (new_connection r w (frame_cost rq (asks ms) + bc) (frame_cost rs rl + cc)) t (network mp pg)
      (frame_cost rs rl + bs) (frame_cost rq (asks ms) + cs) (network mp pg) [] []"
    and "sd_bufferSize w = sd_bufferSize r"
    and "pg_buffers pg ident = Some t" and "mc_objects pg t = Some obj" and "UsageId obj = ident"
    and "exchange_steps k (\<lambda>outs. True) fresh readers writers ms (exchange_start st) = Some (rl, result)"
    and "list_all (socket_sendable (sd_bufferSize w) rq) (asks ms)" and "list_all (socket_sendable (sd_bufferSize r) rs) rl"
  shows "case result of
      Inl e \<Rightarrow> stream_steps lib rq rs fresh readers writers tp t ms (stream_start mp pg st) = Inl e
    | Inr a \<Rightarrow> \<exists>s. stream_steps lib rq rs fresh readers writers tp t ms (stream_start mp pg st) = Inr s \<and>
        sm_got s = ex_got a \<and> sm_endpoints s = ex_endpoints a \<and> sm_running s = ex_open a \<and>
        (\<not> ex_open a \<longrightarrow> pg_buffers (sm_server s) ident = None \<and> mc_objects (sm_server s) t = None)"
proof -
  have closable: "socket_closable t ident (network mp pg) = (\<lambda>outs. True)"
    using assms(4-6) by (auto simp: socket_closable_def)
  have run: "exchange_steps k (socket_closable t ident (network mp pg)) fresh readers writers ms (exchange_start st) =
      Some (rl, result)"
    using assms(7) by (simp only: closable)
  have "socket_ends rq rs w r tp t mp (network mp pg) bc cc bs cs mp (network mp pg) [] [] (asks ms) rl"
    using assms(1-3) by (simp add: socket_ends_def)
  from socket_turns.stream_refines [OF this run assms(8,9), of lib] show ?thesis
    by (cases result) (auto simp: follows_def)
qed

section \<open>Properties\<close>

text \<open>
  C4. A stream over a socket from both ends, in every order of the client's calls and the turns of the service in
  which nobody has to wait: each call does what the abstract machine does, with any number of messages under
  way, as long as the kernel moves all their bytes. An endpoint that fails ends the service's thread; after a cancel request
  the connection is closed and off the registry, and what has been sent can still be taken.
\<close>

theorem socket_stream_turns:
  assumes "socket_port rs rq (new_connection w r (frame_cost rs rl + bs) (frame_cost rq (asks ms) + cs)) tp mp
      (frame_cost rq (asks ms) + bc) (frame_cost rs rl + cc) mp [] []"
    and "socket_port rq rs (new_connection r w (frame_cost rq (asks ms) + bc) (frame_cost rs rl + cc)) t (network mp pg)
      (frame_cost rs rl + bs) (frame_cost rq (asks ms) + cs) (network mp pg) [] []"
    and "sd_bufferSize w = sd_bufferSize r"
    and "pg_buffers pg ident = Some t" and "mc_objects pg t = Some obj" and "UsageId obj = ident"
    and "exchange_steps k (\<lambda>outs. True) fresh readers writers ms (exchange_start st) = Some (rl, result)"
    and "list_all (socket_sendable (sd_bufferSize w) rq) (asks ms)" and "list_all (socket_sendable (sd_bufferSize r) rs) rl"
  shows "case result of
      Inl e \<Rightarrow> stream_steps lib rq rs fresh readers writers tp t ms (stream_start mp pg st) = Inl e
    | Inr a \<Rightarrow> \<exists>s. stream_steps lib rq rs fresh readers writers tp t ms (stream_start mp pg st) = Inr s \<and>
        sm_got s = ex_got a \<and> sm_endpoints s = ex_endpoints a \<and> sm_running s = ex_open a \<and>
        (\<not> ex_open a \<longrightarrow> pg_buffers (sm_server s) ident = None \<and> mc_objects (sm_server s) t = None)"
  using assms by (rule socket_stream_over_turns)

text \<open>Two requests while the client takes the responses, the end, and a response that is taken after it.\<close>

definition example_socket_turns :: "byte stream_move list" where
  "example_socket_turns = [Asks \<lparr>sw_cancel = False, sw_values = Some [7]\<rparr>, Serves, Asks \<lparr>sw_cancel = False, sw_values = Some [9]\<rparr>,
     Takes, Serves, Asks \<lparr>sw_cancel = True, sw_values = None\<rparr>, Serves, Takes]"

lemma example_socket_turns_run:
  "exchange_steps 3 (\<lambda>outs. True) 0 [counter] [recorder] example_socket_turns (exchange_start []) =
    Some ([response [1], response [2]], Inr \<lparr>ex_asked = [], ex_sent = [], ex_got = [response [1], response [2]],
      ex_endpoints = [7, 9], ex_open = False\<rparr>)"
  by (simp add: example_socket_turns_def exchange_start_def counter_def recorder_def sent_values_def
      call_endpoint_def element_def responses_def)

lemma example_socket_turns_fit:
  assumes "64 \<le> unat size0"
  shows "list_all (socket_sendable size0 example_requests) (asks example_socket_turns)"
    "list_all (socket_sendable size0 example_responses) [response [1], response [2]]"
  using assms
  by (simp_all add: example_socket_turns_def example_requests_def example_responses_def response_def message_ok_def
      sizeof_int64_def)

lemma example_socket_turns_cost:
  "frame_cost example_requests (asks example_socket_turns) \<le> 50" "frame_cost example_responses [response [1], response [2]] \<le> 50"
  by (simp_all add: example_socket_turns_def example_requests_def example_responses_def response_def sizeof_int64_def)

text \<open>The other end of the connection of \<open>example_stream\<close>, in a process of its own.\<close>

definition example_other_end :: "fifo program" where
  "example_other_end = (example_stream [])\<lparr>mc_objects := [1 \<mapsto> SocketSideband (So_new_accepted 5 64 False)], pg_buffers := Map.empty\<rparr>"

lemma example_other_end_ports:
  "socket_port example_responses example_requests (new_connection (So_new_accepted 5 64 False) ((So_new_accepted 4 64 False)\<lparr>so_id := ''X''\<rparr>) 100 100)
    1 example_other_end 100 100 example_other_end [] []"
  "socket_port example_requests example_responses (new_connection ((So_new_accepted 4 64 False)\<lparr>so_id := ''X''\<rparr>) (So_new_accepted 5 64 False) 100 100)
    1 (network example_other_end (example_stream [])) 100 100 (network example_other_end (example_stream [])) [] []"
proof -
  let ?w = "So_new_accepted 5 64 False" and ?r = "(So_new_accepted 4 64 False)\<lparr>so_id := ''X''\<rparr>"
  have "So_channel ?w ?r 100 100 (mc_net example_other_end) []" "So_channel ?r ?w 100 100 (mc_net example_other_end) []"
    by (simp_all add: So_channel_def connected_def example_other_end_def example_stream_def So_new_accepted_def
        fresh_endpoint_def grants_sends_replicate grants_recvs_transfers)
  then show "socket_port example_responses example_requests (new_connection ?w ?r 100 100) 1 example_other_end 100 100 example_other_end [] []"
    "socket_port example_requests example_responses (new_connection ?r ?w 100 100) 1 (network example_other_end (example_stream []))
      100 100 (network example_other_end (example_stream [])) [] []"
    by (auto intro!: new_port simp: example_requests_ok example_responses_ok)
      (simp_all add: example_other_end_def So_new_accepted_def)
qed

theorem socket_stream_turns_witness:
  "\<exists>s. stream_steps (fifo_lib 64 2) example_requests example_responses 0 [counter] [recorder] 1 1 example_socket_turns
      (stream_start example_other_end (example_stream []) []) = Inr s \<and>
    sm_got s = [response [1], response [2]] \<and> sm_endpoints s = [7, 9] \<and> \<not> sm_running s \<and>
    pg_buffers (sm_server s) ''X'' = None \<and> mc_objects (sm_server s) 1 = None"
proof -
  let ?w = "So_new_accepted 5 64 False" and ?r = "(So_new_accepted 4 64 False)\<lparr>so_id := ''X''\<rparr>"
  let ?cq = "frame_cost example_requests (asks example_socket_turns)" and ?cr = "frame_cost example_responses [response [1], response [2]]"
  have "?cq \<le> 100" "?cr \<le> 100" using example_socket_turns_cost by linarith+
  then obtain x y where b: "100 = ?cq + x" "100 = ?cr + y" using le_Suc_ex by blast
  have ports: "socket_port example_responses example_requests (new_connection ?w ?r (?cr + y) (?cq + x)) 1 example_other_end
      (?cq + x) (?cr + y) example_other_end [] []"
    "socket_port example_requests example_responses (new_connection ?r ?w (?cq + x) (?cr + y)) 1
      (network example_other_end (example_stream [])) (?cr + y) (?cq + x) (network example_other_end (example_stream [])) [] []"
    using example_other_end_ports by (simp_all only: b [symmetric])
  have size: "sd_bufferSize ?w = 64" "sd_bufferSize ?r = 64" by (simp_all add: So_new_accepted_def)
  have "case Inr \<lparr>ex_asked = [], ex_sent = [], ex_got = [response [1], response [2]], ex_endpoints = [7, 9], ex_open = False\<rparr> of
      Inl e \<Rightarrow> stream_steps (fifo_lib 64 2) example_requests example_responses 0 [counter] [recorder] 1 1 example_socket_turns
        (stream_start example_other_end (example_stream []) []) = Inl e
    | Inr a \<Rightarrow> \<exists>s. stream_steps (fifo_lib 64 2) example_requests example_responses 0 [counter] [recorder] 1 1 example_socket_turns
        (stream_start example_other_end (example_stream []) []) = Inr s \<and>
        sm_got s = ex_got a \<and> sm_endpoints s = ex_endpoints a \<and> sm_running s = ex_open a \<and>
        (\<not> ex_open a \<longrightarrow> pg_buffers (sm_server s) ''X'' = None \<and> mc_objects (sm_server s) 1 = None)"
    by (rule socket_stream_turns [OF ports _ _ _ _ example_socket_turns_run])
      (use example_socket_turns_fit [of 64] in \<open>simp_all only: size example_stream_object UsageId_def So_UsageId_def sideband.case\<close>, simp_all)
  then show ?thesis by auto
qed

text \<open>
  C1. A session with an initial write, over sockets, in which the client and the service work at the same time:
  \<open>BeginSidebandStream\<close> answers and queues the connection; with the answer alone
  \<open>InitMonikerSidebandData\<close> gives the client a token, and the server accepts and registers the connection,
  so that the thread finds it; then, in every order in which nobody has to wait, the endpoints are called as the
  reference function calls them for the first requests, and the client takes its responses in order, also after a cancel
  request, when the connection is closed and off the registry.
\<close>

theorem moniker_session_turns:
  assumes strategy: "bq_strategy request = SOCKETS \<or> bq_strategy request = SOCKETS_LOW_LATENCY"
    and ident: "NextConnectionId (pg_nextId s) = Inr (ident, i)" "length ident = ConnectIdLength"
    and url: "GetConnectionAddress (pg_config s) (pg_interfaces s) (bq_strategy request) = Inr url"
      "SplitUrlString url = [a, p]"
    and server: "server_ready s" "pg_buffers s ident = None"
    and client: "client_can_reach a p b c" "pg_buffers c ident = None"
    and endpoints: "get_endpoints this sv = Inr endpoints"
      "InitiateMonikerList endpoints (bq_monikers request) = (readers, writers)"
      "ml_is_initial_write (bq_monikers request)"
    and codecs: "codec_ok rq" "codec_ok rs"
    and requests: "list_all (socket_sendable 1048576 rq) (asks ms)" "frame_cost rq (asks ms) \<le> b"
    and run: "exchange_steps k (\<lambda>outs. True) fresh readers writers ms (exchange_start st) = Some (rl, Inr ex)"
    and answers: "list_all (socket_sendable 1048576 rs) rl" "frame_cost rs rl \<le> b"
  shows "\<exists>resp th s1 tc c1 s2 ts s' n outs.
    BeginSidebandStream lib this request sv s = Inr (resp, th, s1) \<and> th_initialClientWrite th \<and>
    InitMonikerSidebandData lib resp c = Inr (tc, c1) \<and>
    accept_loop sockfd (Readable # evs) (s1\<lparr>mc_net := mc_net c1\<rparr>) = accept_loop sockfd evs s2 \<and>
    GetOwnerSidebandDataToken (th_identifier th) s2 = Inr (0, ts) \<and>
    stream_steps lib rq rs fresh (th_readers th) (th_writers th) tc ts ms (stream_start (c1\<lparr>mc_net := mc_net s2\<rparr>) s2 st) = Inr s' \<and>
    serve fresh readers writers (map sent_values (take n (asks ms))) st = (outs, Inr (sm_endpoints s')) \<and>
    list_all (\<lambda>q. \<not> sw_cancel q) (take n (asks ms)) \<and>
    sm_got s' @ ex_sent ex = responses readers outs \<and> sm_running s' = ex_open ex \<and>
    (\<not> ex_open ex \<longrightarrow> pg_buffers (sm_server s') ident = None \<and> mc_objects (sm_server s') ts = None)"
proof (rule session_connected [OF strategy ident url server client endpoints(1,2), of lib sockfd evs], goal_cases)
  case (1 resp s1 tc c1 s2 ts w r)
  let ?c1 = "c1\<lparr>mc_net := mc_net s2\<rparr>"
  let ?s2 = "network ?c1 s2"
  obtain b1 b2 where b: "b = frame_cost rq (asks ms) + b1" "b = frame_cost rs rl + b2"
    using requests(2) answers(2) le_Suc_ex by metis
  have ports: "socket_port rs rq (new_connection w r b b) tc ?c1 b b ?c1 [] []"
    "socket_port rq rs (new_connection r w b b) ts ?s2 b b ?s2 [] []"
    by (rule new_port; use 1(4-15) codecs in simp)+
  have "case Inr ex of
      Inl e \<Rightarrow> stream_steps lib rq rs fresh readers writers tc ts ms (stream_start ?c1 s2 st) = Inl e
    | Inr a \<Rightarrow> \<exists>s. stream_steps lib rq rs fresh readers writers tc ts ms (stream_start ?c1 s2 st) = Inr s \<and>
        sm_got s = ex_got a \<and> sm_endpoints s = ex_endpoints a \<and> sm_running s = ex_open a \<and>
        (\<not> ex_open a \<longrightarrow> pg_buffers (sm_server s) ident = None \<and> mc_objects (sm_server s) ts = None)"
    by (rule socket_stream_over_turns [where bc = b1 and cc = b2 and bs = b2 and cs = b1 and rl = rl and w = w and r = r
          and obj = "SocketSideband r" and k = k])
      (use ports 1(7,9) run requests(1) answers(1) 1(12,13) in
        \<open>simp_all only: b(1) [symmetric] b(2) [symmetric] UsageId_def So_UsageId_def 1(8) sideband.case\<close>)
  then obtain s' where "stream_steps lib rq rs fresh readers writers tc ts ms (stream_start ?c1 s2 st) = Inr s'"
    "sm_got s' = ex_got ex" "sm_endpoints s' = ex_endpoints ex" "sm_running s' = ex_open ex"
    "\<not> ex_open ex \<longrightarrow> pg_buffers (sm_server s') ident = None \<and> mc_objects (sm_server s') ts = None" by auto
  moreover obtain n outs where "serve fresh readers writers (map sent_values (take n (asks ms))) st = (outs, Inr (ex_endpoints ex))"
    "list_all (\<lambda>q. \<not> sw_cancel q) (take n (asks ms))" "ex_got ex @ ex_sent ex = responses readers outs"
    using exchange_start_serves [OF run] by metis
  moreover have "GetOwnerSidebandDataToken ident s2 = Inr (0, ts)" using 1(9) by (simp add: GetOwnerSidebandDataToken_def)
  ultimately show ?case using 1(1-3) endpoints(3) by (auto intro!: exI)
qed

theorem moniker_session_turns_witness:
  "\<exists>resp th s1 tc c1 s2 ts s'.
    BeginSidebandStream (fifo_lib 64 2) 8 example_request example_service example_server = Inr (resp, th, s1) \<and>
    InitMonikerSidebandData (fifo_lib 64 2) resp example_client = Inr (tc, c1) \<and>
    accept_loop 3 (Readable # [StopFlag]) (s1\<lparr>mc_net := mc_net c1\<rparr>) = accept_loop 3 [StopFlag] s2 \<and>
    GetOwnerSidebandDataToken (th_identifier th) s2 = Inr (0, ts) \<and>
    stream_steps (fifo_lib 64 2) example_requests example_responses 0 (th_readers th) (th_writers th) tc ts example_socket_turns
      (stream_start (c1\<lparr>mc_net := mc_net s2\<rparr>) s2 []) = Inr s' \<and> \<not> sm_running s' \<and>
    pg_buffers (sm_server s') ''ID:         2'' = None"
proof -
  obtain resp th s1 tc c1 s2 ts s' where
    "BeginSidebandStream (fifo_lib 64 2) 8 example_request example_service example_server = Inr (resp, th, s1)"
    "InitMonikerSidebandData (fifo_lib 64 2) resp example_client = Inr (tc, c1)"
    "accept_loop 3 (Readable # [StopFlag]) (s1\<lparr>mc_net := mc_net c1\<rparr>) = accept_loop 3 [StopFlag] s2"
    "GetOwnerSidebandDataToken (th_identifier th) s2 = Inr (0, ts)"
    "stream_steps (fifo_lib 64 2) example_requests example_responses 0 (th_readers th) (th_writers th) tc ts example_socket_turns
      (stream_start (c1\<lparr>mc_net := mc_net s2\<rparr>) s2 []) = Inr s'" "\<not> sm_running s'"
    "pg_buffers (sm_server s') ''ID:         2'' = None"
    using moniker_session_turns [where b = 50 and lib = "fifo_lib 64 2" and sockfd = 3 and evs = "[StopFlag]",
        OF _ example_identifier _ example_url example_session(1,3) _ example_session(2) _ example_endpoints example_session(4) _
          example_requests_ok example_responses_ok _ example_socket_turns_cost(1) example_socket_turns_run _
          example_socket_turns_cost(2)] example_socket_turns_fit [of 1048576]
    by (simp add: example_server_def example_client_def example_program_def example_request_def example_list_def
        ConnectIdLength_eq del: frame_def) blast
  then show ?thesis by blast
qed

end
