(* ===== verification/RdmaMessages.thy ===== *)
theory RdmaMessages
  imports MonikerLoop
begin

text \<open>
  Messages of \<^verbatim>\<open>src/sideband_grpc.h\<close> over an RDMA connection: serialised directly into a buffer of the
  library on one side and parsed directly from one on the other.
\<close>

section \<open>What a message leaves alone\<close>

lemma acquire_received_frame:
  assumes "acquire_received lib rx rb rd = Some y"
  shows "keeps_link lib rx lv \<longrightarrow> (\<forall>e rb' rd'. y = Inr (e, rb', rd') \<longrightarrow> lv (rd_lib rd') = lv (rd_lib rd))"
proof (rule acquire_received.raw_induct [where P = "\<lambda>lib rx rb rd y. keeps_link lib rx lv \<longrightarrow>
    (\<forall>e rb' rd'. y = Inr (e, rb', rd') \<longrightarrow> lv (rd_lib rd') = lv (rd_lib rd))", OF _ assms])
  fix acquire :: "'a easyrdma \<Rightarrow> session \<Rightarrow> region option \<Rightarrow> 'a rdma \<Rightarrow>
    (stop + (int32 \<times> region option \<times> 'a rdma)) option"
  fix lib rx rb rd y
  assume IH: "\<And>lib rx rb rd y. acquire lib rx rb rd = Some y \<Longrightarrow> keeps_link lib rx lv \<longrightarrow>
      (\<forall>e rb' rd'. y = Inr (e, rb', rd') \<longrightarrow> lv (rd_lib rd') = lv (rd_lib rd))"
    and run: "(case er_AcquireReceivedRegion lib rx timeoutMs rb rd of Inl e \<Rightarrow> Some (Inl e)
      | Inr (result, buffer, rd) \<Rightarrow>
          if result = er_Error_Timeout lib then acquire lib rx buffer rd
          else Some (Inr (result, buffer, rd))) = Some y"
  show "keeps_link lib rx lv \<longrightarrow> (\<forall>e rb' rd'. y = Inr (e, rb', rd') \<longrightarrow> lv (rd_lib rd') = lv (rd_lib rd))"
  proof
    assume keeps: "keeps_link lib rx lv"
    show "\<forall>e rb' rd'. y = Inr (e, rb', rd') \<longrightarrow> lv (rd_lib rd') = lv (rd_lib rd)"
    proof (cases "er_AcquireReceivedRegion lib rx timeoutMs rb rd")
      case (Inl e)
      then show ?thesis using run by auto
    next
      case (Inr z)
      obtain result rb1 rd1 where z: "z = (result, rb1, rd1)" by (cases z)
      have "lv (rd_lib rd1) = lv (rd_lib rd)" using keeps Inr z unfolding keeps_link_def by blast
      then show ?thesis using run keeps Inr z IH [of lib rx rb1 rd1 y] by (auto split: if_splits)
    qed
  qed
qed

lemma acquire_received_keeps:
  "acquire_received lib rx rb rd = Some (Inr (e, rb', rd')) \<Longrightarrow> keeps_link lib rx lv \<Longrightarrow> lv (rd_lib rd') = lv (rd_lib rd)"
  using acquire_received_frame by blast

lemma region_write_keeps: "region_write rg off bytes rd = Inr rd' \<Longrightarrow> rd_lib rd' = rd_lib rd"
  by (auto simp: region_write_def andThen_eq_Inr_iff split: if_splits option.splits)

lemma Imp_keeps_link:
  "keeps_link lib (im_connectedWriteSession this) lv \<Longrightarrow> Imp_BeginDirectWrite lib this rd = Inr (p, this', rd') \<Longrightarrow>
    lv (rd_lib rd') = lv (rd_lib rd)"
  "keeps_link lib (im_connectedWriteSession this) lv \<Longrightarrow> Imp_FinishDirectWrite lib this n rd = Inr (ok, this', rd') \<Longrightarrow>
    lv (rd_lib rd') = lv (rd_lib rd)"
  "keeps_link lib (im_connectedReadSession this) lv \<Longrightarrow>
    Imp_BeginDirectReadLengthPrefixed lib this n rd = Inr (p, n', this', rd') \<Longrightarrow> lv (rd_lib rd') = lv (rd_lib rd)"
  "keeps_link lib (im_connectedReadSession this) lv \<Longrightarrow> Imp_FinishDirectRead lib this rd = Inr (ok, this', rd') \<Longrightarrow>
    lv (rd_lib rd') = lv (rd_lib rd)"
proof -
  show "keeps_link lib (im_connectedWriteSession this) lv \<Longrightarrow> Imp_BeginDirectWrite lib this rd = Inr (p, this', rd') \<Longrightarrow>
      lv (rd_lib rd') = lv (rd_lib rd)"
    by (auto simp: Imp_BeginDirectWrite_def andThen_eq_Inr_iff keeps_link_def split: option.splits)
  show "keeps_link lib (im_connectedWriteSession this) lv \<Longrightarrow> Imp_FinishDirectWrite lib this n rd = Inr (ok, this', rd') \<Longrightarrow>
      lv (rd_lib rd') = lv (rd_lib rd)"
    by (fastforce simp: Imp_FinishDirectWrite_def Imp_queue_write_def set_usedSize_def andThen_eq_Inr_iff keeps_link_def
        dest: region_write_keeps)
  show "keeps_link lib (im_connectedReadSession this) lv \<Longrightarrow>
      Imp_BeginDirectReadLengthPrefixed lib this n rd = Inr (p, n', this', rd') \<Longrightarrow> lv (rd_lib rd') = lv (rd_lib rd)"
    by (auto simp: Imp_BeginDirectReadLengthPrefixed_def Imp_Read_def andThen_eq_Inr_iff Let_def
        dest: acquire_received_keeps [where lv = lv] split: option.splits if_splits)
  show "keeps_link lib (im_connectedReadSession this) lv \<Longrightarrow> Imp_FinishDirectRead lib this rd = Inr (ok, this', rd') \<Longrightarrow>
      lv (rd_lib rd') = lv (rd_lib rd)"
    by (auto simp: Imp_FinishDirectRead_def andThen_eq_Inr_iff keeps_link_def)
qed

lemma Imp_BeginDirectWrite_sessions: "Imp_BeginDirectWrite lib this rd = Inr (p, this', rd') \<Longrightarrow> same_sessions this' this"
  by (auto simp: Imp_BeginDirectWrite_def andThen_eq_Inr_iff same_sessions_def split: option.splits)

lemma direct_fill_keeps: "direct_fill p bytes rd = Inr rd' \<Longrightarrow> rd_lib rd' = rd_lib rd"
  by (auto simp: direct_fill_def dest: region_write_keeps)

section \<open>One message\<close>

lemma direct_fill_nil: "direct_fill p [] rd = Inr rd' \<Longrightarrow> rd' = rd"
  by (auto simp: direct_fill_def region_write_def buf_write_def mem_write_def andThen_eq_Inr_iff map_upd_triv
      split: if_splits option.splits)

lemma pointer_write_region:
  assumes "direct_fill p bs (mc_rdma mc) = Inr rd"
  shows "pointer_write (InRegion p) bs mc = Inr (mc\<lparr>mc_rdma := rd\<rparr>)"
  using assms direct_fill_nil [of p "mc_rdma mc" rd] by (cases "bs = []") (simp_all add: pointer_write_def)

definition rdma_at :: "token \<Rightarrow> RdmaSidebandData \<Rightarrow> ('s, 'a) machine_scheme \<Rightarrow> bool" where
  "rdma_at t this mc \<longleftrightarrow> t \<noteq> 0 \<and> mc_objects mc t = Some (RdmaSideband this)"

lemma direct_rdma: "rdma_at t this mc \<Longrightarrow> SidebandData_SupportsDirectReadWrite t mc = Inr 1"
  by (simp add: rdma_at_def SidebandData_SupportsDirectReadWrite_def deref_def Sideband_SupportsDirectReadWrite_def
      Imp_SupportsDirectReadWrite_def)

text \<open>The machine after a message: the object keeps its identifier and sessions.\<close>

definition after_rdma :: "token \<Rightarrow> RdmaSidebandData \<Rightarrow> RdmaSidebandDataImp \<Rightarrow> 's rdma \<Rightarrow>
    ('s, 'a) machine_scheme \<Rightarrow> ('s, 'a) machine_scheme" where
  "after_rdma t this imp rd mc =
     mc\<lparr>mc_rdma := rd, mc_objects := (mc_objects mc)(t \<mapsto> RdmaSideband (this\<lparr>rs_imp := imp\<rparr>))\<rparr>"

lemma after_rdma_simps [simp]:
  "mc_rdma (after_rdma t this imp rd mc) = rd"
  "rdma_at t this' (after_rdma t this imp rd mc) \<longleftrightarrow> t \<noteq> 0 \<and> this' = this\<lparr>rs_imp := imp\<rparr>"
  by (auto simp: after_rdma_def rdma_at_def)

lemma rdma_at_nonzero: "rdma_at t this mc \<Longrightarrow> t \<noteq> 0"
  by (simp add: rdma_at_def)

lemma same_objects_after_rdma: "rdma_at t this mc \<Longrightarrow> same_objects mc (after_rdma t this imp rd mc)"
  by (auto simp: same_objects_def rdma_at_def after_rdma_def UsageId_def Rdma_UsageId_def)

lemma WriteSidebandMessage_rdma:
  assumes link: "easyrdma_link lib tx rx timeoutMs cap bufs lv" and at: "rdma_at t w mc"
    and tx: "im_connectedWriteSession (rs_imp w) = tx" and now: "link_now lv (mc_rdma mc) = (q, Suc c, h)"
    and fits: "length (frame (pb_serialize pb m)) \<le> cap" "cap < 2 ^ 63" "length (pb_serialize pb m) < 2 ^ 31"
  shows "\<exists>imp rd. WriteSidebandMessage lib pb t m mc =
      Inr (of_nat (length (pb_serialize pb m)), after_rdma t w imp rd mc) \<and>
    same_sessions imp (rs_imp w) \<and> link_now lv rd = (q @ [frame (pb_serialize pb m)], c, h) \<and>
    (\<forall>lw. keeps_link lib tx lw \<longrightarrow> lw (rd_lib rd) = lw (rd_lib (mc_rdma mc)))"
proof -
  let ?bs = "pb_serialize pb m"
  obtain p i1 rd1 rd2 i2 rd3 where begin_write: "Imp_BeginDirectWrite lib (rs_imp w) (mc_rdma mc) = Inr (p, i1, rd1)" "p \<noteq> (0, 0)"
    and fill: "direct_fill p ?bs rd1 = Inr rd2"
    and finish: "Imp_FinishDirectWrite lib i1 (of_nat (length ?bs)) rd2 = Inr (True, i2, rd3)"
    and same: "same_sessions i2 (rs_imp w)" and now': "link_now lv rd3 = (q @ [frame ?bs], c, h)"
    using Imp_direct_write_total [OF link tx now fits(1,2)] by blast
  let ?mc1 = "mc\<lparr>mc_rdma := rd1, mc_objects := (mc_objects mc)(t \<mapsto> RdmaSideband (w\<lparr>rs_imp := i1\<rparr>))\<rparr>"
  let ?mc3 = "mc\<lparr>mc_rdma := rd3, mc_objects := (mc_objects mc)(t \<mapsto> RdmaSideband (w\<lparr>rs_imp := i2\<rparr>))\<rparr>"
  have 1: "SidebandData_BeginDirectWrite lib t mc = Inr (0, InRegion p, ?mc1)"
    using at begin_write
    by (simp add: rdma_at_def SidebandData_BeginDirectWrite_def pointer_status_def call_def deref_def
        Sideband_BeginDirectWrite_def Rdma_BeginDirectWrite_def Rdma_lift_def in_rdma_def region_pointer_def)
  have "pointer_write (InRegion p) ?bs ?mc1 = Inr (?mc1\<lparr>mc_rdma := rd2\<rparr>)"
    by (rule pointer_write_region) (simp add: fill)
  then have 2: "SerializeToArray pb m (InRegion p) (of_nat (length ?bs)) ?mc1 = Inr (?mc1\<lparr>mc_rdma := rd2\<rparr>)"
    using int32_of_length(1) [OF fits(3)] by (simp add: SerializeToArray_def)
  have 3: "SidebandData_FinishDirectWrite lib t (of_nat (length ?bs)) (?mc1\<lparr>mc_rdma := rd2\<rparr>) = Inr (0, ?mc3)"
    using at finish
    by (simp add: rdma_at_def SidebandData_FinishDirectWrite_def status_def call_def deref_def
        Sideband_FinishDirectWrite_def Rdma_FinishDirectWrite_def Rdma_lift_def in_rdma_def)
  have "WriteSidebandMessage lib pb t m mc = Inr (of_nat (length ?bs), ?mc3)"
    using direct_rdma [OF at] 1 2 3 by (simp add: WriteSidebandMessage_def Let_def)
  moreover have "lw (rd_lib rd3) = lw (rd_lib (mc_rdma mc))" if "keeps_link lib tx lw" for lw
    using that tx Imp_keeps_link(1) [where lv = lw, OF _ begin_write(1)] direct_fill_keeps [OF fill] Imp_keeps_link(2) [where lv = lw, OF _ finish]
      Imp_BeginDirectWrite_sessions [OF begin_write(1)] by (simp add: same_sessions_def)
  ultimately show ?thesis using same now' by (intro exI [of _ i2] exI [of _ rd3]) (simp add: after_rdma_def)
qed

lemma ReadSidebandMessage_rdma:
  assumes link: "easyrdma_link lib tx rx timeoutMs cap bufs lv" and at: "rdma_at t r mc"
    and rx: "im_connectedReadSession (rs_imp r) = rx" and now: "link_now lv (mc_rdma mc) = (frame (pb_serialize pb m) # q, c, h)"
    and fits: "length (frame (pb_serialize pb m)) \<le> cap" "cap < 2 ^ 63" "h < bufs" "length (pb_serialize pb m) < 2 ^ 31"
    and codec: "codec_ok pb"
  shows "\<exists>imp rd. ReadSidebandMessage lib pb t old mc = Inr (True, m, after_rdma t r imp rd mc) \<and>
    same_sessions imp (rs_imp r) \<and> link_now lv rd = (q, Suc c, h) \<and>
    (\<forall>lw. keeps_link lib rx lw \<longrightarrow> lw (rd_lib rd) = lw (rd_lib (mc_rdma mc)))"
proof -
  let ?bs = "pb_serialize pb m"
  obtain p i1 rd1 rg where begin_read: "Imp_BeginDirectReadLengthPrefixed lib (rs_imp r) 0 (mc_rdma mc) = Inr (p, of_nat (length ?bs), i1, rd1)"
    "p \<noteq> (0, 0)" and view: "direct_view p (of_nat (length ?bs)) rd1 = Inr ?bs" and same1: "same_sessions i1 (rs_imp r)"
    and now1: "link_now lv rd1 = (q, c, Suc h)" and held: "im_readBuffer i1 = Some rg"
    using Imp_BeginDirectReadLengthPrefixed_total [OF link rx now fits(1-3), of 0] by blast
  have rx1: "im_connectedReadSession i1 = rx" using same1 rx by (simp add: same_sessions_def)
  obtain i2 rd2 where finish: "Imp_FinishDirectRead lib i1 rd1 = Inr (True, i2, rd2)" and same2: "same_sessions i2 i1"
    and now2: "link_now lv rd2 = (q, Suc c, h)"
    using Imp_FinishDirectRead_total [OF link rx1 now1 held] by blast
  let ?mc1 = "mc\<lparr>mc_rdma := rd1, mc_objects := (mc_objects mc)(t \<mapsto> RdmaSideband (r\<lparr>rs_imp := i1\<rparr>))\<rparr>"
  let ?mc2 = "mc\<lparr>mc_rdma := rd2, mc_objects := (mc_objects mc)(t \<mapsto> RdmaSideband (r\<lparr>rs_imp := i2\<rparr>))\<rparr>"
  have 1: "SidebandData_BeginDirectReadLengthPrefixed lib t 0 mc = Inr (0, InRegion p, of_nat (length ?bs), ?mc1)"
    using at begin_read
    by (simp add: rdma_at_def SidebandData_BeginDirectReadLengthPrefixed_def call_def deref_def
        Sideband_BeginDirectReadLengthPrefixed_def Rdma_BeginDirectReadLengthPrefixed_def in_rdma_def region_pointer_def)
  have "pointer_read (InRegion p) (length ?bs) ?mc1 = Inr ?bs" using view by (simp add: pointer_read_def)
  then have 2: "ParseFromArray pb (InRegion p) (of_nat (length ?bs)) old ?mc1 = Inr (True, m)"
    using int32_of_length(2) [OF fits(4)] codec by (simp add: ParseFromArray_def codec_ok_def)
  have 3: "SidebandData_FinishDirectRead lib t ?mc1 = Inr (0, ?mc2)"
    using at finish
    by (simp add: rdma_at_def SidebandData_FinishDirectRead_def status_def call_def deref_def
        Sideband_FinishDirectRead_def Rdma_FinishDirectRead_def Rdma_lift_def in_rdma_def)
  have "ReadSidebandMessage lib pb t old mc = Inr (True, m, ?mc2)"
    using direct_rdma [OF at] 1 2 3 by (simp add: ReadSidebandMessage_def)
  moreover have "same_sessions i2 (rs_imp r)" using same1 same2 by (simp add: same_sessions_def)
  moreover have "lw (rd_lib rd2) = lw (rd_lib (mc_rdma mc))" if "keeps_link lib rx lw" for lw
    using that rx rx1 Imp_keeps_link(3) [where lv = lw, OF _ begin_read(1)] Imp_keeps_link(4) [where lv = lw, OF _ finish] by simp
  ultimately show ?thesis using now2 by (intro exI [of _ i2] exI [of _ rd2]) (simp add: after_rdma_def)
qed

section \<open>Many messages\<close>

definition rdma_message_ok :: "nat \<Rightarrow> byte list \<Rightarrow> bool" where
  "rdma_message_ok cap bs \<longleftrightarrow> length (frame bs) \<le> cap \<and> length bs < 2 ^ 31"

text \<open>The sending end: as many messages as the library has credits; the receiving end: what is queued.\<close>

definition rdma_room :: "'s easyrdma \<Rightarrow> 'm codec \<Rightarrow> session \<Rightarrow> session \<Rightarrow> nat \<Rightarrow> nat \<Rightarrow> ('s \<Rightarrow> link) \<Rightarrow> token \<Rightarrow> nat \<Rightarrow>
    ('s, 'a) machine_scheme \<Rightarrow> 'm list \<Rightarrow> bool" where
  "rdma_room lib pb tx rx cap bufs lv t b pg ms \<longleftrightarrow>
     easyrdma_link lib tx rx timeoutMs cap bufs lv \<and> cap < 2 ^ 63 \<and>
     (\<exists>w. rdma_at t w pg \<and> im_connectedWriteSession (rs_imp w) = tx) \<and>
     link_now lv (mc_rdma pg) = (map (\<lambda>m. frame (pb_serialize pb m)) ms, b, 0)"

definition rdma_inbox :: "'s easyrdma \<Rightarrow> 'm codec \<Rightarrow> session \<Rightarrow> session \<Rightarrow> nat \<Rightarrow> nat \<Rightarrow> ('s \<Rightarrow> link) \<Rightarrow> token \<Rightarrow> nat \<Rightarrow>
    ('s, 'a) machine_scheme \<Rightarrow> 'm list \<Rightarrow> bool" where
  "rdma_inbox lib pb tx rx cap bufs lv t b pg ms \<longleftrightarrow>
     easyrdma_link lib tx rx timeoutMs cap bufs lv \<and> cap < 2 ^ 63 \<and> 0 < bufs \<and> codec_ok pb \<and>
     list_all (\<lambda>m. rdma_message_ok cap (pb_serialize pb m)) ms \<and>
     (\<exists>r. rdma_at t r pg \<and> im_connectedReadSession (rs_imp r) = rx) \<and>
     (\<exists>c. link_now lv (mc_rdma pg) = (map (\<lambda>m. frame (pb_serialize pb m)) ms, c, 0))"

interpretation rdma_sink:
  message_sink "WriteSidebandMessage lib pb t" "rdma_room lib pb tx rx cap bufs lv t" "\<lambda>m. 1"
    "\<lambda>m. rdma_message_ok cap (pb_serialize pb m)"
  for lib :: "'s easyrdma" and pb :: "'m codec" and t tx rx cap bufs lv
proof unfold_locales
  fix m b and pg :: "('s, 'a) machine_scheme" and ms :: "'m list"
  assume room: "rdma_room lib pb tx rx cap bufs lv t (1 + b) pg ms" and fits: "rdma_message_ok cap (pb_serialize pb m)"
  then obtain w where link: "easyrdma_link lib tx rx timeoutMs cap bufs lv" and w: "rdma_at t w pg"
    "im_connectedWriteSession (rs_imp w) = tx" and cap: "cap < 2 ^ 63"
    and now: "link_now lv (mc_rdma pg) = (map (\<lambda>m. frame (pb_serialize pb m)) ms, Suc b, 0)"
    by (auto simp: rdma_room_def)
  from WriteSidebandMessage_rdma [where pb = pb and m = m, OF link w now] cap fits obtain imp rd where
    "WriteSidebandMessage lib pb t m pg = Inr (of_nat (length (pb_serialize pb m)), after_rdma t w imp rd pg)"
    "same_sessions imp (rs_imp w)"
    "link_now lv rd = (map (\<lambda>m. frame (pb_serialize pb m)) ms @ [frame (pb_serialize pb m)], b, 0)"
    by (auto simp: rdma_message_ok_def)
  then show "\<exists>n p'. WriteSidebandMessage lib pb t m pg = Inr (n, p') \<and> rdma_room lib pb tx rx cap bufs lv t b p' (ms @ [m])"
    using link w cap by (auto simp: rdma_room_def same_sessions_def dest: rdma_at_nonzero)
qed

interpretation rdma_inbox:
  message_source "ReadSidebandMessage lib pb t" "rdma_inbox lib pb tx rx cap bufs lv t" "\<lambda>m. 0"
  for lib :: "'s easyrdma" and pb :: "'m codec" and t tx rx cap bufs lv
proof unfold_locales
  fix m b old and pg :: "('s, 'a) machine_scheme" and ms :: "'m list"
  assume "rdma_inbox lib pb tx rx cap bufs lv t (0 + b) pg (m # ms)"
  then obtain r c where link: "easyrdma_link lib tx rx timeoutMs cap bufs lv" and r: "rdma_at t r pg"
    "im_connectedReadSession (rs_imp r) = rx" and cap: "cap < 2 ^ 63" "0 < bufs" and codec: "codec_ok pb"
    and fits: "rdma_message_ok cap (pb_serialize pb m)" "list_all (\<lambda>m. rdma_message_ok cap (pb_serialize pb m)) ms"
    and now: "link_now lv (mc_rdma pg) = (frame (pb_serialize pb m) # map (\<lambda>m. frame (pb_serialize pb m)) ms, c, 0)"
    by (auto simp: rdma_inbox_def)
  from ReadSidebandMessage_rdma [OF link r now _ cap(1,2) _ codec, of old] fits(1) obtain imp rd where
    "ReadSidebandMessage lib pb t old pg = Inr (True, m, after_rdma t r imp rd pg)" "same_sessions imp (rs_imp r)"
    "link_now lv rd = (map (\<lambda>m. frame (pb_serialize pb m)) ms, Suc c, 0)"
    by (auto simp: rdma_message_ok_def)
  then show "\<exists>p'. ReadSidebandMessage lib pb t old pg = Inr (True, m, p') \<and> rdma_inbox lib pb tx rx cap bufs lv t b p' ms"
    using link r cap codec fits(2) by (auto simp: rdma_inbox_def same_sessions_def dest: rdma_at_nonzero)
qed

section \<open>Property\<close>

text \<open>
  C16. Messages written on one end of an RDMA connection are read as the same messages and in the same
  order on the other end, in another process that shares the library's state, if each fits a buffer
  with its prefix and there are credits for all of them.
\<close>

theorem rdma_sideband_messages:
  assumes "easyrdma_link lib (im_connectedWriteSession (rs_imp w)) (im_connectedReadSession (rs_imp r)) timeoutMs cap bufs lv"
    and "cap < 2 ^ 63" and "0 < bufs" and "codec_ok pb"
    and "rdma_at tw w mw" and "rdma_at tr r mr" and "link_now lv (mc_rdma mw) = ([], credits, 0)"
    and "length ms \<le> credits" and "list_all (\<lambda>m. rdma_message_ok cap (pb_serialize pb m)) ms"
  shows "\<exists>mw' mr'. write_messages (WriteSidebandMessage lib pb tw) ms mw = Inr mw' \<and>
    read_messages (ReadSidebandMessage lib pb tr) old (length ms) (mr\<lparr>mc_rdma := mc_rdma mw'\<rparr>) = Inr (ms, mr')"
proof -
  let ?tx = "im_connectedWriteSession (rs_imp w)" and ?rx = "im_connectedReadSession (rs_imp r)"
  obtain b where b: "credits = length ms + b" using assms(8) le_Suc_ex by blast
  have n: "sum_list (map (\<lambda>m. 1) ms) = length ms" by (induction ms) simp_all
  have "rdma_room lib pb ?tx ?rx cap bufs lv tw (sum_list (map (\<lambda>m. 1) ms) + b) mw []"
    unfolding n using assms(1,2,5,7) b by (auto simp: rdma_room_def)
  from rdma_sink.write_all [OF this assms(9)] obtain mw' where
    wrote: "write_messages (WriteSidebandMessage lib pb tw) ms mw = Inr mw'"
    and room: "rdma_room lib pb ?tx ?rx cap bufs lv tw b mw' ms"
    by auto
  have "rdma_inbox lib pb ?tx ?rx cap bufs lv tr (sum_list (map (\<lambda>m. 0) ms) + 0) (mr\<lparr>mc_rdma := mc_rdma mw'\<rparr>) (ms @ [])"
    using room assms(3,4,6,9) by (auto simp: rdma_inbox_def rdma_room_def rdma_at_def)
  from rdma_inbox.read_all [OF this, of old] wrote show ?thesis by blast
qed

definition example_rdma_process :: "nat \<Rightarrow> fifo program" where
  "example_rdma_process n = (example_program 3 [])\<lparr>mc_objects := [1 \<mapsto> RdmaSideband (Rdma_new ''X'' example_imp)],
     mc_next := 2, mc_rdma := fifo_start n\<rparr>"

theorem rdma_sideband_messages_witness:
  "\<exists>mw' mr'. write_messages (WriteSidebandMessage (fifo_lib 16 2) bytes_codec 1) [[1, 2], []] (example_rdma_process 2) = Inr mw' \<and>
    read_messages (ReadSidebandMessage (fifo_lib 16 2) bytes_codec 1) [9] (length [[1, 2], [] :: byte list])
      ((example_rdma_process 0)\<lparr>mc_rdma := mc_rdma mw'\<rparr>) = Inr ([[1, 2], []], mr')"
proof (rule rdma_sideband_messages)
  show "easyrdma_link (fifo_lib 16 2) (im_connectedWriteSession (rs_imp (Rdma_new ''X'' example_imp)))
      (im_connectedReadSession (rs_imp (Rdma_new ''X'' example_imp))) timeoutMs 16 2 ff_link"
    using example_link by (simp add: Rdma_new_def)
  show "link_now ff_link (mc_rdma (example_rdma_process 2)) = ([], 2, 0)"
    using example_link_now by (simp add: example_rdma_process_def)
qed (simp_all add: rdma_at_def example_rdma_process_def codec_ok_def bytes_codec_def rdma_message_ok_def sizeof_int64_def)

end
