(* ===== verification/RdmaPort.thy ===== *)
theory RdmaPort
  imports RdmaMessages MonikerSideband
begin

text \<open>
  An RDMA connection in both directions as the port over which the data moniker service streams: the
  loop of \<open>RunSidebandReadWriteLoop\<close> (\<^verbatim>\<open>moniker_src/moniker_service.cc\<close>) over
  \<^verbatim>\<open>src/sideband_rdma.cc\<close>. Each direction is a link of the library; what one session does leaves the
  other link alone.
\<close>

section \<open>The port\<close>

record 's rdma_connection =
  rc_read :: session
  rc_write :: session
  rc_peer_read :: session
  rc_peer_write :: session
  rc_cap :: nat
  rc_bufs :: nat
  rc_in :: "'s \<Rightarrow> link"
  rc_out :: "'s \<Rightarrow> link"

definition rdma_duplex :: "'s easyrdma \<Rightarrow> 's rdma_connection \<Rightarrow> bool" where
  "rdma_duplex lib co \<longleftrightarrow>
     easyrdma_link lib (rc_peer_write co) (rc_read co) timeoutMs (rc_cap co) (rc_bufs co) (rc_in co) \<and>
     easyrdma_link lib (rc_write co) (rc_peer_read co) timeoutMs (rc_cap co) (rc_bufs co) (rc_out co) \<and>
     keeps_link lib (rc_read co) (rc_out co) \<and> keeps_link lib (rc_write co) (rc_in co) \<and>
     keeps_link lib (rc_peer_read co) (rc_in co) \<and> keeps_link lib (rc_peer_write co) (rc_out co) \<and>
     rc_cap co < 2 ^ 63 \<and> 0 < rc_bufs co"

text \<open>The connection as the other end sees it.\<close>

definition mirror :: "'s rdma_connection \<Rightarrow> 's rdma_connection" where
  "mirror co = \<lparr>rc_read = rc_peer_read co, rc_write = rc_peer_write co, rc_peer_read = rc_read co,
     rc_peer_write = rc_write co, rc_cap = rc_cap co, rc_bufs = rc_bufs co, rc_in = rc_out co, rc_out = rc_in co\<rparr>"

lemma mirror_simps [simp]:
  "rc_read (mirror co) = rc_peer_read co" "rc_write (mirror co) = rc_peer_write co" "rc_cap (mirror co) = rc_cap co"
  "rc_in (mirror co) = rc_out co" "rc_out (mirror co) = rc_in co"
  by (simp_all add: mirror_def)

lemma rdma_duplex_mirror [simp]: "rdma_duplex lib (mirror co) \<longleftrightarrow> rdma_duplex lib co"
  by (auto simp: rdma_duplex_def mirror_def)

text \<open>
  What is under way on the link from the other end and on the link to it, with at least \<open>c\<close> and \<open>b\<close>
  credits for more.
\<close>

definition link_has :: "('s \<Rightarrow> link) \<Rightarrow> 'm codec \<Rightarrow> nat \<Rightarrow> 's rdma \<Rightarrow> 'm list \<Rightarrow> bool" where
  "link_has lv pb b rd ms \<longleftrightarrow> (\<exists>k. b \<le> k \<and> link_now lv rd = (map (\<lambda>m. frame (pb_serialize pb m)) ms, k, 0))"

lemma link_has_Suc:
  assumes "link_has lv pb (Suc b) rd ms"
  shows "\<exists>k. b \<le> k \<and> link_now lv rd = (map (\<lambda>m. frame (pb_serialize pb m)) ms, Suc k, 0)"
  using assms unfolding link_has_def by (metis Suc_le_D Suc_le_mono)

definition rdma_links :: "'q codec \<Rightarrow> 'r codec \<Rightarrow> 's rdma_connection \<Rightarrow> nat \<Rightarrow> nat \<Rightarrow> 's rdma \<Rightarrow> 'q list \<Rightarrow> 'r list \<Rightarrow> bool" where
  "rdma_links rq rs co b c rd qs outs \<longleftrightarrow> link_has (rc_in co) rq c rd qs \<and> link_has (rc_out co) rs b rd outs"

lemma rdma_links_mirror: "rdma_links rs rq (mirror co) c b rd outs qs \<longleftrightarrow> rdma_links rq rs co b c rd qs outs"
  by (auto simp: rdma_links_def)

text \<open>Receiving costs nothing and sending a credit; nothing else of the process has changed since \<open>pg0\<close>.\<close>

definition rdma_port :: "'s easyrdma \<Rightarrow> 'q codec \<Rightarrow> 'r codec \<Rightarrow> 's rdma_connection \<Rightarrow> token \<Rightarrow> 's program \<Rightarrow> nat \<Rightarrow> nat \<Rightarrow>
    's program \<Rightarrow> 'q list \<Rightarrow> 'r list \<Rightarrow> bool" where
  "rdma_port lib rq rs co t pg0 b c pg qs outs \<longleftrightarrow>
     rdma_duplex lib co \<and> codec_ok rq \<and> same_objects pg0 pg \<and>
     list_all (\<lambda>q. rdma_message_ok (rc_cap co) (pb_serialize rq q)) qs \<and>
     rdma_links rq rs co b c (mc_rdma pg) qs outs \<and>
     (\<exists>this. rdma_at t this pg \<and> im_connectedWriteSession (rs_imp this) = rc_write co \<and>
        im_connectedReadSession (rs_imp this) = rc_read co)"

lemma link_has_kept: "link_has lw pb b rd ms \<Longrightarrow> lw (rd_lib rd') = lw (rd_lib rd) \<Longrightarrow> link_has lw pb b rd' ms"
  by (simp add: link_has_def link_now_def)

lemma rdma_port_after:
  assumes "rdma_port lib rq rs co t pg0 b c pg qs outs" and "rdma_at t this pg" and "same_sessions imp (rs_imp this)"
    and "list_all (\<lambda>q. rdma_message_ok (rc_cap co) (pb_serialize rq q)) qs'"
    and "rdma_links rq rs co b' c' rd qs' outs'"
  shows "rdma_port lib rq rs co t pg0 b' c' (after_rdma t this imp rd pg) qs' outs'"
proof -
  have "\<exists>this. rdma_at t this pg \<and> im_connectedWriteSession (rs_imp this) = rc_write co \<and>
      im_connectedReadSession (rs_imp this) = rc_read co"
    using assms(1) by (simp add: rdma_port_def)
  then have "im_connectedWriteSession (rs_imp this) = rc_write co" "im_connectedReadSession (rs_imp this) = rc_read co"
    using assms(2) by (auto simp: rdma_at_def)
  moreover have "same_objects pg0 (after_rdma t this imp rd pg)"
    using assms(1) same_objects_trans [OF _ same_objects_after_rdma [OF assms(2)]] by (auto simp: rdma_port_def)
  ultimately show ?thesis
    using assms rdma_at_nonzero [OF assms(2)] by (auto simp: rdma_port_def same_sessions_def)
qed

text \<open>A message that is received gives the other end a credit back.\<close>

lemma rdma_port_recv:
  assumes port: "rdma_port lib rq rs co t pg0 b c pg (q # qs) outs"
  shows "\<exists>p'. ReadSidebandMessage lib rq t old pg = Inr (True, q, p') \<and> rdma_port lib rq rs co t pg0 b (Suc c) p' qs outs"
proof -
  obtain this k where at: "rdma_at t this pg" and rx: "im_connectedReadSession (rs_imp this) = rc_read co"
    and link: "easyrdma_link lib (rc_peer_write co) (rc_read co) timeoutMs (rc_cap co) (rc_bufs co) (rc_in co)"
    and keeps: "keeps_link lib (rc_read co) (rc_out co)" and cap: "rc_cap co < 2 ^ 63" "0 < rc_bufs co" and ok: "codec_ok rq"
    and fits: "rdma_message_ok (rc_cap co) (pb_serialize rq q)" "list_all (\<lambda>q. rdma_message_ok (rc_cap co) (pb_serialize rq q)) qs"
    and now: "link_now (rc_in co) (mc_rdma pg) =
      (frame (pb_serialize rq q) # map (\<lambda>q. frame (pb_serialize rq q)) qs, k, 0)" "c \<le> k"
    and out: "link_has (rc_out co) rs b (mc_rdma pg) outs"
    using port by (auto simp: rdma_port_def rdma_duplex_def rdma_links_def link_has_def [of "rc_in co"])
  obtain imp rd where read: "ReadSidebandMessage lib rq t old pg = Inr (True, q, after_rdma t this imp rd pg)"
    and same: "same_sessions imp (rs_imp this)"
    and now': "link_now (rc_in co) rd = (map (\<lambda>q. frame (pb_serialize rq q)) qs, Suc k, 0)"
    and kept: "rc_out co (rd_lib rd) = rc_out co (rd_lib (mc_rdma pg))"
    using ReadSidebandMessage_rdma [OF link at rx now(1) _ cap(1,2) _ ok, of old] fits(1) keeps
    by (auto simp: rdma_message_ok_def)
  have "rdma_port lib rq rs co t pg0 b (Suc c) (after_rdma t this imp rd pg) qs outs"
    using port same fits(2) now(2) now' link_has_kept [of "rc_out co", OF out kept]
    by - (rule rdma_port_after [OF _ at], auto simp: rdma_links_def link_has_def [of "rc_in co"])
  then show ?thesis using read by blast
qed

lemma rdma_port_less: "rdma_port lib rq rs co t pg0 b (Suc c) pg qs outs \<Longrightarrow> rdma_port lib rq rs co t pg0 b c pg qs outs"
  unfolding rdma_port_def rdma_links_def link_has_def by (meson Suc_leD)

interpretation rdma_duplex_messages:
  message_port "ReadSidebandMessage lib rq t" "WriteSidebandMessage lib rs t" "rdma_port lib rq rs co t pg0"
    "\<lambda>q. 0" "\<lambda>r. 1" "\<lambda>r. rdma_message_ok (rc_cap co) (pb_serialize rs r) \<and> pb_serialize rs r \<noteq> []"
  for lib :: "'s easyrdma" and rq :: "'q codec" and rs :: "'r codec" and t co pg0
proof unfold_locales
  fix b c q old outs and pg :: "'s program" and qs :: "'q list"
  assume "rdma_port lib rq rs co t pg0 b (0 + c) pg (q # qs) outs"
  then show "\<exists>p'. ReadSidebandMessage lib rq t old pg = Inr (True, q, p') \<and> rdma_port lib rq rs co t pg0 b c p' qs outs"
    using rdma_port_recv rdma_port_less by (metis add_0)
next
  fix r b c outs and pg :: "'s program" and qs :: "'q list"
  assume port: "rdma_port lib rq rs co t pg0 (1 + b) c pg qs outs"
    and fits: "rdma_message_ok (rc_cap co) (pb_serialize rs r) \<and> pb_serialize rs r \<noteq> []"
  from port obtain this k where at: "rdma_at t this pg" and tx: "im_connectedWriteSession (rs_imp this) = rc_write co"
    and link: "easyrdma_link lib (rc_write co) (rc_peer_read co) timeoutMs (rc_cap co) (rc_bufs co) (rc_out co)"
    and keeps: "keeps_link lib (rc_write co) (rc_in co)" and cap: "rc_cap co < 2 ^ 63"
    and arrived: "list_all (\<lambda>q. rdma_message_ok (rc_cap co) (pb_serialize rq q)) qs"
    and inbox: "link_has (rc_in co) rq c (mc_rdma pg) qs"
    and now: "link_now (rc_out co) (mc_rdma pg) = (map (\<lambda>r. frame (pb_serialize rs r)) outs, Suc k, 0)" "b \<le> k"
    by (auto simp: rdma_port_def rdma_duplex_def rdma_links_def dest!: link_has_Suc)
  obtain imp rd where wrote: "WriteSidebandMessage lib rs t r pg =
      Inr (of_nat (length (pb_serialize rs r)), after_rdma t this imp rd pg)"
    and same: "same_sessions imp (rs_imp this)"
    and now': "link_now (rc_out co) rd = (map (\<lambda>r. frame (pb_serialize rs r)) outs @ [frame (pb_serialize rs r)], k, 0)"
    and kept: "rc_in co (rd_lib rd) = rc_in co (rd_lib (mc_rdma pg))"
    using WriteSidebandMessage_rdma [where pb = rs and m = r, OF link at tx now(1) _ cap] fits keeps
    by (auto simp: rdma_message_ok_def)
  have "rdma_port lib rq rs co t pg0 b c (after_rdma t this imp rd pg) qs (outs @ [r])"
    using port same arrived now(2) now' link_has_kept [of "rc_in co", OF inbox kept]
    by - (rule rdma_port_after [OF _ at], auto simp: rdma_links_def link_has_def [of "rc_out co"])
  moreover have "(of_nat (length (pb_serialize rs r)) :: int64) \<noteq> 0"
    using fits by (simp add: rdma_message_ok_def int64_of_nat_nonzero)
  ultimately show "\<exists>n p'. WriteSidebandMessage lib rs t r pg = Inr (n, p') \<and> n \<noteq> 0 \<and>
      rdma_port lib rq rs co t pg0 b c p' qs (outs @ [r])"
    using wrote by blast
qed

interpretation rdma_service:
  service_port "ReadSidebandMessage lib rq t" "WriteSidebandMessage lib rs t" "rdma_port lib rq rs co t pg0"
    "\<lambda>q. 0" "\<lambda>r. 1" "\<lambda>r. rdma_message_ok (rc_cap co) (pb_serialize rs r) \<and> pb_serialize rs r \<noteq> []"
  for lib :: "'s easyrdma" and rq :: "'v SidebandWriteRequest codec" and rs :: "'v SidebandReadResponse codec"
    and t co pg0
  by (rule service_port.intro) (rule rdma_duplex_messages.message_port_axioms)

section \<open>The whole stream\<close>

text \<open>Where the two ends stand: the objects behind two tokens, in two processes that share the library.\<close>

lemma rdma_port_start:
  assumes "rdma_duplex lib co" and "codec_ok rq" and "rdma_at t this pg"
    and "im_connectedWriteSession (rs_imp this) = rc_write co" and "im_connectedReadSession (rs_imp this) = rc_read co"
    and "rdma_links rq rs co b c (mc_rdma pg) qs outs"
    and "list_all (\<lambda>q. rdma_message_ok (rc_cap co) (pb_serialize rq q)) qs"
  shows "rdma_port lib rq rs co t pg b c pg qs outs"
  using assms by (auto simp: rdma_port_def same_objects_def)

text \<open>The other end after this one has sent: the library's state is shared, the object is as it was.\<close>

lemma rdma_port_other_end:
  assumes "rdma_port lib rs rq (mirror co) tp mp0 c b mp outs qs" and "rdma_port lib rq rs co t pg0 b' c' pg qs' outs'"
    and "codec_ok rs" and "list_all (\<lambda>r. rdma_message_ok (rc_cap co) (pb_serialize rs r)) outs'"
  shows "rdma_port lib rs rq (mirror co) tp mp0 c' b' (mp\<lparr>mc_rdma := mc_rdma pg\<rparr>) outs' qs'"
proof -
  have "same_objects mp0 (mp\<lparr>mc_rdma := mc_rdma pg\<rparr>)"
    using assms(1) by (auto simp: rdma_port_def same_objects_def)
  moreover have "rdma_at tp this (mp\<lparr>mc_rdma := mc_rdma pg\<rparr>) \<longleftrightarrow> rdma_at tp this mp" for this
    by (simp add: rdma_at_def)
  ultimately show ?thesis
    using assms by (simp add: rdma_port_def rdma_links_mirror)
qed

definition closes_sessions :: "'s easyrdma \<Rightarrow> bool" where
  "closes_sessions lib \<longleftrightarrow> (\<forall>s rd. \<exists>e rd'. er_CloseSession lib s rd = Inr (e, rd'))"

lemma Imp_delete_returns:
  assumes "closes_sessions lib"
  shows "\<exists>rd'. Imp_delete lib this rd = Inr rd'"
proof -
  obtain e1 rd1 where 1: "er_CloseSession lib (im_connectedWriteSession this) rd = Inr (e1, rd1)"
    using assms unfolding closes_sessions_def by blast
  have "\<exists>e rd'. er_CloseSession lib (im_connectedReadSession this) rd0 = Inr (e, rd')" for rd0
    using assms unfolding closes_sessions_def by blast
  from this [of rd] this [of rd1] show ?thesis using 1 by (auto simp: Imp_delete_def)
qed

lemma rdma_port_close:
  assumes "rdma_port lib rq rs co t pg0 b c pg qs outs" and "closes_sessions lib"
    and "rdma_at t this pg0" and "pg_buffers pg0 (rs_id this) = Some t"
  shows "\<exists>pg'. CloseSidebandData lib t pg = Inr (0, pg') \<and> pg_buffers pg' (rs_id this) = None \<and> mc_objects pg' t = None"
proof -
  obtain this' where at: "rdma_at t this' pg" and same: "same_objects pg0 pg"
    using assms(1) by (auto simp: rdma_port_def)
  have "map_option UsageId (mc_objects pg t) = map_option UsageId (mc_objects pg0 t)"
    using same by (simp add: same_objects_def)
  then have ident: "rs_id this' = rs_id this" using at assms(3) by (simp add: rdma_at_def UsageId_def Rdma_UsageId_def)
  have "pg_buffers pg = pg_buffers pg0" using same by (auto simp: same_objects_def dest: program_more)
  moreover obtain rd where "Rdma_delete lib this' (mc_rdma pg) = Inr rd"
    using Imp_delete_returns [OF assms(2)] by (auto simp: Rdma_delete_def)
  ultimately show ?thesis
    using at ident assms(4)
    by (simp add: rdma_at_def CloseSidebandData_def deref_def UsageId_def Rdma_UsageId_def Sideband_delete_def)
qed

lemma rdma_stream_over_port:
  assumes "rdma_at t this pg" and "pg_buffers pg (rs_id this) = Some t" and "closes_sessions lib"
    and "list_all (\<lambda>q. \<not> sw_cancel q) qs" and "sw_cancel stop"
    and "serve fresh readers writers (map sent_values qs) st = (outs, result)"
    and "list_all (\<lambda>r. rdma_message_ok (rc_cap co) (pb_serialize rs r) \<and> pb_serialize rs r \<noteq> []) (responses readers outs)"
    and "rdma_port lib rq rs co t pg (length (responses readers outs) + b) c pg (qs @ stop # rest) []"
  shows "case result of
      Inl e \<Rightarrow> RunSidebandReadWriteLoop lib rq rs fresh (rs_id this) strategy readers writers True (pg, st) = Some (Inl e)
    | Inr st' \<Rightarrow> \<exists>pg1 pg'. RunSidebandReadWriteLoop lib rq rs fresh (rs_id this) strategy readers writers True (pg, st) =
          Some (Inr (pg', st')) \<and> CloseSidebandData lib t pg1 = Inr (0, pg') \<and>
        pg_buffers pg' (rs_id this) = None \<and> mc_objects pg' t = None \<and>
        rdma_port lib rq rs co t pg b c pg1 rest (responses readers outs)"
proof -
  let ?turn = "write_first_turn (ReadSidebandMessage lib rq t) (WriteSidebandMessage lib rs t) fresh readers writers"
  let ?start = "(\<lparr>sw_cancel = False, sw_values = None\<rparr>, pg, st)"
  note run = run_write_first [OF assms(2), of lib rq rs fresh strategy readers writers st]
  have costs: "sum_list (map (\<lambda>r. 1) (responses readers outs)) = length (responses readers outs)" "sum_list (map (\<lambda>q. 0) qs) = (0 :: nat)"
    by (simp_all add: sum_list_triv)
  have loop: "case result of
      Inl e \<Rightarrow> repeat_turns ?turn ?start = Some (Inl e)
    | Inr st' \<Rightarrow> \<exists>p'. repeat_turns ?turn ?start = Some (Inr (stop, p', st')) \<and>
        rdma_port lib rq rs co t pg b c p' rest ([] @ responses readers outs)"
    by (rule rdma_service.write_first_loop [OF _ assms(4,5,6,7)]) (use assms(8) costs in simp)
  show ?thesis
  proof (cases result)
    case (Inl e)
    then show ?thesis using run loop by simp
  next
    case (Inr st')
    then obtain p' where p': "repeat_turns ?turn ?start = Some (Inr (stop, p', st'))"
      and port: "rdma_port lib rq rs co t pg b c p' rest (responses readers outs)"
      using loop by auto
    obtain pg' where close: "CloseSidebandData lib t p' = Inr (0, pg')" "pg_buffers pg' (rs_id this) = None" "mc_objects pg' t = None"
      using rdma_port_close [OF port assms(3,1,2)] by blast
    have "RunSidebandReadWriteLoop lib rq rs fresh (rs_id this) strategy readers writers True (pg, st) = Some (Inr (pg', st'))"
      using run p' close(1) by simp
    then show ?thesis using Inr close port by auto
  qed
qed

section \<open>Property\<close>

text \<open>
  A stream over RDMA, seen from both ends: the client writes its requests and a cancel request, the
  thread of the service then carries out the reference function for them, as over sockets, takes its
  connection off the registry and closes it, and the client reads exactly the responses of the
  readers in order (those under way when the thread comes to its last statement). If an endpoint or a
  missing value stops the thread, that is how its loop ends.
\<close>

theorem rdma_moniker_stream:
  assumes "rdma_port lib rs rq (mirror co) tp mp (Suc (length qs) + a) (length (responses readers outs) + b) mp [] []"
    and "rdma_at t this pg" and "im_connectedWriteSession (rs_imp this) = rc_write co"
    and "im_connectedReadSession (rs_imp this) = rc_read co" and "pg_buffers pg (rs_id this) = Some t"
    and "codec_ok rq" and "closes_sessions lib"
    and "list_all (\<lambda>q. \<not> sw_cancel q) qs" and "sw_cancel stop"
    and "serve fresh readers writers (map sent_values qs) st = (outs, result)"
    and "list_all (\<lambda>q. rdma_message_ok (rc_cap co) (pb_serialize rq q) \<and> pb_serialize rq q \<noteq> []) (qs @ [stop])"
    and "list_all (\<lambda>r. rdma_message_ok (rc_cap co) (pb_serialize rs r) \<and> pb_serialize rs r \<noteq> []) (responses readers outs)"
  shows "\<exists>mp1. write_messages (WriteSidebandMessage lib rq tp) (qs @ [stop]) mp = Inr mp1 \<and>
    (case result of
      Inl e \<Rightarrow> RunSidebandReadWriteLoop lib rq rs fresh (rs_id this) strategy readers writers True
          (pg\<lparr>mc_rdma := mc_rdma mp1\<rparr>, st) = Some (Inl e)
    | Inr st' \<Rightarrow> \<exists>pg1 pg' mp2. RunSidebandReadWriteLoop lib rq rs fresh (rs_id this) strategy readers writers True
          (pg\<lparr>mc_rdma := mc_rdma mp1\<rparr>, st) = Some (Inr (pg', st')) \<and>
        CloseSidebandData lib t pg1 = Inr (0, pg') \<and> pg_buffers pg' (rs_id this) = None \<and> mc_objects pg' t = None \<and>
        read_messages (ReadSidebandMessage lib rs tp) old (length (responses readers outs))
          (mp1\<lparr>mc_rdma := mc_rdma pg1\<rparr>) = Inr (responses readers outs, mp2))"
proof -
  let ?resp = "responses readers outs"
  have n: "sum_list (map (\<lambda>q. 1) (qs @ [stop])) = Suc (length qs)" by (simp add: sum_list_triv)
  have start: "rdma_port lib rs rq (mirror co) tp mp (sum_list (map (\<lambda>q. 1) (qs @ [stop])) + a) (length ?resp + b) mp [] []"
    unfolding n by (rule assms(1))
  obtain mp1 where wrote: "write_messages (WriteSidebandMessage lib rq tp) (qs @ [stop]) mp = Inr mp1"
    and client: "rdma_port lib rs rq (mirror co) tp mp a (length ?resp + b) mp1 [] (qs @ [stop])"
    using rdma_duplex_messages.sink.write_all [OF start assms(11) [folded mirror_simps(3) [of co]]] by auto
  let ?pg = "pg\<lparr>mc_rdma := mc_rdma mp1\<rparr>"
  have at: "rdma_at t this ?pg" "pg_buffers ?pg (rs_id this) = Some t" using assms(2,5) by (simp_all add: rdma_at_def)
  have fits: "list_all (\<lambda>q. rdma_message_ok (rc_cap co) (pb_serialize rq q)) (qs @ [stop])"
    using assms(11) by (auto simp: list_all_iff)
  have server: "rdma_port lib rq rs co t ?pg (length ?resp + b) a ?pg (qs @ stop # []) []"
    using client fits
    by (intro rdma_port_start [OF _ assms(6) at(1) assms(3,4)]) (simp_all add: rdma_port_def rdma_links_mirror)
  note run = rdma_stream_over_port [OF at assms(7-10,12) server, of strategy]
  show ?thesis
  proof (cases result)
    case (Inl e)
    then show ?thesis using wrote run by (intro exI [of _ mp1]) simp
  next
    case (Inr st')
    then obtain pg1 pg' where pg': "RunSidebandReadWriteLoop lib rq rs fresh (rs_id this) strategy readers writers True
          (?pg, st) = Some (Inr (pg', st'))" "CloseSidebandData lib t pg1 = Inr (0, pg')"
        "pg_buffers pg' (rs_id this) = None" "mc_objects pg' t = None"
      and served: "rdma_port lib rq rs co t ?pg b a pg1 [] ?resp"
      using run by auto
    have "rdma_port lib rs rq (mirror co) tp mp a b (mp1\<lparr>mc_rdma := mc_rdma pg1\<rparr>) ?resp []"
      using rdma_port_other_end [OF client served] client assms(12) by (simp add: rdma_port_def list_all_iff)
    then have "\<exists>k rest. rdma_port lib rs rq (mirror co) tp mp k (sum_list (map (\<lambda>r. 0) ?resp) + b)
        (mp1\<lparr>mc_rdma := mc_rdma pg1\<rparr>) (?resp @ []) rest"
      by (auto simp: sum_list_triv)
    from rdma_duplex_messages.source.read_all [OF this, of old]
    obtain mp2 where "read_messages (ReadSidebandMessage lib rs tp) old (length ?resp) (mp1\<lparr>mc_rdma := mc_rdma pg1\<rparr>) =
        Inr (?resp, mp2)"
      by blast
    then show ?thesis using wrote pg' Inr by auto
  qed
qed

text \<open>A process at one end of the library that connects both directions.\<close>

definition example_end :: "session \<Rightarrow> session \<Rightarrow> RdmaSidebandData" where
  "example_end w r = Rdma_new ''X'' \<lparr>im_lowLatency = False, im_connectedWriteSession = w, im_connectedReadSession = r,
     im_writeBuffer = None, im_readBuffer = None, im_bufferSize = 64\<rparr>"

definition example_duplex :: "session \<Rightarrow> session \<Rightarrow> duplex program" where
  "example_duplex w r = \<lparr>mc_objects = [1 \<mapsto> RdmaSideband (example_end w r)], mc_next = 2,
     mc_shm = posix_init 16 4096 65536, mc_net = mc_net (example_program 3 []), mc_rdma = duplex_start 5,
     pg_buffers = [''X'' \<mapsto> 1], pg_nextId = initial_nextId, pg_config = \<lparr>sc_address = '''', sc_port = 0\<rparr>,
     pg_interfaces = [], pg_sockets = pg_sockets (example_program 3 []), pg_rdma = pg_rdma (example_program 3 [])\<rparr>"

definition example_sides :: "duplex rdma_connection" where
  "example_sides = \<lparr>rc_read = 2, rc_write = 3, rc_peer_read = 4, rc_peer_write = 1, rc_cap = 64, rc_bufs = 2,
     rc_in = dx_first, rc_out = dx_second\<rparr>"

lemma example_sides_duplex: "rdma_duplex (duplex_lib 64 2) example_sides"
  by (simp add: rdma_duplex_def example_sides_def duplex_links duplex_keeps del: One_nat_def)

lemma example_duplex_links: "b \<le> 5 \<Longrightarrow> c \<le> 5 \<Longrightarrow> rdma_links rq rs example_sides b c (duplex_start 5) [] []"
  by (simp add: rdma_links_def link_has_def link_now_def example_sides_def duplex_start_def Let_def)

lemma example_duplex_at: "rdma_at 1 (example_end w r) (example_duplex w r)"
  by (simp add: rdma_at_def example_duplex_def)

lemma example_duplex_client:
  "rdma_port (duplex_lib 64 2) example_responses example_requests (mirror example_sides) 1 (example_duplex 1 4) 3 2
    (example_duplex 1 4) [] []"
proof (rule rdma_port_start [OF _ example_responses_ok example_duplex_at])
  show "rdma_duplex (duplex_lib 64 2) (mirror example_sides)" using example_sides_duplex by simp
  show "rdma_links example_responses example_requests (mirror example_sides) 3 2 (mc_rdma (example_duplex 1 4)) [] []"
    using example_duplex_links [of 2 3 example_requests example_responses]
    by (simp add: rdma_links_mirror) (simp add: example_duplex_def)
qed (simp_all add: example_end_def Rdma_new_def example_sides_def)

theorem rdma_moniker_stream_witness:
  "\<exists>mp1 pg1 pg' mp2. write_messages (WriteSidebandMessage (duplex_lib 64 2) example_requests 1)
      ([\<lparr>sw_cancel = False, sw_values = Some [7]\<rparr>, \<lparr>sw_cancel = False, sw_values = Some [9]\<rparr>] @
        [\<lparr>sw_cancel = True, sw_values = None\<rparr>]) (example_duplex 1 4) = Inr mp1 \<and>
    RunSidebandReadWriteLoop (duplex_lib 64 2) example_requests example_responses 0 ''X'' RDMA [counter] [recorder] True
      ((example_duplex 3 2)\<lparr>mc_rdma := mc_rdma mp1\<rparr>, []) = Some (Inr (pg', [7, 9])) \<and>
    CloseSidebandData (duplex_lib 64 2) 1 pg1 = Inr (0, pg') \<and>
    read_messages (ReadSidebandMessage (duplex_lib 64 2) example_responses 1) (response []) 2
      (mp1\<lparr>mc_rdma := mc_rdma pg1\<rparr>) = Inr ([response [1], response [2]], mp2)"
proof -
  let ?qs = "[\<lparr>sw_cancel = False, sw_values = Some [7]\<rparr>, \<lparr>sw_cancel = False, sw_values = Some [9]\<rparr>]"
  let ?stop = "\<lparr>sw_cancel = True, sw_values = None\<rparr> :: byte SidebandWriteRequest"
  have id: "rs_id (example_end 3 2) = ''X''" by (simp add: example_end_def Rdma_new_def)
  have client: "rdma_port (duplex_lib 64 2) example_responses example_requests (mirror example_sides) 1 (example_duplex 1 4)
      (Suc (length ?qs) + 0) (length (responses [counter] [[1], [2]]) + 0) (example_duplex 1 4) [] []"
    using example_duplex_client by (simp add: responses_def numeral_2_eq_2 numeral_3_eq_3)
  have serve: "serve 0 [counter] [recorder] (map sent_values ?qs) [] = ([[1], [2]], Inr [7, 9])"
    by (simp add: counter_def recorder_def sent_values_def call_endpoint_def element_def)
  have "\<exists>mp1. write_messages (WriteSidebandMessage (duplex_lib 64 2) example_requests 1) (?qs @ [?stop]) (example_duplex 1 4) = Inr mp1 \<and>
    (case Inr [7, 9] of
      Inl e \<Rightarrow> RunSidebandReadWriteLoop (duplex_lib 64 2) example_requests example_responses 0 (rs_id (example_end 3 2)) RDMA
        [counter] [recorder] True ((example_duplex 3 2)\<lparr>mc_rdma := mc_rdma mp1\<rparr>, []) = Some (Inl e)
    | Inr st' \<Rightarrow> \<exists>pg1 pg' mp2. RunSidebandReadWriteLoop (duplex_lib 64 2) example_requests example_responses 0
          (rs_id (example_end 3 2)) RDMA [counter] [recorder] True
          ((example_duplex 3 2)\<lparr>mc_rdma := mc_rdma mp1\<rparr>, []) = Some (Inr (pg', st')) \<and>
        CloseSidebandData (duplex_lib 64 2) 1 pg1 = Inr (0, pg') \<and> pg_buffers pg' (rs_id (example_end 3 2)) = None \<and>
        mc_objects pg' 1 = None \<and>
        read_messages (ReadSidebandMessage (duplex_lib 64 2) example_responses 1) (response []) (length (responses [counter] [[1], [2]]))
          (mp1\<lparr>mc_rdma := mc_rdma pg1\<rparr>) = Inr (responses [counter] [[1], [2]], mp2))"
    by (rule rdma_moniker_stream [OF client example_duplex_at _ _ _ example_requests_ok _ _ _ serve])
      (simp_all add: example_end_def Rdma_new_def example_sides_def example_duplex_def closes_sessions_def duplex_lib_def
        responses_def response_def example_requests_def example_responses_def rdma_message_ok_def sizeof_int64_def)
  moreover have "responses [counter] [[1], [2]] = [response [1], response [2]]" by (simp add: responses_def)
  moreover have "length [response [1 :: byte], response [2]] = 2" by simp
  ultimately show ?thesis by (simp only: id sum.case) blast
qed

end
