(* ===== verification/RdmaStream.thy ===== *)
theory RdmaStream
  imports RdmaPort StreamTurns
begin

text \<open>
  A stream of the data moniker service over RDMA, as long as one likes. An RDMA session has two
  receive buffers (the code configures two), so a sender soon has to wait for the receiver, and the two ends
  have to take turns: the abstract machine of \<^verbatim>\<open>StreamTurns\<close> with as many places as there are buffers.
\<close>

section \<open>A port with a window\<close>

text \<open>
  What has been received has left its buffer free: with \<open>k\<close> buffers, \<open>k\<close> minus the messages under way
  can still be sent.
\<close>

lemma rdma_recv_window:
  assumes port: "rdma_port lib rq rs co t pg0 b (k - length (q # qs)) pg (q # qs) outs"
  shows "\<exists>p'. ReadSidebandMessage lib rq t old pg = Inr (True, q, p') \<and> rdma_port lib rq rs co t pg0 b (k - length qs) p' qs outs"
proof (cases "length qs < k")
  case True
  then have "k - length qs = Suc (k - length (q # qs))" by simp
  then show ?thesis using rdma_port_recv [OF port, of old] by simp
next
  case False
  then show ?thesis using rdma_port_recv [OF port, of old] rdma_port_less by fastforce
qed

interpretation rdma_window:
  service_port "ReadSidebandMessage lib rq t" "WriteSidebandMessage lib rs t"
    "\<lambda>b c pg qs outs. rdma_port lib rq rs co t pg0 b (k - length qs) pg qs outs"
    "\<lambda>q. 0" "\<lambda>r. 1" "\<lambda>r. rdma_message_ok (rc_cap co) (pb_serialize rs r) \<and> pb_serialize rs r \<noteq> []"
  for lib :: "'s easyrdma" and rq :: "'v SidebandWriteRequest codec" and rs :: "'v SidebandReadResponse codec"
    and t co pg0 k
proof unfold_locales
qed (rule rdma_recv_window rdma_duplex_messages.send_law; assumption)+

text \<open>
  Both ends, in the middle of a stream: \<open>qs\<close> is on its way to the service and \<open>outs\<close> to the client. Nothing
  has to be granted: each buffer that is read is free again.
\<close>

definition two_ends :: "'s easyrdma \<Rightarrow> 'v SidebandWriteRequest codec \<Rightarrow> 'v SidebandReadResponse codec \<Rightarrow>
    's rdma_connection \<Rightarrow> token \<Rightarrow> token \<Rightarrow> 's program \<Rightarrow> 's program \<Rightarrow> nat \<Rightarrow> 's program \<Rightarrow> 's program \<Rightarrow>
    'v SidebandWriteRequest list \<Rightarrow> 'v SidebandReadResponse list \<Rightarrow> 'v SidebandWriteRequest list \<Rightarrow>
    'v SidebandReadResponse list \<Rightarrow> bool" where
  "two_ends lib rq rs co tp t mp0 pg0 k mp pg qs outs ql rl \<longleftrightarrow> codec_ok rq \<and> codec_ok rs \<and>
     rdma_port lib rs rq (mirror co) tp mp0 (k - length qs) (k - length outs) mp outs qs \<and>
     rdma_port lib rq rs co t pg0 (k - length outs) (k - length qs) pg qs outs"

lemma mirror_mirror [simp]: "mirror (mirror co) = co"
  by (simp add: mirror_def)

lemma rdma_port_arrived:
  "rdma_port lib rq rs co t pg0 b c pg qs outs \<Longrightarrow> list_all (\<lambda>q. rdma_message_ok (rc_cap co) (pb_serialize rq q)) qs"
  by (simp add: rdma_port_def)

abbreviation rdma_sendable :: "'s rdma_connection \<Rightarrow> 'm codec \<Rightarrow> 'm \<Rightarrow> bool" where
  "rdma_sendable co pb m \<equiv> rdma_message_ok (rc_cap co) (pb_serialize pb m) \<and> pb_serialize pb m \<noteq> []"

text \<open>After a step of one end, the other end shares the network with it.\<close>

lemma rdma_port_network:
  assumes "rdma_port lib rs rq (mirror co) tp mp0 c b mp outs qs" and "rdma_port lib rq rs co t pg0 b' c' pg qs' outs'"
    and "codec_ok rs" and "list_all (\<lambda>r. rdma_message_ok (rc_cap co) (pb_serialize rs r)) outs'"
  shows "rdma_port lib rs rq (mirror co) tp mp0 c' b' (network pg mp) outs' qs'"
proof -
  have "rdma_port lib rs rq (mirror co) tp mp0 c' b' (mp\<lparr>mc_rdma := mc_rdma pg\<rparr>) outs' qs'"
    using rdma_port_other_end assms by blast
  then show ?thesis by (simp add: rdma_port_def network_def same_objects_def rdma_at_def)
qed

text \<open>The service may close when the client has taken all responses; the sessions are gone then.\<close>

definition rdma_closable :: "'s easyrdma \<Rightarrow> token \<Rightarrow> RdmaSidebandData \<Rightarrow> 's program \<Rightarrow> 'r list \<Rightarrow> bool" where
  "rdma_closable lib t this pg outs \<longleftrightarrow>
     outs = [] \<and> closes_sessions lib \<and> rdma_at t this pg \<and> pg_buffers pg (rs_id this) = Some t"

interpretation rdma_turns:
  stream_ends lib rq rs tp t "rs_id this" k "rdma_closable lib t this pg0" "two_ends lib rq rs co tp t mp0 pg0 k"
    "\<lambda>mp outs. outs = []" "rdma_sendable co rq" "rdma_sendable co rs"
  for lib :: "'s easyrdma" and rq :: "'v SidebandWriteRequest codec" and rs :: "'v SidebandReadResponse codec"
    and tp t this k co mp0 pg0
proof (unfold_locales, goal_cases)
  case (1 mp pg qs outs q ql rl)
  then have client: "rdma_port lib rs rq (mirror co) tp mp0 (1 + (k - length (qs @ [q]))) (k - length outs) mp outs qs"
    and server: "rdma_port lib rq rs co t pg0 (k - length outs) (k - length qs) pg qs outs"
    and ok: "codec_ok rq" "codec_ok rs" by (simp_all add: two_ends_def Suc_diff_Suc)
  obtain n mp' where wrote: "WriteSidebandMessage lib rq tp q mp = Inr (n, mp')"
    and client': "rdma_port lib rs rq (mirror co) tp mp0 (k - length (qs @ [q])) (k - length outs) mp' outs (qs @ [q])"
    using rdma_duplex_messages.send_law [OF client, of q] 1(3) by auto
  have "rdma_port lib rq rs co t pg0 (k - length outs) (k - length (qs @ [q])) (network mp' pg) (qs @ [q]) outs"
    using rdma_port_network [of lib rq rs "mirror co", simplified, OF server client' ok(1)] rdma_port_arrived [OF server] 1(3)
    by simp
  then show ?case using wrote client' ok by (simp add: two_ends_def)
next
  case (2 mp pg qs r outs ql rl old_r)
  then have client: "rdma_port lib rs rq (mirror co) tp mp0 (k - length qs) (k - length (r # outs)) mp (r # outs) qs"
    and server: "rdma_port lib rq rs co t pg0 (k - length (r # outs)) (k - length qs) pg qs (r # outs)"
    and ok: "codec_ok rq" "codec_ok rs" by (simp_all add: two_ends_def)
  obtain mp' where read: "ReadSidebandMessage lib rs tp old_r mp = Inr (True, r, mp')"
    and client': "rdma_port lib rs rq (mirror co) tp mp0 (k - length qs) (k - length outs) mp' outs qs"
    using rdma_recv_window [OF client] by blast
  have "rdma_port lib rq rs co t pg0 (k - length outs) (k - length qs) (network mp' pg) qs outs"
    using rdma_port_network [of lib rq rs "mirror co", simplified, OF server client' ok(1)] rdma_port_arrived [OF server]
    by simp
  then show ?case using read client' ok by (simp add: two_ends_def)
next
  case (3 mp pg q qs outs ql rl old_q)
  then have client: "rdma_port lib rs rq (mirror co) tp mp0 (k - length (q # qs)) (k - length outs) mp outs (q # qs)"
    and server: "rdma_port lib rq rs co t pg0 (k - length outs) (k - length (q # qs)) pg (q # qs) outs"
    and ok: "codec_ok rq" "codec_ok rs" by (simp_all add: two_ends_def)
  obtain pg' where read: "ReadSidebandMessage lib rq t old_q pg = Inr (True, q, pg')"
    and server': "rdma_port lib rq rs co t pg0 (k - length outs) (k - length qs) pg' qs outs"
    using rdma_recv_window [OF server] by blast
  have "rdma_port lib rs rq (mirror co) tp mp0 (k - length qs) (k - length outs) (network pg' mp) outs qs"
    using rdma_port_network [OF client server' ok(2)] rdma_port_arrived [OF client] by simp
  then show ?case using read server' ok by (simp add: two_ends_def)
next
  case (4 mp pg qs outs ql r rl)
  then have client: "rdma_port lib rs rq (mirror co) tp mp0 (k - length qs) (k - length outs) mp outs qs"
    and server: "rdma_port lib rq rs co t pg0 (1 + (k - length (outs @ [r]))) (k - length qs) pg qs outs"
    and ok: "codec_ok rq" "codec_ok rs" by (simp_all add: two_ends_def Suc_diff_Suc)
  obtain n pg' where wrote: "WriteSidebandMessage lib rs t r pg = Inr (n, pg')" "n \<noteq> 0"
    and server': "rdma_port lib rq rs co t pg0 (k - length (outs @ [r])) (k - length qs) pg' qs (outs @ [r])"
    using rdma_duplex_messages.send_law [OF server, of r] 4(3) by blast
  have "rdma_port lib rs rq (mirror co) tp mp0 (k - length qs) (k - length (outs @ [r])) (network pg' mp) (outs @ [r]) qs"
    using rdma_port_network [OF client server' ok(2)] rdma_port_arrived [OF client] 4(3) by simp
  then show ?case using wrote server' ok by (simp add: two_ends_def)
next
  case (5 mp pg qs outs ql rl)
  then have port: "rdma_port lib rq rs co t pg0 (k - length outs) (k - length qs) pg qs outs" by (simp add: two_ends_def)
  show ?case using rdma_port_close [OF port] 5(2) unfolding rdma_closable_def by blast
next
  case (6 mp r outs old_r)
  then show ?case by simp
qed

text \<open>At the beginning: the objects behind two tokens, in two processes.\<close>

lemma two_ends_start:
  assumes "rdma_duplex lib co" and "codec_ok rq" and "codec_ok rs"
    and "rdma_at tp client mp" and "im_connectedWriteSession (rs_imp client) = rc_peer_write co"
    and "im_connectedReadSession (rs_imp client) = rc_peer_read co"
    and "rdma_at t this pg" and "im_connectedWriteSession (rs_imp this) = rc_write co"
    and "im_connectedReadSession (rs_imp this) = rc_read co"
    and "rdma_links rq rs co k k (mc_rdma mp) [] []"
  shows "two_ends lib rq rs co tp t mp (network mp pg) k mp (network mp pg) [] [] ql rl"
proof -
  have at: "rdma_at t this (network mp pg)" using assms(7) by (simp add: rdma_at_def)
  have "rdma_port lib rs rq (mirror co) tp mp k k mp [] []"
    using assms by (intro rdma_port_start [OF _ assms(3,4)]) (simp_all add: rdma_links_mirror)
  moreover have "rdma_port lib rq rs co t (network mp pg) k k (network mp pg) [] []"
    using assms by (intro rdma_port_start [OF assms(1,2) at]) simp_all
  ultimately show ?thesis using assms(2,3) by (simp add: two_ends_def)
qed

section \<open>Windows\<close>

text \<open>
  The orders in which nobody has to wait: the client has at most \<open>k\<close> requests without a response and
  takes responses that have been sent, and the service serves requests that have been written.
\<close>

fun in_window :: "nat \<Rightarrow> 'v stream_move list \<Rightarrow> nat \<Rightarrow> nat \<Rightarrow> nat \<Rightarrow> bool" where
  "in_window k [] asked answered taken \<longleftrightarrow> True"
| "in_window k (Asks q # ms) asked answered taken \<longleftrightarrow> asked < taken + k \<and> in_window k ms (Suc asked) answered taken"
| "in_window k (Serves # ms) asked answered taken \<longleftrightarrow> answered < asked \<and> in_window k ms asked (Suc answered) taken"
| "in_window k (Takes # ms) asked answered taken \<longleftrightarrow> taken < answered \<and> in_window k ms asked answered (Suc taken)"

fun takes :: "'v stream_move list \<Rightarrow> nat" where
  "takes [] = 0"
| "takes (Takes # ms) = Suc (takes ms)"
| "takes (m # ms) = takes ms"

lemma in_window_exchange:
  assumes "in_window k ms (taken + length (ex_sent a) + length (ex_asked a)) (taken + length (ex_sent a)) taken"
    and "length (ex_asked a) + length (ex_sent a) \<le> k" and "ex_open a" and "readers \<noteq> []"
    and "list_all (\<lambda>q. \<not> sw_cancel q) (ex_asked a @ asks ms)"
    and "serve fresh readers writers (map sent_values (ex_asked a @ asks ms)) (ex_endpoints a) = (vals, Inr w)"
  shows "\<exists>n a'. exchange_steps k may_close fresh readers writers ms a = Some (take n (responses readers vals), Inr a') \<and>
    ex_open a' \<and> ex_got a' = ex_got a @ take (takes ms) (ex_sent a @ responses readers vals)"
  using assms
proof (induction ms arbitrary: a taken vals)
  case Nil
  then show ?case by (intro exI [of _ 0]) simp
next
  case (Cons m ms)
  show ?case
  proof (cases m)
    case (Asks q)
    let ?a = "a\<lparr>ex_asked := ex_asked a @ [q]\<rparr>"
    have "exchange_step k may_close fresh readers writers m a = Some (Inr ([], ?a))" using Asks Cons.prems by simp
    moreover have "\<exists>n a'. exchange_steps k may_close fresh readers writers ms ?a = Some (take n (responses readers vals), Inr a') \<and>
        ex_open a' \<and> ex_got a' = ex_got ?a @ take (takes ms) (ex_sent ?a @ responses readers vals)"
      using Cons.prems Asks by (intro Cons.IH [where taken = taken]) simp_all
    ultimately show ?thesis using Asks by auto
  next
    case Takes
    then obtain r outs where sent: "ex_sent a = r # outs" using Cons.prems(1) by (cases "ex_sent a") simp_all
    let ?a = "a\<lparr>ex_sent := outs, ex_got := ex_got a @ [r]\<rparr>"
    have "exchange_step k may_close fresh readers writers m a = Some (Inr ([], ?a))" using Takes sent by simp
    moreover have "\<exists>n a'. exchange_steps k may_close fresh readers writers ms ?a = Some (take n (responses readers vals), Inr a') \<and>
        ex_open a' \<and> ex_got a' = ex_got ?a @ take (takes ms) (ex_sent ?a @ responses readers vals)"
      using Cons.prems Takes sent by (intro Cons.IH [where taken = "Suc taken"]) simp_all
    ultimately show ?thesis using Takes sent by auto
  next
    case Serves
    then obtain q qs where qs: "ex_asked a = q # qs" using Cons.prems(1) by (cases "ex_asked a") simp_all
    obtain out w1 vals' where calls: "andThen (call_on_values writers 0 (sent_values q) (ex_endpoints a))
        (\<lambda>(_, w). call_on_new_values fresh readers [] w) = Inr (out, w1)" and vals: "vals = out # vals'"
      and tail: "serve fresh readers writers (map sent_values (qs @ asks ms)) w1 = (vals', Inr w)"
      using Cons.prems(6) qs Serves by (auto split: sum.splits prod.splits)
    let ?a = "a\<lparr>ex_asked := qs, ex_sent := ex_sent a @ [response out], ex_endpoints := w1\<rparr>"
    have "exchange_step k may_close fresh readers writers m a = Some (Inr ([response out], ?a))"
      using Serves qs calls Cons.prems by simp
    moreover obtain n a' where "exchange_steps k may_close fresh readers writers ms ?a = Some (take n (responses readers vals'), Inr a')"
        "ex_open a'" "ex_got a' = ex_got ?a @ take (takes ms) (ex_sent ?a @ responses readers vals')"
      using Cons.IH [where taken = taken and a = ?a and vals = vals'] Cons.prems Serves qs tail by auto
    ultimately show ?thesis using Serves vals Cons.prems(4) by (intro exI [of _ "Suc n"] exI [of _ a']) simp
  qed
qed

lemma list_all_take: "list_all P xs \<Longrightarrow> list_all P (take n xs)"
  by (auto simp: list_all_iff dest: in_set_takeD)

lemma rdma_stream_over_window:
  assumes "rdma_duplex lib co" and "codec_ok rq" and "codec_ok rs"
    and "rdma_at tp client mp" and "im_connectedWriteSession (rs_imp client) = rc_peer_write co"
    and "im_connectedReadSession (rs_imp client) = rc_peer_read co"
    and "rdma_at t this pg" and "im_connectedWriteSession (rs_imp this) = rc_write co"
    and "im_connectedReadSession (rs_imp this) = rc_read co"
    and "rdma_links rq rs co k k (mc_rdma mp) [] []"
    and "in_window k ms 0 0 0" and "readers \<noteq> []"
    and "serve fresh readers writers (map sent_values (asks ms)) w = (outs, Inr w')"
    and "list_all (\<lambda>q. \<not> sw_cancel q) (asks ms)" and "list_all (rdma_sendable co rq) (asks ms)"
    and "list_all (rdma_sendable co rs) (responses readers outs)"
  shows "\<exists>s. stream_steps lib rq rs fresh readers writers tp t ms (stream_start mp pg w) = Inr s \<and>
    sm_running s \<and> sm_got s = take (takes ms) (responses readers outs)"
proof -
  obtain n a where run: "exchange_steps k (rdma_closable lib t this (network mp pg)) fresh readers writers ms (exchange_start w) =
      Some (take n (responses readers outs), Inr a)" "ex_open a" "ex_got a = take (takes ms) (responses readers outs)"
    using in_window_exchange [of k ms 0 "exchange_start w" readers fresh writers outs w' "rdma_closable lib t this (network mp pg)"]
      assms(11-14) by (auto simp: exchange_start_def)
  show ?thesis
    using rdma_turns.stream_refines [OF two_ends_start [OF assms(1-10)] run(1) assms(15) list_all_take [OF assms(16)]] run(2,3)
    by (auto simp: follows_def)
qed

lemma rdma_stream_over_turns:
  assumes "rdma_duplex lib co" and "codec_ok rq" and "codec_ok rs" and "closes_sessions lib"
    and "rdma_at tp client mp" and "im_connectedWriteSession (rs_imp client) = rc_peer_write co"
    and "im_connectedReadSession (rs_imp client) = rc_peer_read co"
    and "rdma_at t this pg" and "im_connectedWriteSession (rs_imp this) = rc_write co"
    and "im_connectedReadSession (rs_imp this) = rc_read co" and "pg_buffers pg (rs_id this) = Some t"
    and "rdma_links rq rs co k k (mc_rdma mp) [] []"
    and "exchange_steps k (\<lambda>outs. outs = []) fresh readers writers ms (exchange_start w) = Some (rl, result)"
    and "list_all (rdma_sendable co rq) (asks ms)" and "list_all (rdma_sendable co rs) rl"
  shows "case result of
      Inl e \<Rightarrow> stream_steps lib rq rs fresh readers writers tp t ms (stream_start mp pg w) = Inl e
    | Inr a \<Rightarrow> \<exists>s. stream_steps lib rq rs fresh readers writers tp t ms (stream_start mp pg w) = Inr s \<and>
        sm_got s = ex_got a \<and> sm_endpoints s = ex_endpoints a \<and> sm_running s = ex_open a \<and>
        (\<not> ex_open a \<longrightarrow> pg_buffers (sm_server s) (rs_id this) = None \<and> mc_objects (sm_server s) t = None)"
proof -
  have closable: "rdma_closable lib t this (network mp pg) = (\<lambda>outs. outs = [])"
    using assms(4,8,11) by (auto simp: rdma_closable_def rdma_at_def)
  have run: "exchange_steps k (rdma_closable lib t this (network mp pg)) fresh readers writers ms (exchange_start w) =
      Some (rl, result)"
    using assms(13) by (simp only: closable)
  show ?thesis
    using rdma_turns.stream_refines [OF two_ends_start [OF assms(1-3,5-10,12)] run assms(14,15)]
    by (cases result) (auto simp: follows_def)
qed

section \<open>Properties\<close>

text \<open>
  C3. A stream of any length over RDMA, with \<open>k\<close> receive buffers in each direction, from both ends: in every
  order of the client's calls and the turns of the service in which nobody has to wait, each call does what the abstract
  machine does. No call fails or waits unless an endpoint fails, which is then how the service's
  thread ends; the client gets the responses of the machine in order; and when the service has read a cancel request the
  connection is closed and off the registry.
\<close>

theorem rdma_stream_turns:
  assumes "rdma_duplex lib co" and "codec_ok rq" and "codec_ok rs" and "closes_sessions lib"
    and "rdma_at tp client mp" and "im_connectedWriteSession (rs_imp client) = rc_peer_write co"
    and "im_connectedReadSession (rs_imp client) = rc_peer_read co"
    and "rdma_at t this pg" and "im_connectedWriteSession (rs_imp this) = rc_write co"
    and "im_connectedReadSession (rs_imp this) = rc_read co" and "pg_buffers pg (rs_id this) = Some t"
    and "rdma_links rq rs co k k (mc_rdma mp) [] []"
    and "exchange_steps k (\<lambda>outs. outs = []) fresh readers writers ms (exchange_start w) = Some (rl, result)"
    and "list_all (rdma_sendable co rq) (asks ms)" and "list_all (rdma_sendable co rs) rl"
  shows "case result of
      Inl e \<Rightarrow> stream_steps lib rq rs fresh readers writers tp t ms (stream_start mp pg w) = Inl e
    | Inr a \<Rightarrow> \<exists>s. stream_steps lib rq rs fresh readers writers tp t ms (stream_start mp pg w) = Inr s \<and>
        sm_got s = ex_got a \<and> sm_endpoints s = ex_endpoints a \<and> sm_running s = ex_open a \<and>
        (\<not> ex_open a \<longrightarrow> pg_buffers (sm_server s) (rs_id this) = None \<and> mc_objects (sm_server s) t = None)"
  using assms by (rule rdma_stream_over_turns)

text \<open>Three requests over a connection with two buffers, with different overlaps of the two ends, and then the end.\<close>

definition example_moves :: "byte stream_move list" where
  "example_moves = [Asks \<lparr>sw_cancel = False, sw_values = Some [7]\<rparr>, Asks \<lparr>sw_cancel = False, sw_values = Some [9]\<rparr>,
     Serves, Takes, Asks \<lparr>sw_cancel = False, sw_values = Some [8]\<rparr>, Serves, Serves, Takes, Takes]"

lemma example_moves_serve:
  "serve 0 [counter] [recorder] (map sent_values (asks example_moves)) [] = ([[1], [2], [3]], Inr [7, 9, 8])"
  by (simp add: example_moves_def counter_def recorder_def sent_values_def call_endpoint_def element_def)

lemma example_moves_fit:
  "in_window 2 example_moves 0 0 0" "list_all (\<lambda>q. \<not> sw_cancel q) (asks example_moves)"
  "list_all (rdma_sendable example_sides example_requests) (asks example_moves)"
  "list_all (rdma_sendable example_sides example_responses) (responses [counter] [[1], [2], [3]])"
  by (simp_all add: example_moves_def example_sides_def responses_def response_def example_requests_def
      example_responses_def rdma_message_ok_def sizeof_int64_def)

lemma example_duplex_ends:
  "rdma_at 1 (example_end 1 4) ((example_duplex 1 4)\<lparr>mc_rdma := duplex_start 2\<rparr>)"
  "rdma_links example_requests example_responses example_sides 2 2 (mc_rdma ((example_duplex 1 4)\<lparr>mc_rdma := duplex_start 2\<rparr>)) [] []"
  using example_duplex_at [of 1 4]
  by (simp_all add: rdma_at_def rdma_links_def link_has_def link_now_def example_sides_def duplex_start_def Let_def)

definition example_turns :: "byte stream_move list" where
  "example_turns = example_moves @ [Asks \<lparr>sw_cancel = True, sw_values = None\<rparr>, Serves]"

lemma example_turns_run:
  "exchange_steps 2 (\<lambda>outs. outs = []) 0 [counter] [recorder] example_turns (exchange_start []) =
    Some ([response [1], response [2], response [3]], Inr \<lparr>ex_asked = [], ex_sent = [],
      ex_got = [response [1], response [2], response [3]], ex_endpoints = [7, 9, 8], ex_open = False\<rparr>)"
  by (simp add: example_turns_def example_moves_def exchange_start_def counter_def recorder_def sent_values_def
      call_endpoint_def element_def responses_def)

lemma example_turns_fit:
  "list_all (rdma_sendable example_sides example_requests) (asks example_turns)"
  "list_all (rdma_sendable example_sides example_responses) [response [1], response [2], response [3]]"
  using example_moves_fit(3,4)
  by (simp_all add: example_turns_def example_moves_def example_sides_def example_requests_def rdma_message_ok_def
      sizeof_int64_def responses_def)

theorem rdma_stream_turns_witness:
  "\<exists>s. stream_steps (duplex_lib 64 2) example_requests example_responses 0 [counter] [recorder] 1 1 example_turns
      (stream_start ((example_duplex 1 4)\<lparr>mc_rdma := duplex_start 2\<rparr>) (example_duplex 3 2) []) = Inr s \<and>
    sm_got s = [response [1], response [2], response [3]] \<and> sm_endpoints s = [7, 9, 8] \<and> \<not> sm_running s \<and>
    pg_buffers (sm_server s) ''X'' = None \<and> mc_objects (sm_server s) 1 = None"
proof -
  have "closes_sessions (duplex_lib 64 2)" by (simp add: closes_sessions_def duplex_lib_def)
  moreover have "pg_buffers (example_duplex 3 2) (rs_id (example_end 3 2)) = Some 1"
    by (simp add: example_duplex_def example_end_def Rdma_new_def)
  moreover have "rs_id (example_end 3 2) = ''X''" by (simp add: example_end_def Rdma_new_def)
  ultimately show ?thesis
    using rdma_stream_turns [OF example_sides_duplex example_requests_ok example_responses_ok _ example_duplex_ends(1) _ _
        example_duplex_at _ _ _ example_duplex_ends(2) example_turns_run
          example_turns_fit]
    by (simp add: example_end_def Rdma_new_def example_sides_def)
qed

text \<open>
  In particular, whatever the
  order of the client's calls and the turns of the service, as long as the client has at most \<open>k\<close>
  requests unanswered, no call fails or waits, the loop goes on, and the responses that the client has taken are
  the first ones of the reference function for its requests.
\<close>

theorem rdma_stream_window:
  assumes "rdma_duplex lib co" and "codec_ok rq" and "codec_ok rs"
    and "rdma_at tp client mp" and "im_connectedWriteSession (rs_imp client) = rc_peer_write co"
    and "im_connectedReadSession (rs_imp client) = rc_peer_read co"
    and "rdma_at t this pg" and "im_connectedWriteSession (rs_imp this) = rc_write co"
    and "im_connectedReadSession (rs_imp this) = rc_read co"
    and "rdma_links rq rs co k k (mc_rdma mp) [] []"
    and "in_window k ms 0 0 0" and "readers \<noteq> []"
    and "serve fresh readers writers (map sent_values (asks ms)) w = (outs, Inr w')"
    and "list_all (\<lambda>q. \<not> sw_cancel q) (asks ms)" and "list_all (rdma_sendable co rq) (asks ms)"
    and "list_all (rdma_sendable co rs) (responses readers outs)"
  shows "\<exists>s. stream_steps lib rq rs fresh readers writers tp t ms (stream_start mp pg w) = Inr s \<and>
    sm_running s \<and> sm_got s = take (takes ms) (responses readers outs)"
  using assms by (rule rdma_stream_over_window)

theorem rdma_stream_window_witness:
  "\<exists>s. stream_steps (duplex_lib 64 2) example_requests example_responses 0 [counter] [recorder] 1 1 example_moves
      (stream_start ((example_duplex 1 4)\<lparr>mc_rdma := duplex_start 2\<rparr>) (example_duplex 3 2) []) = Inr s \<and>
    sm_running s \<and> sm_got s = [response [1], response [2], response [3]]"
proof -
  let ?mp = "(example_duplex 1 4)\<lparr>mc_rdma := duplex_start 2\<rparr>"
  have "takes example_moves = 3" by (simp add: example_moves_def)
  moreover have "\<exists>s. stream_steps (duplex_lib 64 2) example_requests example_responses 0 [counter] [recorder] 1 1 example_moves
      (stream_start ?mp (example_duplex 3 2) []) = Inr s \<and>
    sm_running s \<and> sm_got s = take (takes example_moves) (responses [counter] [[1], [2], [3]])"
    by (rule rdma_stream_window [OF example_sides_duplex example_requests_ok example_responses_ok example_duplex_ends(1) _ _
          example_duplex_at _ _ example_duplex_ends(2) example_moves_fit(1) _ example_moves_serve example_moves_fit(2-4)])
      (simp_all add: example_end_def Rdma_new_def example_sides_def)
  ultimately show ?thesis by (simp add: responses_def)
qed

end
