(* ===== verification/RdmaSession.thy ===== *)
theory RdmaSession
  imports RdmaStream RdmaHandshake
begin

text \<open>
  An RDMA connection from the beginning: the client's \<open>ClientInit\<close>, the two accepting loops of the
  server (\<^verbatim>\<open>src/sideband_rdma.cc\<close>) and the stream over the connection that they have made.
\<close>

section \<open>What the library promises about connecting\<close>

text \<open>
  The steps of making one connection, in the order in which they take effect: two connector
  sessions are created and connected, one on a port of the server for receiving and one on the next
  port for sending, and the server's listeners hand out the sessions at the other end.
  \<open>stage i S rd\<close>: in state \<open>rd\<close> the first \<open>i\<close> steps are done and the sessions \<open>S\<close> have their
  buffers. When all steps are done and the receiving sessions have two buffers each, two messages can
  be sent in either direction.
\<close>

definition connects :: "'s easyrdma \<Rightarrow> string \<Rightarrow> string \<Rightarrow> int \<Rightarrow> session \<Rightarrow> session \<Rightarrow> 's rdma_connection \<Rightarrow>
    (nat \<Rightarrow> session set \<Rightarrow> 's rdma \<Rightarrow> bool) \<Rightarrow> bool" where
  "connects lib local host port sends receives co stage \<longleftrightarrow>
     (\<forall>S rd. stage 0 S rd \<longrightarrow> (\<exists>e rd'. er_CreateConnectorSession lib local 0 (er_InvalidSession lib) rd =
        Inr (e, rc_peer_read co, rd') \<and> stage 1 S rd')) \<and>
     (\<forall>S rd. stage 1 S rd \<longrightarrow> (\<exists>rd'. er_Connect lib (rc_peer_read co) (er_Direction_Receive lib) host port timeoutMs rd =
        Inr (er_Error_Success lib, rd') \<and> stage 2 S rd')) \<and>
     (\<forall>S rd. stage 2 S rd \<longrightarrow> (\<exists>e rd'. er_CreateConnectorSession lib local 0 (er_InvalidSession lib) rd =
        Inr (e, rc_peer_write co, rd') \<and> stage 3 S rd')) \<and>
     (\<forall>S rd. stage 3 S rd \<longrightarrow> (\<exists>rd'. er_Connect lib (rc_peer_write co) (er_Direction_Send lib) host (port + 1) timeoutMs rd =
        Inr (er_Error_Success lib, rd') \<and> stage 4 S rd')) \<and>
     (\<forall>S rd. stage 4 S rd \<longrightarrow> (\<exists>rd'. er_Accept lib sends (er_Direction_Send lib) timeoutMs (er_InvalidSession lib) rd =
        Inr (0, rc_write co, rd') \<and> stage 5 S rd')) \<and>
     (\<forall>S rd. stage 5 S rd \<longrightarrow> (\<exists>rd'. er_Accept lib receives (er_Direction_Receive lib) timeoutMs (er_InvalidSession lib) rd =
        Inr (0, rc_read co, rd') \<and> stage 6 S rd')) \<and>
     (\<forall>i S s e rd rd'. stage i S rd \<and> er_ConfigureBuffers lib s (of_nat (rc_cap co)) 2 rd = Inr (e, rd') \<longrightarrow>
        stage i (insert s S) rd') \<and>
     (\<forall>i S s e rd rd'. stage i S rd \<and> er_SetUseRxPolling lib s True rd = Inr (e, rd') \<longrightarrow> stage i S rd') \<and>
     (\<forall>S rd. stage 6 S rd \<and> rc_read co \<in> S \<and> rc_peer_read co \<in> S \<longrightarrow>
        (\<exists>b c. 2 \<le> b \<and> 2 \<le> c \<and> link_now (rc_in co) rd = ([], c, 0) \<and> link_now (rc_out co) rd = ([], b, 0))) \<and>
     rc_write co \<noteq> er_InvalidSession lib \<and> rc_read co \<noteq> er_InvalidSession lib \<and>
     er_Direction_Receive lib \<noteq> er_Direction_Send lib"

lemma connects_steps:
  assumes "connects lib local host port sends receives co stage"
  shows "stage 0 S rd \<Longrightarrow> \<exists>e rd'. er_CreateConnectorSession lib local 0 (er_InvalidSession lib) rd =
      Inr (e, rc_peer_read co, rd') \<and> stage 1 S rd'"
    and "stage 1 S rd \<Longrightarrow> \<exists>rd'. er_Connect lib (rc_peer_read co) (er_Direction_Receive lib) host port timeoutMs rd =
      Inr (er_Error_Success lib, rd') \<and> stage 2 S rd'"
    and "stage 2 S rd \<Longrightarrow> \<exists>e rd'. er_CreateConnectorSession lib local 0 (er_InvalidSession lib) rd =
      Inr (e, rc_peer_write co, rd') \<and> stage 3 S rd'"
    and "stage 3 S rd \<Longrightarrow> \<exists>rd'. er_Connect lib (rc_peer_write co) (er_Direction_Send lib) host (port + 1) timeoutMs rd =
      Inr (er_Error_Success lib, rd') \<and> stage 4 S rd'"
    and "stage 4 S rd \<Longrightarrow> \<exists>rd'. er_Accept lib sends (er_Direction_Send lib) timeoutMs (er_InvalidSession lib) rd =
      Inr (0, rc_write co, rd') \<and> stage 5 S rd'"
    and "stage 5 S rd \<Longrightarrow> \<exists>rd'. er_Accept lib receives (er_Direction_Receive lib) timeoutMs (er_InvalidSession lib) rd =
      Inr (0, rc_read co, rd') \<and> stage 6 S rd'"
proof (goal_cases)
  case 1
  then show ?case by (rule assms [unfolded connects_def, THEN conjunct1, rule_format])
next
  case 2
  then show ?case by (rule assms [unfolded connects_def, THEN conjunct2, THEN conjunct1, rule_format])
next
  case 3
  then show ?case by (rule assms [unfolded connects_def, THEN conjunct2, THEN conjunct2, THEN conjunct1, rule_format])
next
  case 4
  then show ?case by (rule assms [unfolded connects_def, THEN conjunct2, THEN conjunct2, THEN conjunct2, THEN conjunct1, rule_format])
next
  case 5
  then show ?case by (rule assms [unfolded connects_def, THEN conjunct2, THEN conjunct2, THEN conjunct2, THEN conjunct2, THEN conjunct1, rule_format])
next
  case 6
  then show ?case by (rule assms [unfolded connects_def, THEN conjunct2, THEN conjunct2, THEN conjunct2, THEN conjunct2, THEN conjunct2, THEN conjunct1, rule_format])
qed

lemma connects_keeps:
  assumes "connects lib local host port sends receives co stage" and "stage i S rd"
  shows "er_ConfigureBuffers lib s (of_nat (rc_cap co)) 2 rd = Inr (e, rd') \<Longrightarrow> stage i (insert s S) rd'"
    and "er_SetUseRxPolling lib s True rd = Inr (e, rd') \<Longrightarrow> stage i S rd'"
  using assms unfolding connects_def by blast+

lemma connects_links:
  assumes "connects lib local host port sends receives co stage" and "stage 6 S rd"
    and "rc_read co \<in> S" and "rc_peer_read co \<in> S"
  shows "\<exists>b c. 2 \<le> b \<and> 2 \<le> c \<and> link_now (rc_in co) rd = ([], c, 0) \<and> link_now (rc_out co) rd = ([], b, 0)"
  using assms unfolding connects_def by blast

lemma connects_configures:
  assumes "connects lib local host port sends receives co stage" and "stage i S rd"
    and "Imp_new lib w r low (of_nat (rc_cap co)) rd = Inr (imp, rd')"
  shows "stage i (insert r (insert w S)) rd'"
proof -
  obtain e1 e2 rd1 where 1: "er_ConfigureBuffers lib w (of_nat (rc_cap co)) 2 rd = Inr (e1, rd1)"
    and 2: "er_ConfigureBuffers lib r (of_nat (rc_cap co)) 2 rd1 = Inr (e2, rd')"
    using assms(3) by (auto simp: Imp_new_def andThen_eq_Inr_iff)
  show ?thesis using connects_keeps(1) [OF assms(1) connects_keeps(1) [OF assms(1,2) 1] 2] .
qed

lemma new_rdma_object_library:
  assumes "new_rdma_object lib w r ident low n pg = Inr (t, pg')"
  shows "\<exists>imp. Imp_new lib w r low n (mc_rdma pg) = Inr (imp, mc_rdma pg')"
  using assms
  by (auto simp: new_rdma_object_def andThen_eq_Inr_iff dest!: new_object_Inr Register_Inr)

lemma connects_new_object:
  assumes "connects lib local host port sends receives co stage" and "stage i S (mc_rdma pg)"
    and "new_rdma_object lib w r ident low (of_nat (rc_cap co)) pg = Inr (t, pg')"
  shows "stage i (insert r (insert w S)) (mc_rdma pg')"
  using new_rdma_object_library [OF assms(3)] connects_configures [OF assms(1,2)] by blast

section \<open>The client\<close>

lemma client_connects:
  assumes lib: "connects lib local host port sends receives co stage" and works: "setup_works lib"
    and url: "GetRdmaAddress (pg_interfaces mp) = Inr local" "SplitUrlString url = [host, p]" "stoi p = Inr port"
    and start: "stage 0 {} (mc_rdma mp)"
    and addr: "mc_next mp \<noteq> 0" "mc_next mp + 1 \<noteq> 0" and free: "pg_buffers mp ident = None"
  shows "\<exists>mp1 this. Rdma_ClientInit lib url low ident (of_nat (rc_cap co)) mp = Inr (mc_next mp, mp1) \<and>
    rdma_at (mc_next mp) this mp1 \<and> im_connectedWriteSession (rs_imp this) = rc_peer_write co \<and>
    im_connectedReadSession (rs_imp this) = rc_peer_read co \<and> stage 4 {rc_peer_read co, rc_peer_write co} (mc_rdma mp1)"
proof -
  obtain e1 rd1 where 1: "er_CreateConnectorSession lib local 0 (er_InvalidSession lib) (mc_rdma mp) =
      Inr (e1, rc_peer_read co, rd1)" "stage 1 {} rd1"
    using connects_steps(1) [OF lib start] by blast
  obtain rd2 where 2: "er_Connect lib (rc_peer_read co) (er_Direction_Receive lib) host port timeoutMs rd1 =
      Inr (er_Error_Success lib, rd2)" "stage 2 {} rd2"
    using connects_steps(2) [OF lib 1(2)] by blast
  obtain rd' where poll: "er_SetUseRxPolling lib (rc_peer_read co) True rd2 = Inr (er_Error_Success lib, rd')"
    using works unfolding setup_works_def by blast
  define rd3 where "rd3 = (if low then rd' else rd2)"
  have 3: "stage 2 {} rd3" using connects_keeps(2) [OF lib 2(2) poll] 2(2) by (simp add: rd3_def)
  obtain e4 rd4 where 4: "er_CreateConnectorSession lib local 0 (er_InvalidSession lib) rd3 =
      Inr (e4, rc_peer_write co, rd4)" "stage 3 {} rd4"
    using connects_steps(3) [OF lib 3] by blast
  obtain rd5 where 5: "er_Connect lib (rc_peer_write co) (er_Direction_Send lib) host (port + 1) timeoutMs rd4 =
      Inr (er_Error_Success lib, rd5)" "stage 4 {} rd5"
    using connects_steps(4) [OF lib 4(2)] by blast
  obtain mp1 this where new: "new_rdma_object lib (rc_peer_write co) (rc_peer_read co) ident low (of_nat (rc_cap co))
      (mp\<lparr>mc_rdma := rd5\<rparr>) = Inr (mc_next mp, mp1)"
    and obj: "mc_objects mp1 (mc_next mp) = Some (RdmaSideband this)"
      "im_connectedWriteSession (rs_imp this) = rc_peer_write co" "im_connectedReadSession (rs_imp this) = rc_peer_read co"
    using new_rdma_object_registers [OF works, of "mp\<lparr>mc_rdma := rd5\<rparr>" ident "rc_peer_write co" "rc_peer_read co" low
        "of_nat (rc_cap co)"] addr free by auto
  have "stage 4 {rc_peer_read co, rc_peer_write co} (mc_rdma mp1)"
    using connects_new_object [OF lib _ new] 5(2) by simp
  moreover have "Rdma_ClientInit lib url low ident (of_nat (rc_cap co)) mp = Inr (mc_next mp, mp1)"
    using new poll 4(1) unfolding rd3_def
    by (cases low) (simp_all add: Rdma_ClientInit_def url 1(1) 2(1) 5(1) assert_success_def
        Imp_ClientInitFromConnection_def)
  ultimately show ?thesis using obj addr(1) by (auto simp: rdma_at_def)
qed

section \<open>The server\<close>

lemma accept_turn:
  assumes "er_Accept lib ls d timeoutMs (er_InvalidSession lib) (mc_rdma pg) = Inr (0, session, rd)"
    and "Imp_InitFromConnection lib session (d = er_Direction_Send lib) (pg\<lparr>mc_rdma := rd\<rparr>) = Inr (t, pg')"
  shows "accept_rdma_turn lib ls d pg = Inr pg'"
  using assms by (simp add: accept_rdma_turn_def)

lemma Init_stage:
  assumes lib: "connects lib local host port sends receives co stage" and "stage i S (mc_rdma pg)"
    and init: "Imp_InitFromConnection lib s isWrite pg = Inr (t, pg')" and "t \<noteq> 0"
    and rq: "rq = with_session s isWrite (pg_rdma pg)" and "rq_nextConnectBufferSize rq = of_nat (rc_cap co)"
  shows "stage i (insert (rq_pendingReadSession rq) (insert (rq_pendingWriteSession rq) S)) (mc_rdma pg')"
proof -
  define polls where "polls =
     (if rq_nextConnectLowLatency rq \<and> rq_pendingReadSession rq \<noteq> er_InvalidSession lib
      then andThen (er_SetUseRxPolling lib (rq_pendingReadSession rq) True (mc_rdma pg)) (\<lambda>(result, rd).
           andThen (assert_success (er_Error_Success lib) result) (\<lambda>u. Inr rd))
      else Inr (mc_rdma pg))"
  have "mc_rdma (pg\<lparr>pg_rdma := rq\<rparr>) = mc_rdma pg" by simp
  then obtain rd pg1 where polled: "polls = Inr rd"
    and new: "new_rdma_object lib (rq_pendingWriteSession rq) (rq_pendingReadSession rq) (rq_nextConnectionId rq)
      (rq_nextConnectLowLatency rq) (of_nat (rc_cap co)) (pg\<lparr>pg_rdma := rq, mc_rdma := rd\<rparr>) = Inr (t, pg1)"
    and pg': "mc_rdma pg' = mc_rdma pg1"
    using init assms(4,6)
    unfolding Imp_InitFromConnection_def with_session_def [symmetric] Let_def rq [symmetric]
    by (simp only: polls_def [symmetric]) (auto simp: andThen_eq_Inr_iff split: if_split_asm)
  have "stage i S rd"
    using polled assms(2) connects_keeps(2) [OF lib assms(2)]
    by (auto simp: polls_def andThen_eq_Inr_iff split: if_split_asm)
  then show ?thesis using connects_new_object [OF lib _ new] pg' by simp
qed

lemma server_accepts:
  assumes lib: "connects lib local host port sends receives co stage" and works: "setup_works lib"
    and queued: "Imp_QueueSidebandConnection lib strategy ident True True (of_nat (rc_cap co)) pg = Inr pg1"
    and idle: "Imp_idle pg" and stage: "stage 4 S rd"
    and addr: "mc_next pg \<noteq> 0" "mc_next pg + 1 \<noteq> 0" and free: "pg_buffers pg ident = None"
  shows "\<exists>pg2 pg3 this. accept_rdma_turn lib sends (er_Direction_Send lib) (pg1\<lparr>mc_rdma := rd\<rparr>) = Inr pg2 \<and>
    accept_rdma_turn lib receives (er_Direction_Receive lib) pg2 = Inr pg3 \<and>
    GetOwnerSidebandDataToken ident pg3 = Inr (0, mc_next pg) \<and> rdma_at (mc_next pg) this pg3 \<and>
    rs_id this = ident \<and> pg_buffers pg3 ident = Some (mc_next pg) \<and>
    im_connectedWriteSession (rs_imp this) = rc_write co \<and> im_connectedReadSession (rs_imp this) = rc_read co \<and>
    stage 6 (insert (rc_read co) (insert (rc_write co) S)) (mc_rdma pg3) \<and> Imp_idle pg3"
proof -
  have valid: "rc_write co \<noteq> er_InvalidSession lib" "rc_read co \<noteq> er_InvalidSession lib"
      "er_Direction_Receive lib \<noteq> er_Direction_Send lib"
    using lib unfolding connects_def by simp_all
  let ?rq = "\<lparr>rq_rdmaConnectQueue = 0,
         rq_pendingWriteSession = er_InvalidSession lib, rq_pendingReadSession = er_InvalidSession lib,
         rq_nextConnectLowLatency = (strategy = RDMA_LOW_LATENCY),
         rq_waitForReaderConnection = True, rq_waitForWriteConnection = True,
         rq_nextConnectBufferSize = of_nat (rc_cap co), rq_nextConnectionId = ident\<rparr>"
  have pg1: "pg1 = pg\<lparr>pg_rdma := ?rq\<rparr>"
    using queued idle
    by (auto simp: Imp_QueueSidebandConnection_def andThen_eq_Inr_iff Imp_idle_def Semaphore_wait_def
        Semaphore_initial_def)
  obtain rd5 where 5: "er_Accept lib sends (er_Direction_Send lib) timeoutMs (er_InvalidSession lib) rd =
      Inr (0, rc_write co, rd5)" "stage 5 S rd5"
    using connects_steps(5) [OF lib stage] by blast
  let ?pg2 = "pg\<lparr>mc_rdma := rd5, pg_rdma := with_session (rc_write co) True ?rq\<rparr>"
  have "Imp_InitFromConnection lib (rc_write co) True (pg1\<lparr>mc_rdma := rd5\<rparr>) = Inr (0, ?pg2)"
    using Init_incomplete [of lib "rc_write co" True "pg1\<lparr>mc_rdma := rd5\<rparr>"]
    by (simp add: pg1 sessions_complete_def with_session_def)
  then have first: "accept_rdma_turn lib sends (er_Direction_Send lib) (pg1\<lparr>mc_rdma := rd\<rparr>) = Inr ?pg2"
    using accept_turn [of lib sends "er_Direction_Send lib" "pg1\<lparr>mc_rdma := rd\<rparr>"] 5(1) by simp
  obtain rd6 where 6: "er_Accept lib receives (er_Direction_Receive lib) timeoutMs (er_InvalidSession lib) rd5 =
      Inr (0, rc_read co, rd6)" "stage 6 S rd6"
    using connects_steps(6) [OF lib 5(2)] by blast
  let ?pg = "?pg2\<lparr>mc_rdma := rd6\<rparr>" and ?rq2 = "with_session (rc_read co) False (with_session (rc_write co) True ?rq)"
  have pre: "sessions_complete lib ?rq2" "?rq2 = with_session (rc_read co) False (pg_rdma ?pg)"
    "mc_next ?pg \<noteq> 0" "mc_next ?pg + 1 \<noteq> 0" "pg_buffers ?pg (rq_nextConnectionId ?rq2) = None"
    using addr free valid by (simp_all add: sessions_complete_def with_session_def)
  obtain pg3 this where init: "Imp_InitFromConnection lib (rc_read co) False ?pg = Inr (mc_next ?pg, pg3)"
    and obj: "mc_objects pg3 (mc_next ?pg) = Some (RdmaSideband this)" "rs_id this = rq_nextConnectionId ?rq2"
      "im_connectedWriteSession (rs_imp this) = rq_pendingWriteSession ?rq2"
      "im_connectedReadSession (rs_imp this) = rq_pendingReadSession ?rq2"
    and reg: "pg_buffers pg3 = (pg_buffers ?pg)(rq_nextConnectionId ?rq2 \<mapsto> mc_next ?pg)"
    and rq3: "pg_rdma pg3 = ?rq2\<lparr>rq_rdmaConnectQueue := Semaphore_notify (rq_rdmaConnectQueue ?rq2)\<rparr>"
    using Init_registers [OF works pre] by blast
  have "accept_rdma_turn lib receives (er_Direction_Receive lib) ?pg2 = Inr pg3"
    using accept_turn [of lib receives "er_Direction_Receive lib" ?pg2] 6(1) init valid(3) by simp
  moreover have "stage 6 (insert (rc_read co) (insert (rc_write co) S)) (mc_rdma pg3)"
    using Init_stage [OF lib _ init _ pre(2), of 6 S] 6(2) addr by (simp add: with_session_def)
  ultimately show ?thesis
    using first obj reg rq3 addr
    by (intro exI [of _ ?pg2] exI [of _ pg3] exI [of _ this])
      (simp add: GetOwnerSidebandDataToken_def rdma_at_def Imp_idle_def Semaphore_notify_def Semaphore_initial_def
        with_session_def)
qed

section \<open>Properties\<close>

text \<open>The handshake as a whole: both processes have an end of the connection, and the links between them are empty.\<close>

lemma rdma_connected:
  assumes "connects lib local host port sends receives co stage" and "setup_works lib"
    and "Imp_QueueSidebandConnection lib strategy ident True True (of_nat (rc_cap co)) pg = Inr pg1" and "Imp_idle pg"
    and "pg_buffers pg ident = None" and "mc_next pg \<noteq> 0" and "mc_next pg + 1 \<noteq> 0"
    and "GetRdmaAddress (pg_interfaces mp) = Inr local" and "SplitUrlString url = [host, p]" and "stoi p = Inr port"
    and "pg_buffers mp ident = None" and "mc_next mp \<noteq> 0" and "mc_next mp + 1 \<noteq> 0" and "stage 0 {} (mc_rdma mp)"
  obtains tp mp1 pg2 t pg3 client this where
    "Rdma_ClientInit lib url low ident (of_nat (rc_cap co)) mp = Inr (tp, mp1)"
    "accept_rdma_turn lib sends (er_Direction_Send lib) (pg1\<lparr>mc_rdma := mc_rdma mp1\<rparr>) = Inr pg2"
    "accept_rdma_turn lib receives (er_Direction_Receive lib) pg2 = Inr pg3"
    "GetOwnerSidebandDataToken ident pg3 = Inr (0, t)" "Imp_idle pg3"
    "rdma_at tp client (mp1\<lparr>mc_rdma := mc_rdma pg3\<rparr>)" "im_connectedWriteSession (rs_imp client) = rc_peer_write co"
    "im_connectedReadSession (rs_imp client) = rc_peer_read co"
    "rdma_at t this pg3" "im_connectedWriteSession (rs_imp this) = rc_write co"
    "im_connectedReadSession (rs_imp this) = rc_read co" "rs_id this = ident" "pg_buffers pg3 ident = Some t"
    "rdma_links rq rs co 2 2 (mc_rdma (mp1\<lparr>mc_rdma := mc_rdma pg3\<rparr>)) [] []"
proof -
  obtain mp1 client where client: "Rdma_ClientInit lib url low ident (of_nat (rc_cap co)) mp = Inr (mc_next mp, mp1)"
    "rdma_at (mc_next mp) client mp1" "im_connectedWriteSession (rs_imp client) = rc_peer_write co"
    "im_connectedReadSession (rs_imp client) = rc_peer_read co" "stage 4 {rc_peer_read co, rc_peer_write co} (mc_rdma mp1)"
    using client_connects [OF assms(1,2,8,9,10,14,12,13,11)] by blast
  obtain pg2 pg3 this where server: "accept_rdma_turn lib sends (er_Direction_Send lib) (pg1\<lparr>mc_rdma := mc_rdma mp1\<rparr>) = Inr pg2"
    "accept_rdma_turn lib receives (er_Direction_Receive lib) pg2 = Inr pg3"
    "GetOwnerSidebandDataToken ident pg3 = Inr (0, mc_next pg)" "rdma_at (mc_next pg) this pg3"
    "rs_id this = ident" "pg_buffers pg3 ident = Some (mc_next pg)"
    "im_connectedWriteSession (rs_imp this) = rc_write co" "im_connectedReadSession (rs_imp this) = rc_read co"
    "stage 6 (insert (rc_read co) (insert (rc_write co) {rc_peer_read co, rc_peer_write co})) (mc_rdma pg3)" "Imp_idle pg3"
    using server_accepts [OF assms(1,2,3,4) client(5) assms(6,7,5)] by blast
  let ?mp = "mp1\<lparr>mc_rdma := mc_rdma pg3\<rparr>"
  have at: "rdma_at (mc_next mp) client ?mp" using client(2) by (simp add: rdma_at_def)
  have links: "rdma_links rq rs co 2 2 (mc_rdma ?mp) [] []"
    using connects_links [OF assms(1) server(9)] by (auto simp: rdma_links_def link_has_def)
  show ?thesis by (rule that [OF client(1) server(1-3,10) at client(3,4) server(4,7,8,5,6) links])
qed

text \<open>
  C2. A connection over RDMA from the request to the end of the stream: the server queues a connection, the
  client calls \<open>ClientInit\<close> with the address of the server and the identifier, and each of the
  server's accepting loops makes one turn. Then the owner of the identifier gets a token, the next
  request can be queued, and over the two tokens the two ends carry out every run of the abstract machine with two
  places in each direction, up to the close.
\<close>

theorem rdma_session_turns:
  assumes "connects lib local host port sends receives co stage" and "setup_works lib" and "rdma_duplex lib co"
    and "closes_sessions lib"
    and "Imp_QueueSidebandConnection lib strategy ident True True (of_nat (rc_cap co)) pg = Inr pg1" and "Imp_idle pg"
    and "pg_buffers pg ident = None" and "mc_next pg \<noteq> 0" and "mc_next pg + 1 \<noteq> 0"
    and "GetRdmaAddress (pg_interfaces mp) = Inr local" and "SplitUrlString url = [host, p]" and "stoi p = Inr port"
    and "pg_buffers mp ident = None" and "mc_next mp \<noteq> 0" and "mc_next mp + 1 \<noteq> 0" and "stage 0 {} (mc_rdma mp)"
    and "codec_ok rq" and "codec_ok rs"
    and "exchange_steps 2 (\<lambda>outs. outs = []) fresh readers writers ms (exchange_start w) = Some (rl, Inr a)"
    and "list_all (rdma_sendable co rq) (asks ms)" and "list_all (rdma_sendable co rs) rl"
  shows "\<exists>tp mp1 pg2 t pg3 s. Rdma_ClientInit lib url low ident (of_nat (rc_cap co)) mp = Inr (tp, mp1) \<and>
    accept_rdma_turn lib sends (er_Direction_Send lib) (pg1\<lparr>mc_rdma := mc_rdma mp1\<rparr>) = Inr pg2 \<and>
    accept_rdma_turn lib receives (er_Direction_Receive lib) pg2 = Inr pg3 \<and>
    GetOwnerSidebandDataToken ident pg3 = Inr (0, t) \<and> Imp_idle pg3 \<and>
    stream_steps lib rq rs fresh readers writers tp t ms (stream_start (mp1\<lparr>mc_rdma := mc_rdma pg3\<rparr>) pg3 w) = Inr s \<and>
    sm_got s = ex_got a \<and> sm_endpoints s = ex_endpoints a \<and> sm_running s = ex_open a \<and>
    (\<not> ex_open a \<longrightarrow> pg_buffers (sm_server s) ident = None \<and> mc_objects (sm_server s) t = None)"
proof (rule rdma_connected [OF assms(1,2,5-16), where low = low and rq = rq and rs = rs], goal_cases)
  case (1 tp mp1 pg2 t pg3 client this)
  have "pg_buffers pg3 (rs_id this) = Some t" using 1(12,13) by simp
  from rdma_stream_over_turns [OF assms(3,17,18,4) 1(6-11) this 1(14) assms(19-21)]
  show ?case using 1(1-5,12) by auto
qed

text \<open>In particular, with at most two requests unanswered the client takes the first responses of the reference function.\<close>

theorem rdma_session:
  assumes "connects lib local host port sends receives co stage" and "setup_works lib" and "rdma_duplex lib co"
    and "Imp_QueueSidebandConnection lib strategy ident True True (of_nat (rc_cap co)) pg = Inr pg1" and "Imp_idle pg"
    and "pg_buffers pg ident = None" and "mc_next pg \<noteq> 0" and "mc_next pg + 1 \<noteq> 0"
    and "GetRdmaAddress (pg_interfaces mp) = Inr local" and "SplitUrlString url = [host, p]" and "stoi p = Inr port"
    and "pg_buffers mp ident = None" and "mc_next mp \<noteq> 0" and "mc_next mp + 1 \<noteq> 0" and "stage 0 {} (mc_rdma mp)"
    and "codec_ok rq" and "codec_ok rs" and "in_window 2 ms 0 0 0" and "readers \<noteq> []"
    and "serve fresh readers writers (map sent_values (asks ms)) w = (outs, Inr w')"
    and "list_all (\<lambda>q. \<not> sw_cancel q) (asks ms)" and "list_all (rdma_sendable co rq) (asks ms)"
    and "list_all (rdma_sendable co rs) (responses readers outs)"
  shows "\<exists>tp mp1 pg2 t pg3 s. Rdma_ClientInit lib url low ident (of_nat (rc_cap co)) mp = Inr (tp, mp1) \<and>
    accept_rdma_turn lib sends (er_Direction_Send lib) (pg1\<lparr>mc_rdma := mc_rdma mp1\<rparr>) = Inr pg2 \<and>
    accept_rdma_turn lib receives (er_Direction_Receive lib) pg2 = Inr pg3 \<and>
    GetOwnerSidebandDataToken ident pg3 = Inr (0, t) \<and> Imp_idle pg3 \<and>
    stream_steps lib rq rs fresh readers writers tp t ms (stream_start (mp1\<lparr>mc_rdma := mc_rdma pg3\<rparr>) pg3 w) = Inr s \<and>
    sm_got s = take (takes ms) (responses readers outs)"
proof (rule rdma_connected [OF assms(1,2,4-15), where low = low and rq = rq and rs = rs], goal_cases)
  case (1 tp mp1 pg2 t pg3 client this)
  from rdma_stream_over_window [OF assms(3,16,17) 1(6-11,14) assms(18-23)]
  show ?case using 1(1-5) by blast
qed

text \<open>The library of the other examples keeps its promises about connecting too.\<close>

definition example_stage :: "nat \<Rightarrow> session set \<Rightarrow> duplex rdma \<Rightarrow> bool" where
  "example_stage i S rd \<longleftrightarrow> dx_stage (rd_lib rd) = i \<and>
     dx_first (rd_lib rd) = \<lparr>lk_queued = [], lk_credits = 2, lk_held = 0, lk_lent = {}\<rparr> \<and>
     dx_second (rd_lib rd) = \<lparr>lk_queued = [], lk_credits = 2, lk_held = 0, lk_lent = {}\<rparr>"

lemma duplex_connects: "connects (duplex_lib 64 2) local host port sends receives example_sides example_stage"
  by (simp add: connects_def duplex_lib_def example_sides_def example_stage_def next_stage_def link_now_def)

lemma duplex_setup_works: "setup_works (duplex_lib cap bufs)"
  by (simp add: setup_works_def duplex_lib_def)

definition example_process :: "duplex program" where
  "example_process = (example_duplex 1 4)\<lparr>mc_objects := Map.empty, mc_next := 1, mc_rdma := duplex_start 2,
     pg_buffers := Map.empty, pg_interfaces := [''10.0.0.1'']\<rparr>"

lemma example_queued:
  "\<exists>pg1. Imp_QueueSidebandConnection (duplex_lib 64 2) RDMA ''ID:         2'' True True (of_nat (rc_cap example_sides))
    example_process = Inr pg1"
  by (simp add: Imp_QueueSidebandConnection_def Semaphore_wait_def Semaphore_initial_def example_process_def
      example_duplex_def example_program_def)

lemma example_process_simps:
  "Imp_idle example_process" "pg_buffers example_process = Map.empty" "mc_next example_process = 1"
  "GetRdmaAddress (pg_interfaces example_process) = Inr ''10.0.0.1''" "mc_rdma example_process = duplex_start 2"
  by (simp_all add: Imp_idle_def example_process_def example_duplex_def example_program_def GetRdmaAddress_def)

lemma example_peer: "SplitUrlString ''10.0.0.7:7'' = [''10.0.0.7'', ''7'']" "stoi ''7'' = Inr 7"
  using SplitUrlString_token [of "''10.0.0.7''" "''7''"] by (simp_all add: SplitUrlString_last) code_simp

lemma example_duplex_lib:
  "closes_sessions (duplex_lib cap bufs)" "(of_nat (rc_cap example_sides) :: int64) = 64"
  "er_Direction_Send (duplex_lib cap bufs) = 0" "er_Direction_Receive (duplex_lib cap bufs) = 1"
  by (simp_all add: closes_sessions_def duplex_lib_def example_sides_def)

theorem rdma_session_turns_witness:
  "\<exists>pg1 tp mp1 pg2 t pg3 s.
    Imp_QueueSidebandConnection (duplex_lib 64 2) RDMA ''ID:         2'' True True 64 example_process = Inr pg1 \<and>
    Rdma_ClientInit (duplex_lib 64 2) ''10.0.0.7:7'' False ''ID:         2'' 64 example_process = Inr (tp, mp1) \<and>
    accept_rdma_turn (duplex_lib 64 2) 8 0 (pg1\<lparr>mc_rdma := mc_rdma mp1\<rparr>) = Inr pg2 \<and>
    accept_rdma_turn (duplex_lib 64 2) 9 1 pg2 = Inr pg3 \<and>
    GetOwnerSidebandDataToken ''ID:         2'' pg3 = Inr (0, t) \<and>
    stream_steps (duplex_lib 64 2) example_requests example_responses 0 [counter] [recorder] tp t example_turns
      (stream_start (mp1\<lparr>mc_rdma := mc_rdma pg3\<rparr>) pg3 []) = Inr s \<and>
    sm_got s = [response [1], response [2], response [3]] \<and> \<not> sm_running s \<and> pg_buffers (sm_server s) ''ID:         2'' = None"
proof -
  let ?id = "''ID:         2''" and ?size = "of_nat (rc_cap example_sides)" and ?lib = "duplex_lib 64 2"
  let ?a = "\<lparr>ex_asked = [], ex_sent = [], ex_got = [response [1], response [2], response [3]], ex_endpoints = [7, 9, 8],
      ex_open = False\<rparr> :: (byte, byte list) exchange"
  obtain pg1 where queued: "Imp_QueueSidebandConnection ?lib RDMA ?id True True ?size example_process = Inr pg1"
    using example_queued by blast
  have "\<exists>tp mp1 pg2 t pg3 s. Rdma_ClientInit ?lib ''10.0.0.7:7'' False ?id ?size example_process = Inr (tp, mp1) \<and>
      accept_rdma_turn ?lib 8 (er_Direction_Send ?lib) (pg1\<lparr>mc_rdma := mc_rdma mp1\<rparr>) = Inr pg2 \<and>
      accept_rdma_turn ?lib 9 (er_Direction_Receive ?lib) pg2 = Inr pg3 \<and>
      GetOwnerSidebandDataToken ?id pg3 = Inr (0, t) \<and> Imp_idle pg3 \<and>
      stream_steps ?lib example_requests example_responses 0 [counter] [recorder] tp t example_turns
        (stream_start (mp1\<lparr>mc_rdma := mc_rdma pg3\<rparr>) pg3 []) = Inr s \<and>
      sm_got s = ex_got ?a \<and> sm_endpoints s = ex_endpoints ?a \<and> sm_running s = ex_open ?a \<and>
      (\<not> ex_open ?a \<longrightarrow> pg_buffers (sm_server s) ?id = None \<and> mc_objects (sm_server s) t = None)"
    by (rule rdma_session_turns [OF duplex_connects duplex_setup_works example_sides_duplex example_duplex_lib(1) queued
          example_process_simps(1) _ _ _ example_process_simps(4) example_peer _ _ _ _ example_requests_ok
          example_responses_ok example_turns_run example_turns_fit])
      (simp_all add: example_process_simps example_stage_def duplex_start_def Let_def)
  then show ?thesis using queued by (simp only: example_duplex_lib exchange.simps) blast
qed

theorem rdma_session_witness:
  "\<exists>pg1 tp mp1 pg2 t pg3 s.
    Imp_QueueSidebandConnection (duplex_lib 64 2) RDMA ''ID:         2'' True True 64 example_process = Inr pg1 \<and>
    Rdma_ClientInit (duplex_lib 64 2) ''10.0.0.7:7'' False ''ID:         2'' 64 example_process = Inr (tp, mp1) \<and>
    accept_rdma_turn (duplex_lib 64 2) 8 0 (pg1\<lparr>mc_rdma := mc_rdma mp1\<rparr>) = Inr pg2 \<and>
    accept_rdma_turn (duplex_lib 64 2) 9 1 pg2 = Inr pg3 \<and>
    GetOwnerSidebandDataToken ''ID:         2'' pg3 = Inr (0, t) \<and>
    stream_steps (duplex_lib 64 2) example_requests example_responses 0 [counter] [recorder] tp t example_moves
      (stream_start (mp1\<lparr>mc_rdma := mc_rdma pg3\<rparr>) pg3 []) = Inr s \<and>
    sm_got s = [response [1], response [2], response [3]]"
proof -
  obtain pg1 where queued: "Imp_QueueSidebandConnection (duplex_lib 64 2) RDMA ''ID:         2'' True True
      (of_nat (rc_cap example_sides)) example_process = Inr pg1"
    using example_queued by blast
  have "\<exists>tp mp1 pg2 t pg3 s. Rdma_ClientInit (duplex_lib 64 2) ''10.0.0.7:7'' False ''ID:         2''
        (of_nat (rc_cap example_sides)) example_process = Inr (tp, mp1) \<and>
      accept_rdma_turn (duplex_lib 64 2) 8 (er_Direction_Send (duplex_lib 64 2)) (pg1\<lparr>mc_rdma := mc_rdma mp1\<rparr>) = Inr pg2 \<and>
      accept_rdma_turn (duplex_lib 64 2) 9 (er_Direction_Receive (duplex_lib 64 2)) pg2 = Inr pg3 \<and>
      GetOwnerSidebandDataToken ''ID:         2'' pg3 = Inr (0, t) \<and> Imp_idle pg3 \<and>
      stream_steps (duplex_lib 64 2) example_requests example_responses 0 [counter] [recorder] tp t example_moves
        (stream_start (mp1\<lparr>mc_rdma := mc_rdma pg3\<rparr>) pg3 []) = Inr s \<and>
      sm_got s = take (takes example_moves) (responses [counter] [[1], [2], [3]])"
    by (rule rdma_session [OF duplex_connects duplex_setup_works example_sides_duplex queued example_process_simps(1)
          _ _ _ example_process_simps(4) example_peer _ _ _ _ example_requests_ok example_responses_ok example_moves_fit(1) _ example_moves_serve
          example_moves_fit(2-4)])
      (simp_all add: example_process_simps example_stage_def duplex_start_def Let_def)
  moreover have "take (takes example_moves) (responses [counter] [[1], [2], [3]]) = [response [1], response [2], response [3]]"
    by (simp add: example_moves_def responses_def)
  ultimately show ?thesis using queued by (simp only: example_duplex_lib) blast
qed

end
