(* ===== verification/MachineInvariant.thy ===== *)
theory MachineInvariant
  imports SidebandApi
begin

text \<open>
  The memory that the processes of a machine share (\<^verbatim>\<open>src/sideband_shared_memory.cc\<close> under the
  calls of \<^verbatim>\<open>src/sideband_data.cc\<close>). Processes run in any interleaving of their calls, each with
  objects of its own and all with the names, objects and mappings of one machine. The invariant says that the
  buffers of the live objects are in one-to-one correspondence with the mappings.
\<close>

section \<open>Who holds which mapping\<close>

text \<open>The shared-memory buffers of an object: one, two, or none.\<close>

fun half :: "sideband \<Rightarrow> which \<Rightarrow> SharedMemorySidebandData option" where
  "half (ShmSideband this) BufA = Some this"
| "half (ShmSideband this) BufB = None"
| "half (DblSideband d) w = Some (Dbl_buf w d)"
| "half (SocketSideband this) w = None"
| "half (RdmaSideband this) w = None"

lemma half_Shm: "half (ShmSideband this) w = (if w = BufA then Some this else None)"
  by (cases w) simp_all

text \<open>
  A buffer is unmapped, failed to be mapped, or is the start of an intact mapping of its size. No two
  buffers share a mapping, and there is no mapping beside these but what is left of partly unmapped ones.
\<close>

definition half_ok :: "posix_shm \<Rightarrow> SharedMemorySidebandData \<Rightarrow> bool" where
  "half_ok px this \<longleftrightarrow> shm_buffer this = nullptr \<or> shm_buffer this = MAP_FAILED \<or>
     (\<exists>m ob. shm_buffer this = PMap m 0 \<and> shm_fileName this = Shm_path this \<and>
        px_maps px m = Some \<lparr>mp_obj = ob, mp_first = 0, mp_len = Shm_len this\<rparr>)"

definition holds :: "('k \<Rightarrow> SharedMemorySidebandData option) \<Rightarrow> 'k \<Rightarrow> nat \<Rightarrow> bool" where
  "holds hs k m \<longleftrightarrow> (\<exists>this. hs k = Some this \<and> shm_buffer this = PMap m 0)"

definition mappings_ok :: "('k \<Rightarrow> SharedMemorySidebandData option) \<Rightarrow> posix_shm \<Rightarrow> bool" where
  "mappings_ok hs px \<longleftrightarrow> wf_posix px \<and>
     (\<forall>k this. hs k = Some this \<longrightarrow> half_ok px this) \<and>
     (\<forall>k k' m. holds hs k m \<longrightarrow> holds hs k' m \<longrightarrow> k = k') \<and>
     (\<forall>m mp. px_maps px m = Some mp \<longrightarrow> mp_first mp = 0 \<longrightarrow> (\<exists>k. holds hs k m))"

section \<open>One buffer\<close>

text \<open>What an operation does to a buffer: nothing, a failing attempt to map it, or a new mapping.\<close>

inductive remaps :: "(nat \<rightharpoonup> shm_mapping) \<Rightarrow> SharedMemorySidebandData \<Rightarrow> (nat \<rightharpoonup> shm_mapping) \<Rightarrow>
    SharedMemorySidebandData \<Rightarrow> bool" where
  unchanged: "shm_buffer b = shm_buffer a \<Longrightarrow> shm_fileName b = shm_fileName a \<Longrightarrow> remaps maps a maps b"
| failed: "shm_buffer a = nullptr \<Longrightarrow> shm_buffer b = nullptr \<or> shm_buffer b = MAP_FAILED \<Longrightarrow> remaps maps a maps b"
| mapped: "shm_buffer a = nullptr \<Longrightarrow> maps m = None \<Longrightarrow> shm_buffer b = PMap m 0 \<Longrightarrow> shm_fileName b = Shm_path a \<Longrightarrow>
    remaps maps a (maps(m \<mapsto> \<lparr>mp_obj = ob, mp_first = 0, mp_len = Shm_len a\<rparr>)) b"

definition half_step :: "posix_shm \<Rightarrow> SharedMemorySidebandData \<Rightarrow> posix_shm \<Rightarrow> SharedMemorySidebandData \<Rightarrow> bool" where
  "half_step px a px' b \<longleftrightarrow> wf_posix px' \<and> shm_id b = shm_id a \<and> shm_bufferSize b = shm_bufferSize a \<and>
     remaps (px_maps px) a (px_maps px') b"

lemma half_step_refl: "wf_posix px' \<Longrightarrow> px_maps px' = px_maps px \<Longrightarrow> half_step px a px' a"
  by (simp add: half_step_def unchanged)

lemma remaps_trans:
  assumes "remaps maps a maps1 b" and "remaps maps1 b maps2 c" and "shm_id b = shm_id a" and "shm_bufferSize b = shm_bufferSize a"
  shows "remaps maps a maps2 c"
  using assms(1)
proof cases
  case unchanged
  from assms(2) show ?thesis
    by cases (use unchanged assms(3,4) in \<open>auto simp: Shm_path_def intro: remaps.intros\<close>)
next
  case failed
  from assms(2) show ?thesis
    by cases (use failed assms(3,4) in \<open>auto simp: Shm_path_def intro: remaps.intros\<close>)
next
  case (mapped m ob)
  from assms(2) show ?thesis
    by cases (use mapped assms(3,4) in \<open>auto intro: remaps.mapped\<close>)
qed

lemma half_step_trans: "half_step px a px1 b \<Longrightarrow> half_step px1 b px2 c \<Longrightarrow> half_step px a px2 c"
  unfolding half_step_def by (auto intro: remaps_trans)

lemma posix_maps [simp]:
  "px_maps (snd (shm_open name px)) = px_maps px" "px_maps (snd (ftruncate fd len px)) = px_maps px"
  "px_maps (shm_unlink name px) = px_maps px"
  by (simp_all add: shm_open_def ftruncate_def shm_unlink_def Let_def split: option.splits)

lemma ptr_write_maps: "ptr_write px p bs = Inr px' \<Longrightarrow> px_maps px' = px_maps px"
  by (auto simp: ptr_write_def split: ptr.splits dest: shm_write_maps)

lemma memcpy_to_maps: "memcpy_to px p src n = Inr px' \<Longrightarrow> px_maps px' = px_maps px"
  by (auto simp: memcpy_to_def split: if_splits dest: ptr_write_maps)

lemma mmap_new:
  assumes "mmap len fd px = (p, px')" and "wf_posix px"
  shows "p = MAP_FAILED \<and> px' = px \<or> (\<exists>m ob. p = PMap m 0 \<and> px_maps px m = None \<and>
    px_maps px' = (px_maps px)(m \<mapsto> \<lparr>mp_obj = ob, mp_first = 0, mp_len = unat len\<rparr>))"
proof -
  have "px_maps px (px_fresh px) = None"
    using wf_posix_maps(1) [OF assms(2), of "px_fresh px"] by (cases "px_maps px (px_fresh px)") auto
  then show ?thesis using assms(1) by (auto simp: mmap_def split: option.splits if_splits)
qed

lemma Shm_GetBuffer_half:
  assumes get: "Shm_GetBuffer this px = (p, this', px')" and wf: "wf_posix px"
  shows "half_step px this px' this'"
proof (cases "shm_buffer this = nullptr")
  case True
  let ?name = "CHR ''/'' # shm_id this"
  obtain fd px1 where 1: "shm_open ?name px = (fd, px1)" by fastforce
  obtain r px2 where 2: "ftruncate fd (shm_bufferSize this) px1 = (r, px2)" by fastforce
  obtain q px3 where 3: "mmap (shm_bufferSize this) fd px2 = (q, px3)" by fastforce
  have maps: "px_maps px1 = px_maps px" "px_maps px2 = px_maps px"
    using posix_maps(1) [of ?name px] posix_maps(2) [of fd "shm_bufferSize this" px1] by (simp_all add: 1 2)
  have wf2: "wf_posix px2"
    using wf_ftruncate [OF wf_shm_open [OF wf, of ?name], of fd "shm_bufferSize this"] by (simp add: 1 2)
  from mmap_new [OF 3 wf2] maps show ?thesis
    using get True wf_Shm_GetBuffer [OF get wf] 1 2 3
    by (auto simp: Shm_GetBuffer_def Shm_Init_def Let_def half_step_def Shm_path_def remaps.simps split: if_split_asm)
next
  case False
  then show ?thesis using get wf by (simp add: Shm_GetBuffer_def half_step_refl)
qed

text \<open>Every operation gets the buffer and then accesses memory only.\<close>

lemma Shm_gets_buffer:
  "Shm_Write this bytes n px = Inr (ok, this', px') \<Longrightarrow>
    \<exists>p px1. Shm_GetBuffer this px = (p, this', px1) \<and> px_maps px' = px_maps px1 \<and> (wf_posix px1 \<longrightarrow> wf_posix px')"
  "Shm_Read this dst n nread px = Inr (ok, dst', nread', this', px') \<Longrightarrow> \<exists>p. Shm_GetBuffer this px = (p, this', px')"
  "Shm_WriteLengthPrefixed this bytes n px = Inr (ok, this', px') \<Longrightarrow>
    \<exists>p px1. Shm_GetBuffer this px = (p, this', px1) \<and> px_maps px' = px_maps px1 \<and> (wf_posix px1 \<longrightarrow> wf_posix px')"
  "Shm_ReadFromLengthPrefixed this dst n nread px = Inr (ok, dst', nread', this', px') \<Longrightarrow>
    \<exists>p. Shm_GetBuffer this px = (p, this', px')"
  "Shm_ReadLengthPrefix this px = Inr (k, this', px') \<Longrightarrow> \<exists>p. Shm_GetBuffer this px = (p, this', px')"
  "Shm_BeginDirectReadLengthPrefixed this n px = Inr (q, k, this', px') \<Longrightarrow> \<exists>p. Shm_GetBuffer this px = (p, this', px')"
  by (fastforce simp: Shm_Write_def Shm_Read_def Shm_WriteLengthPrefixed_def Shm_ReadFromLengthPrefixed_def
      Shm_ReadLengthPrefix_def Shm_BeginDirectReadLengthPrefixed_def andThen_eq_Inr_iff Let_def
      dest: memcpy_to_maps ptr_write_maps wf_memcpy_to wf_ptr_write split: prod.splits if_splits)+

lemma half_stepI:
  assumes "Shm_GetBuffer this px = (p, this', px1)" and "px_maps px' = px_maps px1" and "wf_posix px1 \<longrightarrow> wf_posix px'"
    and "wf_posix px"
  shows "half_step px this px' this'"
  using Shm_GetBuffer_half [OF assms(1,4)] assms(2,3) by (simp add: half_step_def)

lemma Shm_half:
  "Shm_Write this bytes n px = Inr (ok, this', px') \<Longrightarrow> wf_posix px \<Longrightarrow> half_step px this px' this'"
  "Shm_Read this dst n nread px = Inr (ok, dst', nread', this', px') \<Longrightarrow> wf_posix px \<Longrightarrow> half_step px this px' this'"
  "Shm_WriteLengthPrefixed this bytes n px = Inr (ok, this', px') \<Longrightarrow> wf_posix px \<Longrightarrow> half_step px this px' this'"
  "Shm_ReadFromLengthPrefixed this dst n nread px = Inr (ok, dst', nread', this', px') \<Longrightarrow> wf_posix px \<Longrightarrow>
    half_step px this px' this'"
  "Shm_ReadLengthPrefix this px = Inr (k, this', px') \<Longrightarrow> wf_posix px \<Longrightarrow> half_step px this px' this'"
  "Shm_BeginDirectReadLengthPrefixed this n px = Inr (p, k, this', px') \<Longrightarrow> wf_posix px \<Longrightarrow> half_step px this px' this'"
  by (blast dest: Shm_gets_buffer intro: half_stepI Shm_GetBuffer_half)+

section \<open>All buffers\<close>

lemma mappings_step:
  assumes ok: "mappings_ok hs px" and a: "hs k = Some a" and step: "half_step px a px' b"
  shows "mappings_ok (hs(k \<mapsto> b)) px'"
proof -
  have wf: "wf_posix px'" and same: "Shm_path b = Shm_path a" "shm_bufferSize b = shm_bufferSize a"
    and re: "remaps (px_maps px) a (px_maps px') b"
    using step by (auto simp: half_step_def Shm_path_def)
  have halves: "\<And>k this. hs k = Some this \<Longrightarrow> half_ok px this"
    and inj: "\<And>k k' m. holds hs k m \<Longrightarrow> holds hs k' m \<Longrightarrow> k = k'"
    and all: "\<And>m mp. px_maps px m = Some mp \<Longrightarrow> mp_first mp = 0 \<Longrightarrow> \<exists>k. holds hs k m"
    using ok unfolding mappings_ok_def by blast+
  have live: "px_maps px m \<noteq> None" if "holds hs k m" for k m
    using that halves by (fastforce simp: holds_def half_ok_def)
  from re show ?thesis
  proof cases
    case unchanged
    have "holds (hs(k \<mapsto> b)) = holds hs" using unchanged(2) a by (auto simp: holds_def fun_eq_iff)
    moreover have "half_ok px' this" if "(hs(k \<mapsto> b)) k' = Some this" for k' this
      using that halves [of k' this] halves [OF a] unchanged same by (auto simp: half_ok_def split: if_splits)
    ultimately show ?thesis using wf inj all unchanged(1) unfolding mappings_ok_def by simp
  next
    case failed
    have "holds (hs(k \<mapsto> b)) = holds hs" using failed(2,3) a by (auto simp: holds_def fun_eq_iff)
    moreover have "half_ok px' this" if "(hs(k \<mapsto> b)) k' = Some this" for k' this
      using that halves [of k' this] failed by (auto simp: half_ok_def split: if_splits)
    ultimately show ?thesis using wf inj all failed(1) unfolding mappings_ok_def by simp
  next
    case (mapped m ob)
    have holds: "holds (hs(k \<mapsto> b)) k' m' \<longleftrightarrow> (if k' = k then m' = m else holds hs k' m')" for k' m'
      using mapped(4) by (auto simp: holds_def)
    have free: "\<not> holds hs k m'" for m' using mapped(2) a by (simp add: holds_def)
    have fresh: "\<not> holds hs k' m" for k' using live mapped(3) by blast
    have "half_ok px' this" if "(hs(k \<mapsto> b)) k' = Some this" for k' this
    proof (cases "k' = k")
      case True
      then show ?thesis using that mapped(1,4,5) same by (simp add: half_ok_def)
    next
      case False
      then have this: "half_ok px this" using that halves by simp
      then show ?thesis using mapped(1,3) by (auto simp: half_ok_def)
    qed
    moreover have "k1 = k2" if "holds (hs(k \<mapsto> b)) k1 m'" "holds (hs(k \<mapsto> b)) k2 m'" for k1 k2 m'
      using that inj [of k1 m' k2] fresh [of k1] fresh [of k2] unfolding holds by (auto split: if_splits)
    moreover have "\<exists>k'. holds (hs(k \<mapsto> b)) k' m'" if m: "px_maps px' m' = Some mp" "mp_first mp = 0" for m' mp
    proof (cases "m' = m")
      case False
      then obtain k' where "holds hs k' m'" using m all [of m' mp] mapped(1) by auto
      then have "holds (hs(k \<mapsto> b)) k' m'" using free [of m'] unfolding holds by auto
      then show ?thesis by blast
    qed (use holds in auto)
    ultimately show ?thesis using wf unfolding mappings_ok_def by blast
  qed
qed

lemma mappings_quiet:
  "mappings_ok hs px \<Longrightarrow> wf_posix px' \<Longrightarrow> px_maps px' = px_maps px \<Longrightarrow> mappings_ok hs px'"
  by (simp add: mappings_ok_def half_ok_def)

text \<open>Objects that hold nothing come and go.\<close>

lemma mappings_new:
  assumes ok: "mappings_ok hs px"
    and new: "\<And>k. hs' k = hs k \<or> (\<forall>this. hs k = Some this \<longrightarrow> shm_buffer this = nullptr) \<and>
      (\<forall>this. hs' k = Some this \<longrightarrow> shm_buffer this = nullptr)"
  shows "mappings_ok hs' px"
proof -
  have "holds hs' k m \<longleftrightarrow> holds hs k m" for k m
    using new [of k] unfolding holds_def by (metis ptr.distinct(1))
  moreover have "half_ok px this" if "hs' k = Some this" for k this
    using ok that new [of k] unfolding mappings_ok_def half_ok_def by metis
  ultimately show ?thesis using ok unfolding mappings_ok_def by simp
qed

text \<open>The destructor unmaps the buffer of its own object, or leaves a part of it that nobody uses.\<close>

lemma mappings_delete:
  assumes ok: "mappings_ok hs px" and a: "hs k = Some this"
  shows "mappings_ok (hs(k := None)) (Shm_delete this px)"
proof -
  let ?hs = "hs(k := None)" and ?px = "Shm_delete this px"
  have wf: "wf_posix px" "half_ok px this"
    and halves: "\<And>k this. hs k = Some this \<Longrightarrow> half_ok px this"
    and inj: "\<And>k k' m. holds hs k m \<Longrightarrow> holds hs k' m \<Longrightarrow> k = k'"
    and all: "\<And>m mp. px_maps px m = Some mp \<Longrightarrow> mp_first mp = 0 \<Longrightarrow> \<exists>k. holds hs k m"
    using ok a unfolding mappings_ok_def by blast+
  have wf': "wf_posix ?px" using wf(1) by (simp add: Shm_delete_def wf_shm_unlink wf_munmap)
  have other: "px_maps ?px m = px_maps px m" if "\<not> holds hs k m" for m
    using that a
    by (auto simp: holds_def Shm_delete_def shm_unlink_def munmap_def Let_def
        split: ptr.splits nat.splits option.splits)
  have own: "mp_first mp \<noteq> 0" if "holds hs k m" "px_maps ?px m = Some mp" for m mp
    using that a
    by (auto simp: holds_def Shm_delete_def shm_unlink_def munmap_def page_size_def Let_def
        split: option.splits if_splits)
  have holds: "holds ?hs k' m \<longleftrightarrow> holds hs k' m \<and> k' \<noteq> k" for k' m by (auto simp: holds_def)
  have "half_ok ?px b" if b: "?hs k' = Some b" for k' b
  proof -
    have k': "k' \<noteq> k" "hs k' = Some b" using b by (auto split: if_splits)
    have "\<not> holds hs k m" if "shm_buffer b = PMap m 0" for m
      using inj [of k' m k] that k' by (auto simp: holds_def)
    then show ?thesis using halves [OF k'(2)] other by (auto simp: half_ok_def)
  qed
  moreover have "\<exists>k'. holds ?hs k' m" if m: "px_maps ?px m = Some mp" "mp_first mp = 0" for m mp
  proof -
    have "\<not> holds hs k m" using own m by blast
    then show ?thesis using all [of m mp] other [of m] m holds by metis
  qed
  ultimately show ?thesis using wf' inj unfolding mappings_ok_def holds by blast
qed

section \<open>One object\<close>

text \<open>An operation changes at most one of the buffers of its object.\<close>

definition obj_step :: "posix_shm \<Rightarrow> sideband \<Rightarrow> posix_shm \<Rightarrow> sideband \<Rightarrow> bool" where
  "obj_step px obj px' obj' \<longleftrightarrow>
     (px_maps px' = px_maps px \<and> wf_posix px' \<and> half obj' = half obj) \<or>
     (\<exists>w a b. half obj w = Some a \<and> half obj' = (half obj)(w \<mapsto> b) \<and> half_step px a px' b)"

lemma obj_step_refl: "wf_posix px \<Longrightarrow> obj_step px obj px obj"
  by (simp add: obj_step_def)

lemma obj_step_Shm: "half_step px this px' this' \<Longrightarrow> obj_step px (ShmSideband this) px' (ShmSideband this')"
  unfolding obj_step_def by (intro disjI2 exI [of _ BufA] exI [of _ this] exI [of _ this']) (auto simp: half_Shm)

lemma Dbl_swap_set [simp]:
  "Dbl_cur (Dbl_set_cur b d) = b" "Dbl_set_cur c (Dbl_set_cur b d) = Dbl_set_cur c d"
  by (cases "db_current d"; simp add: Dbl_cur_def Dbl_set_cur_def)+

lemma half_Dbl [simp]:
  "half (DblSideband (Dbl_swap d)) = half (DblSideband d)"
  "half (DblSideband (Dbl_set_cur b d)) = (half (DblSideband d))(db_current d \<mapsto> b)"
  by (auto simp: fun_eq_iff Dbl_set_cur_def)

lemma obj_step_Dbl:
  assumes "half_step px (Dbl_cur d) px' b"
  shows "obj_step px (DblSideband d) px' (DblSideband (Dbl_set_cur b d))"
    and "obj_step px (DblSideband d) px' (DblSideband (Dbl_swap (Dbl_set_cur b d)))"
proof -
  have "half (DblSideband d) (db_current d) = Some (Dbl_cur d)" by (simp add: Dbl_cur_def)
  then show "obj_step px (DblSideband d) px' (DblSideband (Dbl_set_cur b d))"
    and "obj_step px (DblSideband d) px' (DblSideband (Dbl_swap (Dbl_set_cur b d)))"
    unfolding obj_step_def half_Dbl using assms by blast+
qed

lemma Dbl_step:
  "Dbl_Write d bytes n px = Inr (ok, d', px') \<Longrightarrow> wf_posix px \<Longrightarrow> obj_step px (DblSideband d) px' (DblSideband d')"
  "Dbl_Read d dst n nread px = Inr (ok, dst', nread', d', px') \<Longrightarrow> wf_posix px \<Longrightarrow>
    obj_step px (DblSideband d) px' (DblSideband d')"
  "Dbl_ReadFromLengthPrefixed d dst n nread px = Inr (ok, dst', nread', d', px') \<Longrightarrow> wf_posix px \<Longrightarrow>
    obj_step px (DblSideband d) px' (DblSideband d')"
  "Dbl_ReadLengthPrefix d px = Inr (k, d', px') \<Longrightarrow> wf_posix px \<Longrightarrow> obj_step px (DblSideband d) px' (DblSideband d')"
  "Dbl_BeginDirectReadLengthPrefixed d n px = Inr (p, k, d', px') \<Longrightarrow> wf_posix px \<Longrightarrow>
    obj_step px (DblSideband d) px' (DblSideband d')"
  by (auto simp: Dbl_Write_def Dbl_Read_def Dbl_ReadFromLengthPrefixed_def Dbl_ReadLengthPrefix_def
      Dbl_BeginDirectReadLengthPrefixed_def andThen_eq_Inr_iff dest!: Shm_half intro: obj_step_Dbl)

lemma Dbl_step_WriteLengthPrefixed:
  assumes "Dbl_WriteLengthPrefixed d bytes n px = Inr (ok, d', px')" and wf: "wf_posix px"
  shows "obj_step px (DblSideband d) px' (DblSideband d')"
proof -
  obtain r1 b px1 where 1: "Shm_Write (Dbl_cur d) (int64_bytes n) 8 px = Inr (r1, b, px1)"
    and rest: "d' = Dbl_set_cur b d \<and> px' = px1 \<or> (\<exists>r2 c. Shm_Write b bytes n px1 = Inr (r2, c, px') \<and>
      (d' = Dbl_swap (Dbl_set_cur c d) \<or> d' = Dbl_set_cur c d))"
    using assms(1)
    by (fastforce simp: Dbl_WriteLengthPrefixed_def Let_def andThen_eq_Inr_iff split: if_splits)
  note step1 = Shm_half(1) [OF 1 wf]
  from rest show ?thesis
  proof
    assume "\<exists>r2 c. Shm_Write b bytes n px1 = Inr (r2, c, px') \<and>
      (d' = Dbl_swap (Dbl_set_cur c d) \<or> d' = Dbl_set_cur c d)"
    then obtain r2 c where 2: "Shm_Write b bytes n px1 = Inr (r2, c, px')"
      and d': "d' = Dbl_swap (Dbl_set_cur c d) \<or> d' = Dbl_set_cur c d" by blast
    have "wf_posix px1" using step1 by (simp add: half_step_def)
    then have "half_step px (Dbl_cur d) px' c" using half_step_trans [OF step1 Shm_half(1) [OF 2]] by simp
    then show ?thesis using obj_step_Dbl d' by blast
  qed (use obj_step_Dbl(1) [OF step1] in simp)
qed

section \<open>Virtual operations\<close>

definition steps_obj :: "sideband \<Rightarrow> ('s, 'a) machine_scheme \<Rightarrow>
    (stop + ('r \<times> sideband \<times> ('s, 'a) machine_scheme)) \<Rightarrow> bool" where
  "steps_obj obj mc r \<longleftrightarrow> (\<forall>x obj' mc'. r = Inr (x, obj', mc') \<longrightarrow> wf_posix (mc_shm mc) \<longrightarrow>
     obj_step (mc_shm mc) obj (mc_shm mc') obj')"

named_theorems step_intros "operations step one object"

lemma steps_in_shm:
  assumes "\<And>x this px'. r = Inr (x, this, px') \<Longrightarrow> wf_posix (mc_shm mc) \<Longrightarrow> obj_step (mc_shm mc) obj px' (C this)"
  shows "steps_obj obj mc (in_shm C r mc)"
  using assms by (auto simp: steps_obj_def in_shm_def andThen_eq_Inr_iff)

lemma steps_others [simp]:
  "steps_obj (SocketSideband this) mc (in_net this r1 mc)" "steps_obj (RdmaSideband that) mc (in_rdma r2 mc)"
  "steps_obj obj mc (Inr (x, obj, mc))"
  by (auto simp: steps_obj_def in_net_def in_rdma_def andThen_eq_Inr_iff obj_step_def fun_eq_iff)

lemma steps_swap [simp]: "steps_obj (DblSideband d) mc (Inr (x, DblSideband (Dbl_swap d), mc))"
  by (simp add: steps_obj_def obj_step_def)

lemma steps_Write [step_intros]: "steps_obj obj mc (Sideband_Write lib obj bytes n mc)"
  by (cases obj) (auto simp: Sideband_Write_def intro!: steps_in_shm obj_step_Shm dest: Shm_half Dbl_step)

lemma steps_Read [step_intros]: "steps_obj obj mc (Sideband_Read lib obj bytes n nread mc)"
  by (cases obj) (auto simp: Sideband_Read_def read_result_def andThen_eq_Inr_iff
      intro!: steps_in_shm obj_step_Shm dest: Shm_half Dbl_step)

lemma steps_WriteLengthPrefixed [step_intros]: "steps_obj obj mc (Sideband_WriteLengthPrefixed lib obj bytes n mc)"
  by (cases obj) (auto simp: Sideband_WriteLengthPrefixed_def
      intro!: steps_in_shm obj_step_Shm dest: Shm_half Dbl_step_WriteLengthPrefixed)

lemma steps_ReadFromLengthPrefixed [step_intros]: "steps_obj obj mc (Sideband_ReadFromLengthPrefixed obj bytes n nread mc)"
proof (cases obj)
  case (RdmaSideband this)
  then show ?thesis
    by (auto simp: Sideband_ReadFromLengthPrefixed_def steps_obj_def andThen_eq_Inr_iff obj_step_refl)
qed (auto simp: Sideband_ReadFromLengthPrefixed_def read_result_def andThen_eq_Inr_iff
      intro!: steps_in_shm obj_step_Shm dest: Shm_half Dbl_step)

lemma steps_ReadLengthPrefix [step_intros]: "steps_obj obj mc (Sideband_ReadLengthPrefix lib obj mc)"
  by (cases obj) (auto simp: Sideband_ReadLengthPrefix_def intro!: steps_in_shm obj_step_Shm dest: Shm_half Dbl_step)

lemma steps_BeginDirectRead [step_intros]: "steps_obj obj mc (Sideband_BeginDirectRead lib obj n mc)"
  by (cases obj) (auto simp: Sideband_BeginDirectRead_def Shm_BeginDirectRead_def Dbl_BeginDirectRead_def
      intro!: steps_in_shm obj_step_Shm obj_step_Dbl dest: Shm_GetBuffer_half split: prod.splits)

lemma steps_BeginDirectReadLengthPrefixed [step_intros]:
  "steps_obj obj mc (Sideband_BeginDirectReadLengthPrefixed lib obj n mc)"
  by (cases obj) (auto simp: Sideband_BeginDirectReadLengthPrefixed_def andThen_eq_Inr_iff
      intro!: steps_in_shm obj_step_Shm dest: Shm_half Dbl_step)

lemma steps_FinishDirectRead [step_intros]: "steps_obj obj mc (Sideband_FinishDirectRead lib obj mc)"
  by (cases obj) (simp_all add: Sideband_FinishDirectRead_def Dbl_FinishDirectRead_def)

lemma steps_BeginDirectWrite [step_intros]: "steps_obj obj mc (Sideband_BeginDirectWrite lib obj mc)"
  by (cases obj) (auto simp: Sideband_BeginDirectWrite_def Shm_BeginDirectWrite_def Dbl_BeginDirectWrite_def
      intro!: steps_in_shm obj_step_Shm obj_step_Dbl dest: Shm_GetBuffer_half split: prod.splits)

lemma steps_FinishDirectWrite [step_intros]: "steps_obj obj mc (Sideband_FinishDirectWrite lib obj n mc)"
  by (cases obj) (simp_all add: Sideband_FinishDirectWrite_def Dbl_FinishDirectWrite_def)

lemma steps_SerializeBuffer [step_intros]:
  "steps_obj obj mc (andThen (Sideband_SerializeBuffer obj) (\<lambda>obj. Inr ((), obj, mc)))"
proof (cases obj)
  case (ShmSideband this)
  have "obj_step px (ShmSideband this) px (ShmSideband (this\<lparr>sd_serializeBuffer := bs\<rparr>))" if "wf_posix px" for px bs
    by (rule obj_step_Shm) (simp add: that half_step_def remaps.unchanged)
  then show ?thesis using ShmSideband
    by (auto simp: Sideband_SerializeBuffer_def SerializeBuffer_def steps_obj_def andThen_eq_Inr_iff obj_step_refl
        split: if_splits)
next
  case (DblSideband d)
  have "half (DblSideband (d\<lparr>sd_serializeBuffer := bs\<rparr>)) = half (DblSideband d)" for bs
  proof
    show "half (DblSideband (d\<lparr>sd_serializeBuffer := bs\<rparr>)) w = half (DblSideband d) w" for w by (cases w; cases d) simp_all
  qed
  then show ?thesis using DblSideband
    by (auto simp: Sideband_SerializeBuffer_def SerializeBuffer_def steps_obj_def obj_step_def andThen_eq_Inr_iff
        split: if_splits)
qed (auto simp: Sideband_SerializeBuffer_def steps_obj_def obj_step_def andThen_eq_Inr_iff fun_eq_iff)

text \<open>A call through a token: one object steps, and the others stay.\<close>

definition calls_object :: "token \<Rightarrow> ('s, 'a) machine_scheme \<Rightarrow> ('s, 'a) machine_scheme \<Rightarrow> bool" where
  "calls_object t mc mc' \<longleftrightarrow> (\<exists>obj obj'. mc_objects mc t = Some obj \<and> mc_objects mc' = (mc_objects mc)(t \<mapsto> obj') \<and>
     obj_step (mc_shm mc) obj (mc_shm mc') obj')"

lemma call_steps:
  assumes "call t f mc = Inr (x, mc')" and "\<And>obj. steps_obj obj mc (f obj mc)" and "\<And>obj. keeps_frame obj mc (f obj mc)"
    and "wf_posix (mc_shm mc)"
  shows "calls_object t mc mc'"
proof -
  obtain obj obj' mc1 where obj: "mc_objects mc t = Some obj" and f: "f obj mc = Inr (x, obj', mc1)"
    and mc': "mc' = mc1\<lparr>mc_objects := (mc_objects mc1)(t \<mapsto> obj')\<rparr>"
    using assms(1) by (auto simp: call_def deref_def andThen_eq_Inr_iff split: if_splits option.splits)
  have "mc_objects mc1 = mc_objects mc" using assms(3) [of obj] f by (auto simp: keeps_frame_def)
  moreover have "obj_step (mc_shm mc) obj (mc_shm mc1) obj'"
    using assms(2) [of obj] f assms(4) by (auto simp: steps_obj_def)
  ultimately show ?thesis using obj mc' by (auto simp: calls_object_def)
qed

lemma data_call_steps:
  assumes "data_call lib t mc mc'" and "wf_posix (mc_shm mc)"
  shows "calls_object t mc mc'"
  using assms(1)
  by cases (use assms(2) in \<open>auto simp: SidebandData_Write_def SidebandData_Read_def SidebandData_WriteLengthPrefixed_def
      SidebandData_ReadFromLengthPrefixed_def SidebandData_ReadLengthPrefix_def SidebandData_BeginDirectRead_def
      SidebandData_BeginDirectReadLengthPrefixed_def SidebandData_FinishDirectRead_def
      SidebandData_BeginDirectWrite_def SidebandData_FinishDirectWrite_def SidebandData_SerializeBuffer_def
      andThen_eq_Inr_iff dest!: status_call read_status_call pointer_status_call
      intro: call_steps step_intros frame_intros\<close>)

section \<open>Making and closing connections\<close>

text \<open>A new object holds no mapping, and making it leaves the shared memory alone.\<close>

definition adds_object :: "'s program \<Rightarrow> 's program \<Rightarrow> bool" where
  "adds_object pg pg' \<longleftrightarrow> mc_shm pg' = mc_shm pg \<and> (mc_objects pg' = mc_objects pg \<or>
     (\<exists>obj. mc_objects pg' = (mc_objects pg)(mc_next pg \<mapsto> obj) \<and>
        (\<forall>w this. half obj w = Some this \<longrightarrow> shm_buffer this = nullptr)))"

lemma adds_objectI:
  "mc_shm pg' = mc_shm pg \<Longrightarrow> mc_objects pg' = (mc_objects pg)(mc_next pg \<mapsto> obj) \<Longrightarrow>
    (\<And>w this. half obj w = Some this \<Longrightarrow> shm_buffer this = nullptr) \<Longrightarrow> adds_object pg pg'"
  unfolding adds_object_def by blast

lemma half_new:
  "half (ShmSideband (Shm_new ident n)) w = Some this \<Longrightarrow> shm_buffer this = nullptr"
  "half (DblSideband (Dbl_new ident n)) w = Some this \<Longrightarrow> shm_buffer this = nullptr"
  by (cases w; auto simp: Shm_new_def Dbl_new_def)+

lemma adds_owner:
  "InitOwnerSidebandData strategy n pg = Inr (k, ident, pg') \<Longrightarrow> adds_object pg pg'"
  by (auto simp: InitOwnerSidebandData_def Init_shared_def Init_queued_def Shm_InitNew_def Dbl_InitNew_def
      andThen_eq_Inr_iff adds_object_def dest!: new_object_Inr half_new split: SidebandStrategy.splits)

lemma adds_queue:
  "QueueSidebandConnection lib strategy ident reader writer n pg = Inr (k, pg') \<Longrightarrow> adds_object pg pg'"
  by (auto simp: QueueSidebandConnection_def So_QueueSidebandConnection_def Imp_QueueSidebandConnection_def Let_def
      andThen_eq_Inr_iff adds_object_def split: if_splits)

lemma adds_socket: "So_InitFromConnection sock pg = Inr (t, pg') \<Longrightarrow> adds_object pg pg'"
  by (auto simp: So_InitFromConnection_def Let_def andThen_eq_Inr_iff dest!: new_object_Inr Register_Inr
      intro!: adds_objectI)

lemma adds_rdma: "new_rdma_object lib ws rs ident low n pg = Inr (t, pg') \<Longrightarrow> adds_object pg pg'"
  by (auto simp: new_rdma_object_def andThen_eq_Inr_iff dest!: new_object_Inr Register_Inr intro!: adds_objectI)

lemma adds_object_same: "mc_shm pg' = mc_shm pg \<Longrightarrow> mc_objects pg' = mc_objects pg \<Longrightarrow> adds_object pg pg'"
  by (simp add: adds_object_def)

lemma adds_rdma_within:
  assumes "new_rdma_object lib ws rs ident low n pg1 = Inr (t, pg2)"
    and "mc_shm pg1 = mc_shm pg" and "mc_objects pg1 = mc_objects pg" and "mc_next pg1 = mc_next pg"
    and "mc_shm pg' = mc_shm pg2" and "mc_objects pg' = mc_objects pg2"
  shows "adds_object pg pg'"
  using adds_rdma [OF assms(1)] assms(2-) by (simp add: adds_object_def)

lemma adds_session:
  assumes "Imp_InitFromConnection lib s isWrite pg = Inr (t, pg')"
  shows "adds_object pg pg'"
proof (cases "sessions_complete lib (with_session s isWrite (pg_rdma pg))")
  case True
  let ?rq = "with_session s isWrite (pg_rdma pg)"
  obtain rd pg2 where new: "new_rdma_object lib (rq_pendingWriteSession ?rq) (rq_pendingReadSession ?rq)
      (rq_nextConnectionId ?rq) (rq_nextConnectLowLatency ?rq) (rq_nextConnectBufferSize ?rq)
      (pg\<lparr>pg_rdma := ?rq, mc_rdma := rd\<rparr>) = Inr (t, pg2)"
    and "mc_shm pg' = mc_shm pg2" "mc_objects pg' = mc_objects pg2"
    using assms True
    by (auto simp: Imp_InitFromConnection_def sessions_complete_def with_session_def [symmetric] Let_def
        andThen_eq_Inr_iff)
  then show ?thesis by (intro adds_rdma_within [OF new]) simp_all
next
  case False
  then show ?thesis using Init_incomplete [OF False] assms by (auto intro: adds_object_same)
qed

lemma adds_client_sockets: "So_ClientInit url ident n low pg = Inr (t, pg') \<Longrightarrow> adds_object pg pg'"
  by (auto simp: So_ClientInit_def Let_def andThen_eq_Inr_iff dest!: new_object_Inr intro!: adds_objectI split: if_splits)

lemma adds_client_rdma: "Rdma_ClientInit lib url low ident n pg = Inr (t, pg') \<Longrightarrow> adds_object pg pg'"
  by (drule Rdma_ClientInit_new, elim exE, erule adds_rdma_within) simp_all

lemma insert_client_adds: "insert_client ident t pg1 = Inr (k, t', pg') \<Longrightarrow> adds_object pg pg1 \<Longrightarrow> adds_object pg pg'"
  by (auto simp: insert_client_def adds_object_def split: if_splits)

lemma adds_client:
  assumes "InitClientSidebandData lib url strategy ident n pg = Inr (k, t, pg')"
  shows "adds_object pg pg'"
proof -
  have new: "adds_object pg pg1" if "new_object obj pg = Inr (t1, pg1)" "obj = ShmSideband (Shm_new ident m) \<or> obj = DblSideband (Dbl_new ident m)"
    for obj t1 pg1 m
    using that by (auto dest!: new_object_Inr intro!: adds_objectI dest: half_new)
  have "adds_object pg pg" by (simp add: adds_object_def)
  then show ?thesis
    using assms new
    by (cases strategy)
      (auto simp: InitClientSidebandData_def Let_def andThen_eq_Inr_iff
        intro: insert_client_adds adds_client_sockets adds_client_rdma)
qed

lemma close_deletes:
  assumes "CloseSidebandData lib t pg = Inr (k, pg')"
  shows "\<exists>obj. mc_objects pg t = Some obj \<and> mc_objects pg' = (mc_objects pg)(t := None) \<and>
    mc_shm pg' = (case obj of ShmSideband this \<Rightarrow> Shm_delete this (mc_shm pg)
      | DblSideband d \<Rightarrow> Dbl_delete d (mc_shm pg) | _ \<Rightarrow> mc_shm pg)"
  using assms
  by (auto simp: CloseSidebandData_def Sideband_delete_def deref_def andThen_eq_Inr_iff
      split: if_splits sideband.splits option.splits)

section \<open>Histories of a machine\<close>

text \<open>
  One step is one call, or one accepted connection, of one of the processes. The others see what it does to
  the shared memory.
\<close>

definition after_step :: "nat \<Rightarrow> 's program \<Rightarrow> (nat \<Rightarrow> 's program) \<Rightarrow> nat \<Rightarrow> 's program" where
  "after_step i pg ps = (\<lambda>j. if j = i then pg else (ps j)\<lparr>mc_shm := mc_shm pg\<rparr>)"

inductive machine_history :: "'s easyrdma \<Rightarrow> (nat \<Rightarrow> 's program) \<Rightarrow> (nat \<Rightarrow> 's program) \<Rightarrow> bool" for lib where
  machine_start: "machine_history lib ps ps"
| machine_step: "machine_history lib ps0 ps \<Longrightarrow> api_step lib (ps i) pg \<Longrightarrow> machine_history lib ps0 (after_step i pg ps)"

fun buffers :: "(nat \<Rightarrow> 's program) \<Rightarrow> nat \<times> token \<times> which \<Rightarrow> SharedMemorySidebandData option" where
  "buffers ps (i, t, w) = (case mc_objects (ps i) t of None \<Rightarrow> None | Some obj \<Rightarrow> half obj w)"

definition machine_ok :: "(nat \<Rightarrow> 's program) \<Rightarrow> bool" where
  "machine_ok ps \<longleftrightarrow> (\<exists>px. (\<forall>i. registry_ok (ps i) \<and> mc_shm (ps i) = px) \<and> mappings_ok (buffers ps) px)"

lemma after_step_objects [simp]:
  "mc_objects (after_step i pg ps j) = (if j = i then mc_objects pg else mc_objects (ps j))"
  by (simp add: after_step_def)

lemma mappings_add:
  assumes ok: "mappings_ok (buffers ps) px" and reg: "registry_ok (ps i)" and add: "adds_object (ps i) pg"
  shows "mappings_ok (buffers (after_step i pg ps)) px"
proof (rule mappings_new [OF ok])
  fix k :: "nat \<times> token \<times> which"
  obtain j t w where k: "k = (j, t, w)" by (cases k)
  have free: "mc_objects (ps i) (mc_next (ps i)) = None" using reg by (fastforce simp: registry_ok_def)
  show "buffers (after_step i pg ps) k = buffers ps k \<or>
      (\<forall>this. buffers ps k = Some this \<longrightarrow> shm_buffer this = nullptr) \<and>
      (\<forall>this. buffers (after_step i pg ps) k = Some this \<longrightarrow> shm_buffer this = nullptr)"
    using add free unfolding k adds_object_def by (cases "j = i \<and> t = mc_next (ps i)") auto
qed

lemma mappings_call:
  assumes ok: "mappings_ok (buffers ps) (mc_shm (ps i))" and step: "calls_object t (ps i) pg"
  shows "mappings_ok (buffers (after_step i pg ps)) (mc_shm pg)"
proof -
  obtain obj obj' where obj: "mc_objects (ps i) t = Some obj" and pg: "mc_objects pg = (mc_objects (ps i))(t \<mapsto> obj')"
    and "obj_step (mc_shm (ps i)) obj (mc_shm pg) obj'"
    using step by (auto simp: calls_object_def)
  from this(3) show ?thesis
    unfolding obj_step_def
  proof
    assume quiet: "px_maps (mc_shm pg) = px_maps (mc_shm (ps i)) \<and> wf_posix (mc_shm pg) \<and> half obj' = half obj"
    have "buffers (after_step i pg ps) = buffers ps"
    proof
      show "buffers (after_step i pg ps) k = buffers ps k" for k
        by (cases k) (use quiet obj pg in auto)
    qed
    then show ?thesis using mappings_quiet [OF ok] quiet by simp
  next
    assume "\<exists>w a b. half obj w = Some a \<and> half obj' = (half obj)(w \<mapsto> b) \<and> half_step (mc_shm (ps i)) a (mc_shm pg) b"
    then obtain w a b where step: "half obj w = Some a" "half obj' = (half obj)(w \<mapsto> b)"
      "half_step (mc_shm (ps i)) a (mc_shm pg) b" by blast
    have "buffers (after_step i pg ps) = (buffers ps)((i, t, w) \<mapsto> b)"
    proof
      show "buffers (after_step i pg ps) k = ((buffers ps)((i, t, w) \<mapsto> b)) k" for k
        by (cases k) (use step obj pg in auto)
    qed
    then show ?thesis using mappings_step [OF ok _ step(3), of "(i, t, w)"] step(1) obj by simp
  qed
qed

lemma mappings_close:
  assumes ok: "mappings_ok (buffers ps) (mc_shm (ps i))" and close: "CloseSidebandData lib t (ps i) = Inr (k, pg)"
  shows "mappings_ok (buffers (after_step i pg ps)) (mc_shm pg)"
proof -
  obtain obj where obj: "mc_objects (ps i) t = Some obj" and pg: "mc_objects pg = (mc_objects (ps i))(t := None)"
    and shm: "mc_shm pg = (case obj of ShmSideband this \<Rightarrow> Shm_delete this (mc_shm (ps i))
      | DblSideband d \<Rightarrow> Dbl_delete d (mc_shm (ps i)) | _ \<Rightarrow> mc_shm (ps i))"
    using close_deletes [OF close] by blast
  have gone: "buffers (after_step i pg ps) = (buffers ps)((i, t, BufB) := None, (i, t, BufA) := None)"
  proof
    show "buffers (after_step i pg ps) k = ((buffers ps)((i, t, BufB) := None, (i, t, BufA) := None)) k" for k
    proof (cases k)
      case (fields j s w)
      then show ?thesis by (cases w) (simp_all add: pg)
    qed
  qed
  show ?thesis
  proof (cases obj)
    case (ShmSideband this)
    then have "buffers ps (i, t, BufA) = Some this" "(buffers ps)((i, t, BufB) := None) = buffers ps"
      using obj by (simp_all add: fun_upd_idem)
    then show ?thesis using mappings_delete [OF ok, of "(i, t, BufA)" this] gone shm ShmSideband by simp
  next
    case (DblSideband d)
    then have "buffers ps (i, t, BufB) = Some (db_bufferB d)"
      "((buffers ps)((i, t, BufB) := None)) (i, t, BufA) = Some (db_bufferA d)"
      using obj by simp_all
    then show ?thesis using mappings_delete [OF mappings_delete [OF ok]] gone shm DblSideband
      by (simp add: Dbl_delete_def)
  next
    case (SocketSideband this)
    then have "buffers (after_step i pg ps) = buffers ps" using gone obj by (simp add: fun_upd_idem)
    then show ?thesis using ok shm SocketSideband by simp
  next
    case (RdmaSideband this)
    then have "buffers (after_step i pg ps) = buffers ps" using gone obj by (simp add: fun_upd_idem)
    then show ?thesis using ok shm RdmaSideband by simp
  qed
qed

lemma machine_ok_step:
  assumes ok: "machine_ok ps" and step: "api_step lib (ps i) pg"
  shows "machine_ok (after_step i pg ps)"
proof -
  have reg: "registry_ok (ps j)" and same: "mc_shm (ps j) = mc_shm (ps i)" for j
    using ok by (auto simp: machine_ok_def)
  have maps: "mappings_ok (buffers ps) (mc_shm (ps i))" using ok by (auto simp: machine_ok_def)
  have add: "mappings_ok (buffers (after_step i pg ps)) (mc_shm pg)" if "adds_object (ps i) pg"
    using mappings_add [OF maps reg that] that by (auto simp: adds_object_def)
  from step have "mappings_ok (buffers (after_step i pg ps)) (mc_shm pg)"
  proof cases
    case (step_data t)
    then show ?thesis
      using data_call_steps [of lib t "ps i" pg] mappings_call [OF maps] maps by (auto simp: mappings_ok_def)
  next
    case step_owner
    then show ?thesis by (rule add [OF adds_owner])
  next
    case step_queue
    then show ?thesis by (rule add [OF adds_queue])
  next
    case step_client
    then show ?thesis by (rule add [OF adds_client])
  next
    case step_socket
    then show ?thesis by (rule add [OF adds_socket])
  next
    case step_session
    then show ?thesis by (rule add [OF adds_session])
  next
    case step_close
    then show ?thesis by (rule mappings_close [OF maps])
  qed
  moreover have "registry_ok (after_step i pg ps j)" for j
    using registry_ok_step [OF step reg] registry_ok_same [OF reg [of j], of "(ps j)\<lparr>mc_shm := mc_shm pg\<rparr>"]
    by (simp add: after_step_def)
  ultimately show ?thesis unfolding machine_ok_def by (auto simp: after_step_def)
qed

lemma machine_ok_history: "machine_history lib ps0 ps \<Longrightarrow> machine_ok ps0 \<Longrightarrow> machine_ok ps"
  by (induction rule: machine_history.induct) (auto intro: machine_ok_step)

section \<open>Property of the machine\<close>

text \<open>
  C11. Any number of processes of one machine make and close connections and read and write in any
  interleaving. Every shared-memory buffer of a live object is then null, \<open>MAP_FAILED\<close>, or the start of an
  intact mapping of the whole size of that buffer, so that closing one object never unmaps the memory of
  another; and every intact mapping is held by exactly one buffer of one live object of one process: nothing
  is mapped twice for one buffer, shared by two, or left behind by a close.
\<close>

theorem mappings_are_held:
  assumes "machine_history lib ps0 ps"
    and "\<forall>i. registry_ok (ps0 i) \<and> mc_objects (ps0 i) = Map.empty \<and> mc_shm (ps0 i) = px0"
    and "wf_posix px0" and "px_maps px0 = Map.empty"
  shows "\<exists>px. (\<forall>i. mc_shm (ps i) = px) \<and>
    (\<forall>i t obj w this. mc_objects (ps i) t = Some obj \<longrightarrow> half obj w = Some this \<longrightarrow>
      shm_buffer this = nullptr \<or> shm_buffer this = MAP_FAILED \<or>
      (\<exists>m ob. shm_buffer this = PMap m 0 \<and> shm_fileName this = Shm_path this \<and>
        px_maps px m = Some \<lparr>mp_obj = ob, mp_first = 0, mp_len = Shm_len this\<rparr>)) \<and>
    (\<forall>m mp. px_maps px m = Some mp \<longrightarrow> mp_first mp = 0 \<longrightarrow>
      (\<exists>!(i, t, w). \<exists>obj this. mc_objects (ps i) t = Some obj \<and> half obj w = Some this \<and> shm_buffer this = PMap m 0))"
proof -
  have "buffers ps0 k = None" for k using assms(2) by (cases k) simp
  then have "mappings_ok (buffers ps0) px0" using assms(3,4) by (simp add: mappings_ok_def holds_def)
  then have "machine_ok ps0" using assms(2) by (auto simp: machine_ok_def)
  then obtain px where px: "\<And>i. mc_shm (ps i) = px" and maps: "mappings_ok (buffers ps) px"
    using machine_ok_history [OF assms(1)] by (auto simp: machine_ok_def)
  have holds: "holds (buffers ps) k m \<longleftrightarrow> (case k of (i, t, w) \<Rightarrow>
      \<exists>obj this. mc_objects (ps i) t = Some obj \<and> half obj w = Some this \<and> shm_buffer this = PMap m 0)" for k m
    by (cases k) (auto simp: holds_def split: option.splits)
  have "half_ok px this" if "mc_objects (ps i) t = Some obj" "half obj w = Some this" for i t obj w this
  proof -
    have "buffers ps (i, t, w) = Some this" using that by simp
    then show ?thesis using maps unfolding mappings_ok_def by blast
  qed
  moreover have "\<exists>!k. holds (buffers ps) k m" if "px_maps px m = Some mp" "mp_first mp = 0" for m mp
    using maps that unfolding mappings_ok_def by blast
  ultimately show ?thesis using px unfolding half_ok_def holds by blast
qed

text \<open>An owner that writes once: its mapping is there.\<close>

lemma example_write:
  assumes "mc_objects pg = [1 \<mapsto> ShmSideband (Shm_InitNew 64)]" and "mc_shm pg = posix_init 16 4096 65536"
  shows "\<exists>pg' m ob. SidebandData_Write lib 1 [7, 8] 2 pg = Inr (0, pg') \<and>
    px_maps (mc_shm pg') m = Some \<lparr>mp_obj = ob, mp_first = 0, mp_len = 64\<rparr>"
proof -
  let ?o = "Shm_InitNew 64" and ?px = "posix_init 16 4096 65536"
  have null: "shm_buffer ?o = nullptr" and len: "Shm_len ?o = 64" by (simp_all add: Shm_InitNew_def Shm_new_def)
  have open_ok: "Shm_openable (Suc 0) ?o ?px"
    by (simp add: Shm_openable_def Shm_path_def Shm_InitNew_def Shm_new_def posix_init_def valid_shm_name_def)
  obtain m this px ob where get: "Shm_GetBuffer ?o ?px = (PMap m 0, this, px)"
    and px: "px_maps px m = Some \<lparr>mp_obj = ob, mp_first = 0, mp_len = Shm_len ?o\<rparr>" "px_objs px ob = Some (Shm_view ?o ?px)"
    using Shm_GetBuffer_opens [OF wf_posix_init null open_ok] by blast
  note px = px [unfolded len]
  have "region_size m px = 64"
    using px len length_Shm_view [of ?o ?px] by (simp add: region_size_def del: length_Shm_view)
  then obtain px' where "memcpy_to px (PMap m 0) [7, 8] 2 = Inr px'" and "px_maps px' = px_maps px"
    using px by (auto simp: memcpy_to_def ptr_write_def shm_write_def)
  then show ?thesis using assms get px(1)
    by (auto simp: SidebandData_Write_def status_def call_def deref_def Sideband_Write_def in_shm_def Shm_Write_def)
qed

theorem mappings_are_held_witness:
  "\<exists>pg ps m ob. InitOwnerSidebandData SHARED_MEMORY 64 (example_program 3 []) = Inr (0, ''TestBuffer'', pg) \<and>
    machine_history (fifo_lib 64 2) (\<lambda>i. example_program 3 []) ps \<and>
    px_maps (mc_shm (ps 1)) m = Some \<lparr>mp_obj = ob, mp_first = 0, mp_len = 64\<rparr> \<and>
    (\<exists>!(i, t, w). \<exists>obj this. mc_objects (ps i) t = Some obj \<and> half obj w = Some this \<and> shm_buffer this = PMap m 0)"
proof -
  let ?lib = "fifo_lib 64 2" and ?ps = "\<lambda>i :: nat. example_program 3 []"
  obtain pg where own: "InitOwnerSidebandData SHARED_MEMORY 64 (example_program 3 []) = Inr (0, ''TestBuffer'', pg)"
    and obj: "mc_objects pg = [1 \<mapsto> ShmSideband (Shm_InitNew 64)]"
    using example_owner by blast
  have "mc_shm pg = posix_init 16 4096 65536"
    using adds_owner [OF own] by (simp add: adds_object_def example_program_def)
  then obtain pg' m ob where wrote: "SidebandData_Write ?lib 1 [7, 8] 2 pg = Inr (0, pg')"
    and m: "px_maps (mc_shm pg') m = Some \<lparr>mp_obj = ob, mp_first = 0, mp_len = 64\<rparr>"
    using example_write [OF obj] by blast
  have 1: "machine_history ?lib ?ps (after_step 0 pg ?ps)"
    using machine_step [OF machine_start, of ?lib ?ps 0 pg] step_owner [OF own] by blast
  have "after_step 0 pg ?ps 0 = pg" by (simp add: after_step_def)
  then have 2: "machine_history ?lib ?ps (after_step 0 pg' (after_step 0 pg ?ps))"
    using machine_step [OF 1, of 0 pg'] step_data [OF data_call.intros(1) [OF wrote]] by simp
  have start: "\<forall>i. registry_ok (?ps i) \<and> mc_objects (?ps i) = Map.empty \<and> mc_shm (?ps i) = posix_init 16 4096 65536"
    using registry_ok_start by (simp add: example_program_def)
  let ?now = "after_step 0 pg' (after_step 0 pg ?ps)"
  have none: "px_maps (posix_init 16 4096 65536) = Map.empty" by (simp add: posix_init_def)
  obtain px where px: "\<forall>i. mc_shm (?now i) = px"
    and held: "\<forall>m mp. px_maps px m = Some mp \<longrightarrow> mp_first mp = 0 \<longrightarrow>
      (\<exists>!(i, t, w). \<exists>obj this. mc_objects (?now i) t = Some obj \<and> half obj w = Some this \<and> shm_buffer this = PMap m 0)"
    using mappings_are_held [OF 2 start wf_posix_init none] by blast
  have "mc_shm (?now 1) = mc_shm pg'" by (simp add: after_step_def)
  then have maps: "px_maps px m = Some \<lparr>mp_obj = ob, mp_first = 0, mp_len = 64\<rparr>"
    and shm: "px_maps (mc_shm (?now 1)) m = Some \<lparr>mp_obj = ob, mp_first = 0, mp_len = 64\<rparr>"
    using px m by simp_all
  show ?thesis
    by (rule exI [of _ pg], rule exI [of _ ?now], rule exI [of _ m], rule exI [of _ ob],
        intro conjI own 2 shm held [rule_format, OF maps] shm_mapping.select_convs(2))
qed

end
