(* ===== verification/OwnerThreads.thy ===== *)
theory OwnerThreads
  imports SidebandApi
begin

text \<open>
  Threads that wait in \<open>GetOwnerSidebandDataToken\<close> (\<^verbatim>\<open>src/sideband_data.cc\<close>) for a connection to be
  registered. A step is what one thread does while it holds \<open>_bufferLockMutex\<close>; waiting on
  \<open>_bufferLock\<close> gives the mutex up. Only \<open>RegisterSidebandData\<close> notifies the waiting threads, the two
  other functions that enter a connection do not; the lemmas show what follows.
\<close>

section \<open>Steps\<close>

datatype owner_thread = Outside | SleepsFor string | AwakeFor string | Has token

record ('s, 't) owners =
  ow_program :: "'s program"
  ow_thread :: "'t \<Rightarrow> owner_thread"

text \<open>One test of the loop condition: the thread has its token, or it goes to sleep.\<close>

definition owner_tests :: "string \<Rightarrow> 's program \<Rightarrow> owner_thread" where
  "owner_tests usageId pg =
     (case GetOwnerSidebandDataToken usageId pg of Inl e \<Rightarrow> SleepsFor usageId | Inr (result, t) \<Rightarrow> Has t)"

fun wakes :: "owner_thread \<Rightarrow> owner_thread" where
  "wakes (SleepsFor usageId) = AwakeFor usageId"
| "wakes x = x"

text \<open>
  The second argument of \<open>owner_run\<close> collects the identifiers that were entered without a
  notification.
\<close>

inductive owner_run :: "'s easyrdma \<Rightarrow> ('s, 't) owners \<Rightarrow> string set \<Rightarrow> bool" for lib where
  owner_start: "owner_run lib \<lparr>ow_program = pg, ow_thread = (\<lambda>t. Outside)\<rparr> {}"
| owner_asks: "owner_run lib w silent \<Longrightarrow> ow_thread w t = Outside \<or> ow_thread w t = Has x \<or> ow_thread w t = AwakeFor usageId \<Longrightarrow>
    owner_run lib (w\<lparr>ow_thread := (ow_thread w)(t := owner_tests usageId (ow_program w))\<rparr>) silent"
| owner_spurious: "owner_run lib w silent \<Longrightarrow>
    owner_run lib (w\<lparr>ow_thread := (ow_thread w)(t := wakes (ow_thread w t))\<rparr>) silent"
| owner_registers: "owner_run lib w silent \<Longrightarrow> RegisterSidebandData tok (ow_program w) = Inr pg' \<Longrightarrow>
    owner_run lib \<lparr>ow_program = pg', ow_thread = (\<lambda>t. wakes (ow_thread w t))\<rparr> silent"
| owner_makes: "owner_run lib w silent \<Longrightarrow> InitOwnerSidebandData strategy n (ow_program w) = Inr (k, usageId, pg') \<Longrightarrow>
    owner_run lib (w\<lparr>ow_program := pg'\<rparr>) (silent \<union> (dom (pg_buffers pg') - dom (pg_buffers (ow_program w))))"
| owner_client: "owner_run lib w silent \<Longrightarrow> insert_client usageId tok (ow_program w) = Inr (k, tok', pg') \<Longrightarrow>
    owner_run lib (w\<lparr>ow_program := pg'\<rparr>) (silent \<union> (dom (pg_buffers pg') - dom (pg_buffers (ow_program w))))"
| owner_closes: "owner_run lib w silent \<Longrightarrow> CloseSidebandData lib tok (ow_program w) = Inr (k, pg') \<Longrightarrow>
    owner_run lib (w\<lparr>ow_program := pg'\<rparr>) silent"
| owner_other: "owner_run lib w silent \<Longrightarrow> pg_buffers pg' = pg_buffers (ow_program w) \<Longrightarrow>
    owner_run lib (w\<lparr>ow_program := pg'\<rparr>) silent"

lemma owner_tests_sleeps: "owner_tests usageId pg = SleepsFor ident \<longleftrightarrow> ident = usageId \<and> pg_buffers pg usageId = None"
  by (auto simp: owner_tests_def GetOwnerSidebandDataToken_def split: option.splits)

lemma wakes_not_asleep [simp]: "wakes x \<noteq> SleepsFor ident"
  by (cases x) simp_all

text \<open>A notified thread finds the connection that was registered.\<close>

lemma registered_owner_has_token:
  assumes "RegisterSidebandData tok pg = Inr pg'"
  shows "\<exists>obj. deref tok pg = Inr obj \<and> owner_tests (UsageId obj) pg' = Has tok"
  using Register_Inr [OF assms] by (auto simp: owner_tests_def GetOwnerSidebandDataToken_def)

section \<open>Who stays asleep\<close>

text \<open>
  C10. No notification is missed: a thread that sleeps in \<open>GetOwnerSidebandDataToken\<close> waits for a
  connection that is not registered, in every order of registering, closing, asking, waking and
  falling asleep, unless its identifier was entered by one of the functions that do not notify.
\<close>

theorem owner_sleeps_until_registered:
  assumes "owner_run lib w silent" and "ow_thread w t = SleepsFor usageId" and "usageId \<notin> silent"
  shows "pg_buffers (ow_program w) usageId = None"
  using assms
proof (induction arbitrary: t usageId rule: owner_run.induct)
  case (owner_asks w silent t' x usageId')
  then show ?case by (auto simp: owner_tests_sleeps split: if_splits)
next
  case (owner_closes w silent tok k pg')
  from owner_closes.hyps(2) obtain obj where "pg_buffers pg' = (pg_buffers (ow_program w))(UsageId obj := None)"
    by (rule Close_Inr)
  then show ?case using owner_closes.IH owner_closes.prems by auto
next
  case (owner_spurious w silent t')
  then show ?case by (auto split: if_splits)
qed (auto simp: domIff)

text \<open>
  An owner of a shared-memory connection enters it without a notification: a thread that has been
  waiting for it sleeps on, although asking again would give it the token.
\<close>

lemma shared_memory_owner_not_woken:
  assumes "owner_run lib w silent" and "ow_thread w t = SleepsFor ''TestBuffer''"
    and "InitOwnerSidebandData SHARED_MEMORY n (ow_program w) = Inr (k, usageId, pg')"
  shows "\<exists>silent' tok. owner_run lib (w\<lparr>ow_program := pg'\<rparr>) silent' \<and>
    ow_thread (w\<lparr>ow_program := pg'\<rparr>) t = SleepsFor ''TestBuffer'' \<and> owner_tests ''TestBuffer'' pg' = Has tok"
proof -
  obtain a pg1 where "pg' = pg1\<lparr>pg_buffers := emplace ''TestBuffer'' a (pg_buffers pg1)\<rparr>"
    using assms(3)
    by (auto simp: InitOwnerSidebandData_def Init_shared_def andThen_eq_Inr_iff UsageId_def Shm_UsageId_def
        Shm_InitNew_def Shm_new_def)
  then have "pg_buffers pg' ''TestBuffer'' \<noteq> None" by (auto simp: emplace_def)
  then have "\<exists>tok. owner_tests ''TestBuffer'' pg' = Has tok"
    by (auto simp: owner_tests_def GetOwnerSidebandDataToken_def)
  then show ?thesis using owner_makes [OF assms(1,3)] assms(2) by auto
qed

theorem owner_sleeps_until_registered_witness:
  "owner_run (fifo_lib 64 2) \<lparr>ow_program = example_program 3 [], ow_thread = (\<lambda>t. Outside)(1 :: nat := SleepsFor ''ID:         2'')\<rparr> {} \<and>
    pg_buffers (example_program 3 [] :: fifo program) ''ID:         2'' = None"
proof -
  have none: "owner_tests ''ID:         2'' (example_program 3 [] :: fifo program) = SleepsFor ''ID:         2''"
    by (simp add: owner_tests_sleeps example_program_def)
  have run: "owner_run (fifo_lib 64 2) \<lparr>ow_program = example_program 3 [], ow_thread = (\<lambda>t. Outside)(1 :: nat := SleepsFor ''ID:         2'')\<rparr> {}"
    using owner_asks [OF owner_start [of _ "example_program 3 []"], of "1 :: nat" 0 "''ID:         2''"]
    by (simp add: none)
  from owner_sleeps_until_registered [OF run, of 1] run show ?thesis by simp
qed

end
