(* ===== verification/DoubleBufferBytes.thy ===== *)
theory DoubleBufferBytes
  imports DoubleBuffer "HOL-Library.Sublist"
begin

text \<open>
  The double buffer of \<^verbatim>\<open>src/sideband_shared_memory.cc\<close> used by two threads at once: \<open>Write\<close> and
  \<open>Read\<close> are no longer one step each. A call gets the buffer, its \<open>memcpy\<close> copies one byte after
  the other, in any order, and then it swaps; the steps of the two sides are interleaved freely. The code
  has nothing that keeps the two sides apart: that is left to its users, whose agreement is the number
  \<open>ahead\<close> of messages that the writer may be in front of the reader. Two is safe, three is not.
\<close>

section \<open>Steps of the two threads\<close>

text \<open>
  A call in progress: \<open>ptr\<close>, the caller's buffer, and the positions that \<open>memcpy\<close> has copied.
\<close>

type_synonym copying = "ptr \<times> byte list \<times> nat list"

record dbl_threads =
  th_writer :: DoubleBufferedSharedMemorySidebandData
  th_reader :: DoubleBufferedSharedMemorySidebandData
  th_px :: posix_shm
  th_writing :: "copying option"
  th_reading :: "copying option"
  th_written :: "byte list list"
  th_got :: "byte list list"

datatype dbl_move = Write_begins "byte list" | Write_copies nat | Write_ends
  | Read_begins "byte list" | Read_copies nat | Read_ends

definition dbl_start :: "string \<Rightarrow> int64 \<Rightarrow> posix_shm \<Rightarrow> dbl_threads" where
  "dbl_start id0 len px = \<lparr>th_writer = Dbl_new id0 len, th_reader = Dbl_new id0 len, th_px = px,
     th_writing = None, th_reading = None, th_written = [], th_got = []\<rparr>"

abbreviation copied :: "nat \<Rightarrow> nat list \<Rightarrow> bool" where
  "copied n is \<equiv> list_all (\<lambda>i. i \<in> set is) [0..<n]"

text \<open>
  One step, for messages of \<open>n\<close> bytes: \<open>None\<close> when the thread is not at this place or its side waits
  by the agreement, \<open>Some (Inl e)\<close> when the access to memory fails.
\<close>

fun dbl_step :: "nat \<Rightarrow> nat \<Rightarrow> dbl_move \<Rightarrow> dbl_threads \<Rightarrow> (stop + dbl_threads) option" where
  "dbl_step n ahead (Write_begins bytes) s =
     (if th_writing s = None \<and> length bytes = n \<and> length (th_written s) < length (th_got s) + ahead
      then case Shm_GetBuffer (Dbl_cur (th_writer s)) (th_px s) of (p, b, px) \<Rightarrow>
        let w = Dbl_set_cur b (th_writer s) in
        if p = nullptr then Some (Inr (s\<lparr>th_writer := Dbl_swap w, th_px := px\<rparr>))
        else Some (Inr (s\<lparr>th_writer := w, th_px := px, th_writing := Some (p, bytes, [])\<rparr>))
      else None)"
| "dbl_step n ahead (Write_copies i) s =
     (case th_writing s of None \<Rightarrow> None | Some (p, bytes, is) \<Rightarrow>
        if i < n
        then Some (andThen (ptr_write (th_px s) (ptr_plus p i) [bytes ! i]) (\<lambda>px.
               Inr (s\<lparr>th_px := px, th_writing := Some (p, bytes, i # is)\<rparr>)))
        else None)"
| "dbl_step n ahead Write_ends s =
     (case th_writing s of None \<Rightarrow> None | Some (p, bytes, is) \<Rightarrow>
        if copied n is
        then Some (Inr (s\<lparr>th_writer := Dbl_swap (th_writer s), th_writing := None,
               th_written := th_written s @ [bytes]\<rparr>))
        else None)"
| "dbl_step n ahead (Read_begins bytes) s =
     (if th_reading s = None \<and> length bytes = n \<and> length (th_got s) < length (th_written s)
      then case Shm_GetBuffer (Dbl_cur (th_reader s)) (th_px s) of (p, b, px) \<Rightarrow>
        let r = Dbl_set_cur b (th_reader s) in
        if p = nullptr then Some (Inr (s\<lparr>th_reader := Dbl_swap r, th_px := px\<rparr>))
        else Some (Inr (s\<lparr>th_reader := r, th_px := px, th_reading := Some (p, bytes, [])\<rparr>))
      else None)"
| "dbl_step n ahead (Read_copies i) s =
     (case th_reading s of None \<Rightarrow> None | Some (p, bytes, is) \<Rightarrow>
        if i < n
        then Some (andThen (ptr_read (th_px s) (ptr_plus p i) 1) (\<lambda>bs.
               Inr (s\<lparr>th_reading := Some (p, mem_write i bs bytes, i # is)\<rparr>)))
        else None)"
| "dbl_step n ahead Read_ends s =
     (case th_reading s of None \<Rightarrow> None | Some (p, bytes, is) \<Rightarrow>
        if copied n is
        then Some (Inr (s\<lparr>th_reader := Dbl_swap (th_reader s), th_reading := None,
               th_got := th_got s @ [bytes]\<rparr>))
        else None)"

fun dbl_steps :: "nat \<Rightarrow> nat \<Rightarrow> dbl_move list \<Rightarrow> dbl_threads \<Rightarrow> (stop + dbl_threads) option" where
  "dbl_steps n ahead [] s = Some (Inr s)"
| "dbl_steps n ahead (m # ms) s =
     (case dbl_step n ahead m s of Some (Inr s') \<Rightarrow> dbl_steps n ahead ms s' | x \<Rightarrow> x)"

section \<open>Two objects over the same two buffers\<close>

lemma mem_write_one: "i < length xs \<Longrightarrow> mem_write i [x] xs = xs[i := x]"
  by (simp add: mem_write_def upd_conv_take_nth_drop)

lemma mem_read_one: "i < length xs \<Longrightarrow> mem_read i (Suc 0) xs = [xs ! i]"
  by (simp add: mem_read_def take_Suc hd_drop_conv_nth)

lemma Dbl_swap_more [simp]:
  "Dbl_twins (Dbl_swap a) b = Dbl_twins a b" "Dbl_twins a (Dbl_swap b) = Dbl_twins a b"
  "Dbl_ready k (Dbl_swap a) px = Dbl_ready k a px" "Dbl_cost (Dbl_swap a) = Dbl_cost a"
  by (simp_all add: Dbl_twins_def Dbl_ready_buf Dbl_cost_buf [of _ BufA])

definition dbl_pair :: "DoubleBufferedSharedMemorySidebandData \<Rightarrow>
    DoubleBufferedSharedMemorySidebandData \<Rightarrow> posix_shm \<Rightarrow> bool" where
  "dbl_pair a b px \<longleftrightarrow> wf_posix px \<and> Dbl_twins a b \<and>
     Dbl_ready (Dbl_cost a + Dbl_cost b) a px \<and> Dbl_ready (Dbl_cost a + Dbl_cost b) b px"

lemma dbl_pair_sym: "dbl_pair a b px \<longleftrightarrow> dbl_pair b a px"
  unfolding dbl_pair_def by (metis Dbl_twins_sym add.commute)

lemma dbl_pair_swap [simp]:
  "dbl_pair (Dbl_swap a) b px = dbl_pair a b px" "dbl_pair a (Dbl_swap b) px = dbl_pair a b px"
  by (simp_all add: dbl_pair_def)

lemma dbl_pair_same_view:
  "dbl_pair a b px \<Longrightarrow> Shm_view (Dbl_buf c a) px' = Shm_view (Dbl_buf c b) px'"
  by (rule Shm_view_same) (simp_all add: dbl_pair_def Dbl_twins_def)

text \<open>An access of one object to its current buffer, seen through the other object.\<close>

lemma dbl_pair_effect:
  assumes pair: "dbl_pair a b px" and e: "Shm_effect (Shm_cost (Dbl_cur a)) f (Dbl_cur a) px x px'"
  shows "dbl_pair (Dbl_set_cur x a) b px'"
    and "Shm_view (Dbl_buf c b) px' =
      (if c = db_current a then f (Shm_view (Dbl_buf c b) px) else Shm_view (Dbl_buf c b) px)"
proof -
  have tw: "Dbl_twins a b" and ra: "Dbl_ready (Dbl_cost a + Dbl_cost b) a px"
    and rb: "Dbl_ready (Dbl_cost a + Dbl_cost b) b px" using pair by (simp_all add: dbl_pair_def)
  note e' = e [unfolded Dbl_cur_def]
  show "dbl_pair (Dbl_set_cur x a) b px'"
    using Dbl_step_ready [OF tw ra rb e'] Shm_effect_basic(1) [OF e]
    by (simp add: dbl_pair_def Dbl_set_cur_def)
  have "Shm_path (Dbl_buf c b) = Shm_path (Dbl_buf (db_current a) a) \<longleftrightarrow> c = db_current a"
    using Dbl_twins_buf(3) [OF tw, of "db_current a" c] by metis
  then show "Shm_view (Dbl_buf c b) px' =
      (if c = db_current a then f (Shm_view (Dbl_buf c b) px) else Shm_view (Dbl_buf c b) px)"
    using Shm_effect_other(1) [OF e' Dbl_twins_buf(1) [OF tw, of "db_current a" c]] by simp
qed

lemma dbl_pair_get:
  assumes pair: "dbl_pair a b px"
  shows "\<exists>m x px'. Shm_GetBuffer (Dbl_cur a) px = (PMap m 0, x, px') \<and> shm_buffer x = PMap m 0 \<and>
    dbl_pair (Dbl_set_cur x a) b px' \<and> (\<forall>c. Shm_view (Dbl_buf c b) px' = Shm_view (Dbl_buf c b) px)"
proof -
  have "wf_posix px" and "Shm_ready (Suc 0) (Dbl_cur a) px"
    using pair Dbl_cur_usable by (auto simp: dbl_pair_def)
  from Shm_ready_GetBuffer [OF this] show ?thesis
    using dbl_pair_effect [OF pair] by fastforce
qed

lemma dbl_pair_attached:
  "dbl_pair a b px \<Longrightarrow> shm_buffer (Dbl_cur a) = PMap m 0 \<Longrightarrow> Shm_attached (Dbl_cur a) px"
  by (auto simp: dbl_pair_def Dbl_ready_buf Dbl_cur_def Shm_ready_def)

lemma Dbl_set_cur_same [simp]: "Dbl_set_cur (Dbl_cur a) a = a"
  by (cases "db_current a") (simp_all add: Dbl_set_cur_def Dbl_cur_def)

lemma Dbl_cur_set_cur [simp]: "Dbl_cur (Dbl_set_cur x a) = x"
  by (simp add: Dbl_set_cur_def Dbl_cur_def)

lemma Dbl_current_set_cur [simp]: "db_current (Dbl_set_cur x a) = db_current a"
  by (simp add: Dbl_set_cur_def)

lemma dbl_pair_store:
  assumes pair: "dbl_pair a b px" and m: "shm_buffer (Dbl_cur a) = PMap m 0"
    and i: "i < Shm_len (Dbl_cur a)"
  shows "\<exists>px'. ptr_write px (PMap m i) [v] = Inr px' \<and> dbl_pair a b px' \<and>
    (\<forall>c. Shm_view (Dbl_buf c b) px' =
      (if c = db_current a then (Shm_view (Dbl_buf c b) px)[i := v] else Shm_view (Dbl_buf c b) px))"
proof -
  have wf: "wf_posix px" and tw: "Dbl_twins a b" using pair by (simp_all add: dbl_pair_def)
  have att: "Shm_attached (Dbl_cur a) px" using pair m by (rule dbl_pair_attached)
  obtain px' where w: "shm_write m px i [v] = Inr px'"
    and e: "Shm_effect 0 (mem_write i [v]) (Dbl_cur a) px (Dbl_cur a) px'"
    using Shm_attached_write [OF wf att m, of i "[v]"] i by auto
  have e1: "Shm_effect (Shm_cost (Dbl_cur a)) (mem_write i [v]) (Dbl_cur a) px (Dbl_cur a) px'"
    using e by (rule Shm_effect_mono) simp
  have "i < Shm_len (Dbl_buf (db_current a) b)"
    using i Dbl_twins_buf(4) [OF tw, of "db_current a" "db_current a"] by (simp add: Dbl_cur_def)
  then show ?thesis
    using w dbl_pair_effect [OF pair e1] by (auto simp: ptr_write_def mem_write_one)
qed

lemma dbl_pair_load:
  assumes pair: "dbl_pair a b px" and m: "shm_buffer (Dbl_cur a) = PMap m 0"
    and i: "i < Shm_len (Dbl_cur a)"
  shows "ptr_read px (PMap m i) 1 = Inr [Shm_view (Dbl_buf (db_current a) b) px ! i]"
proof -
  have "shm_read m px i (Suc 0) = Inr [Shm_view (Dbl_cur a) px ! i]"
    using Shm_attached_read [OF dbl_pair_attached [OF pair m] m, of i 1] i by (simp add: mem_read_one)
  then show ?thesis
    using dbl_pair_same_view [OF pair, of "db_current a" px] by (simp add: ptr_read_def Dbl_cur_def)
qed

section \<open>The invariant of the two threads\<close>

text \<open>
  What a call in progress knows: where its buffer is, and that the positions copied so far hold the
  same bytes as \<open>content\<close>.
\<close>

definition copying_ok :: "nat \<Rightarrow> DoubleBufferedSharedMemorySidebandData \<Rightarrow> byte list \<Rightarrow> copying \<Rightarrow> bool" where
  "copying_ok n this content c \<longleftrightarrow> (case c of (p, bytes, is) \<Rightarrow>
     length bytes = n \<and> (\<exists>m. p = PMap m 0) \<and> shm_buffer (Dbl_cur this) = p \<and>
     (\<forall>i \<in> set is. i < n \<and> bytes ! i = content ! i))"

definition dbl_view :: "dbl_threads \<Rightarrow> nat \<Rightarrow> byte list" where
  "dbl_view s k = Shm_view (Dbl_buf (slot k) (th_reader s)) (th_px s)"

definition threads_ok :: "nat \<Rightarrow> dbl_threads \<Rightarrow> bool" where
  "threads_ok n s \<longleftrightarrow> dbl_pair (th_writer s) (th_reader s) (th_px s) \<and>
     n \<le> Shm_len (db_bufferA (th_reader s)) \<and>
     db_current (th_writer s) = slot (length (th_written s)) \<and>
     db_current (th_reader s) = slot (length (th_got s)) \<and>
     prefix (th_got s) (th_written s) \<and> length (th_written s) \<le> length (th_got s) + 2 \<and>
     (\<forall>j < length (th_written s). length (th_got s) \<le> j \<longrightarrow>
       mem_read 0 n (dbl_view s j) = th_written s ! j) \<and>
     (\<forall>c. th_writing s = Some c \<longrightarrow> length (th_written s) < length (th_got s) + 2 \<and>
        copying_ok n (th_writer s) (dbl_view s (length (th_written s))) c) \<and>
     (\<forall>c. th_reading s = Some c \<longrightarrow> length (th_got s) < length (th_written s) \<and>
        length (th_written s ! length (th_got s)) = n \<and>
        copying_ok n (th_reader s) (th_written s ! length (th_got s)) c)"

lemma dbl_pair_len:
  "dbl_pair a b px \<Longrightarrow> Shm_len (Dbl_buf c a) = Shm_len (Dbl_buf d b)"
  using Dbl_twins_buf(4) by (metis dbl_pair_def)

lemma dbl_pair_self_len:
  "dbl_pair a b px \<Longrightarrow> Shm_len (Dbl_buf c a) = Shm_len (Dbl_buf d a)"
  by (metis dbl_pair_len)

lemma length_dbl_view:
  "dbl_pair w (th_reader s) px \<Longrightarrow> length (dbl_view s k) = Shm_len (db_bufferA (th_reader s))"
  using dbl_pair_self_len [of "th_reader s" w px "slot k" BufA] by (simp add: dbl_view_def dbl_pair_sym)

lemma slot_other: "slot (Suc k) \<noteq> slot k"
  by simp

lemma dbl_start_ok:
  assumes "wf_posix px" and "n \<le> unat len"
    and "Shm_openable 4 (Shm_new (id0 @ ''_A'') len) px" and "Shm_openable 4 (Shm_new (id0 @ ''_B'') len) px"
  shows "threads_ok n (dbl_start id0 len px)"
  using Dbl_inv_start [OF assms] by (simp add: threads_ok_def dbl_start_def dbl_pair_def Dbl_inv_def)

lemma copied_all:
  assumes "copied n is" and "copying_ok n this content (p, bytes, is)" and "n \<le> length content"
  shows "bytes = take n content"
  using assms by (intro nth_equalityI) (auto simp: copying_ok_def list_all_iff)

lemma step_write_begins:
  assumes inv: "threads_ok n s" and ahead: "ahead \<le> 2"
    and step: "dbl_step n ahead (Write_begins bytes) s = Some res"
  shows "\<exists>s'. res = Inr s' \<and> threads_ok n s'"
proof -
  have pair: "dbl_pair (th_writer s) (th_reader s) (th_px s)" using inv by (simp add: threads_ok_def)
  obtain m x px where get: "Shm_GetBuffer (Dbl_cur (th_writer s)) (th_px s) = (PMap m 0, x, px)"
    and x: "shm_buffer x = PMap m 0" and pair': "dbl_pair (Dbl_set_cur x (th_writer s)) (th_reader s) px"
    and view: "\<And>c. Shm_view (Dbl_buf c (th_reader s)) px = Shm_view (Dbl_buf c (th_reader s)) (th_px s)"
    using dbl_pair_get [OF pair] by blast
  show ?thesis
    using step inv ahead pair' x view
    by (auto simp: get threads_ok_def dbl_view_def copying_ok_def split: if_splits)
qed

lemma step_write_copies:
  assumes inv: "threads_ok n s" and step: "dbl_step n ahead (Write_copies i) s = Some res"
  shows "\<exists>s'. res = Inr s' \<and> threads_ok n s'"
proof -
  obtain p bytes "is" where w: "th_writing s = Some (p, bytes, is)" and i: "i < n"
    using step by (auto split: option.splits if_splits)
  have pair: "dbl_pair (th_writer s) (th_reader s) (th_px s)" and n: "n \<le> Shm_len (db_bufferA (th_reader s))"
    and cur: "db_current (th_writer s) = slot (length (th_written s))"
    and ok: "copying_ok n (th_writer s) (dbl_view s (length (th_written s))) (p, bytes, is)"
    and room: "length (th_written s) < length (th_got s) + 2"
    using inv by (simp_all add: threads_ok_def w)
  obtain m where p: "p = PMap m 0" and m: "shm_buffer (Dbl_cur (th_writer s)) = PMap m 0"
    using ok by (auto simp: copying_ok_def)
  have "Shm_len (Dbl_cur (th_writer s)) = Shm_len (db_bufferA (th_reader s))"
    using dbl_pair_len [OF pair, of _ BufA] by (simp add: Dbl_cur_def)
  then obtain px where put: "ptr_write (th_px s) (PMap m i) [bytes ! i] = Inr px"
    and pair': "dbl_pair (th_writer s) (th_reader s) px"
    and view: "\<And>c. Shm_view (Dbl_buf c (th_reader s)) px = (if c = db_current (th_writer s)
        then (Shm_view (Dbl_buf c (th_reader s)) (th_px s))[i := bytes ! i]
        else Shm_view (Dbl_buf c (th_reader s)) (th_px s))"
    using dbl_pair_store [OF pair m, of i "bytes ! i"] i n by auto
  let ?s = "s\<lparr>th_px := px, th_writing := Some (p, bytes, i # is)\<rparr>"
  have res: "res = Inr ?s" using step i put by (simp add: w p)
  have view_s: "dbl_view ?s k = (if slot k = slot (length (th_written s))
      then (dbl_view s k)[i := bytes ! i] else dbl_view s k)" for k
    using view by (simp add: dbl_view_def cur)
  have "copying_ok n (th_writer s) (dbl_view ?s (length (th_written s))) (p, bytes, i # is)"
    using ok i n length_dbl_view [OF pair, of "length (th_written s)"]
    by (auto simp: copying_ok_def view_s nth_list_update)
  moreover have "mem_read 0 n (dbl_view ?s j) = th_written s ! j"
    if j: "j < length (th_written s)" "length (th_got s) \<le> j" for j
  proof -
    have "length (th_written s) = Suc j" using j room by simp
    then have "dbl_view ?s j = dbl_view s j" using slot_other [of j] by (simp only: view_s) simp
    then show ?thesis using j inv by (simp add: threads_ok_def)
  qed
  ultimately show ?thesis
    using inv pair' by (simp add: threads_ok_def res w)
qed

lemma step_write_ends:
  assumes inv: "threads_ok n s" and step: "dbl_step n ahead Write_ends s = Some res"
  shows "\<exists>s'. res = Inr s' \<and> threads_ok n s'"
proof -
  obtain p bytes "is" where w: "th_writing s = Some (p, bytes, is)" and all: "copied n is"
    using step by (auto split: option.splits if_splits)
  have pair: "dbl_pair (th_writer s) (th_reader s) (th_px s)" and n: "n \<le> Shm_len (db_bufferA (th_reader s))"
    and ok: "copying_ok n (th_writer s) (dbl_view s (length (th_written s))) (p, bytes, is)"
    using inv by (simp_all add: threads_ok_def w)
  let ?s = "s\<lparr>th_writer := Dbl_swap (th_writer s), th_writing := None,
    th_written := th_written s @ [bytes]\<rparr>"
  have res: "res = Inr ?s" using step all by (simp add: w)
  have view_s: "dbl_view ?s k = dbl_view s k" for k by (simp add: dbl_view_def)
  have "mem_read 0 n (dbl_view s (length (th_written s))) = bytes"
    using copied_all [OF all ok] n length_dbl_view [OF pair] by (simp add: mem_read_def)
  then show ?thesis
    using inv by (auto simp: res threads_ok_def view_s w nth_append less_Suc_eq split: option.splits)
qed

lemma step_read_begins:
  assumes inv: "threads_ok n s" and step: "dbl_step n ahead (Read_begins bytes) s = Some res"
  shows "\<exists>s'. res = Inr s' \<and> threads_ok n s'"
proof -
  have pair: "dbl_pair (th_writer s) (th_reader s) (th_px s)" and n: "n \<le> Shm_len (db_bufferA (th_reader s))"
    and next_msg: "length (th_got s) < length (th_written s)"
    using inv step by (simp_all add: threads_ok_def split: if_splits)
  obtain m x px where get: "Shm_GetBuffer (Dbl_cur (th_reader s)) (th_px s) = (PMap m 0, x, px)"
    and x: "shm_buffer x = PMap m 0" and pair': "dbl_pair (Dbl_set_cur x (th_reader s)) (th_writer s) px"
    and view: "\<And>c. Shm_view (Dbl_buf c (th_writer s)) px = Shm_view (Dbl_buf c (th_writer s)) (th_px s)"
    using dbl_pair_get [OF pair [unfolded dbl_pair_sym [of "th_writer s"]]] by blast
  let ?s = "s\<lparr>th_reader := Dbl_set_cur x (th_reader s), th_px := px, th_reading := Some (PMap m 0, bytes, [])\<rparr>"
  have res: "res = Inr ?s" and len: "length bytes = n" and none: "th_reading s = None"
    using step get by (auto split: if_splits)
  have view_s: "dbl_view ?s k = dbl_view s k" for k
    using view [of "slot k"] dbl_pair_same_view [OF pair, of "slot k" "th_px s"]
      dbl_pair_same_view [OF pair', of "slot k" px] by (simp add: dbl_view_def)
  have "Shm_len (db_bufferA (Dbl_set_cur x (th_reader s))) = Shm_len (db_bufferA (th_reader s))"
    using dbl_pair_len [OF pair', of BufA BufA] dbl_pair_len [OF pair, of BufA BufA] by simp
  moreover have "mem_read 0 n (dbl_view s (length (th_got s))) = th_written s ! length (th_got s)"
    using inv next_msg by (simp add: threads_ok_def)
  then have "length (th_written s ! length (th_got s)) = n"
    using length_dbl_view [OF pair, of "length (th_got s)"] n by (metis length_mem_read add_0)
  ultimately show ?thesis
    using inv pair' x len next_msg
    by (simp add: res threads_ok_def view_s copying_ok_def dbl_pair_sym [of _ "th_writer s"])
qed

lemma step_read_copies:
  assumes inv: "threads_ok n s" and step: "dbl_step n ahead (Read_copies i) s = Some res"
  shows "\<exists>s'. res = Inr s' \<and> threads_ok n s'"
proof -
  obtain p bytes "is" where r: "th_reading s = Some (p, bytes, is)" and i: "i < n"
    using step by (auto split: option.splits if_splits)
  have pair: "dbl_pair (th_reader s) (th_writer s) (th_px s)" and n: "n \<le> Shm_len (db_bufferA (th_reader s))"
    and cur: "db_current (th_reader s) = slot (length (th_got s))"
    and next_msg: "length (th_got s) < length (th_written s)"
    and ok: "copying_ok n (th_reader s) (th_written s ! length (th_got s)) (p, bytes, is)"
    and held: "mem_read 0 n (dbl_view s (length (th_got s))) = th_written s ! length (th_got s)"
    using inv by (simp_all add: threads_ok_def r dbl_pair_sym)
  obtain m where p: "p = PMap m 0" and m: "shm_buffer (Dbl_cur (th_reader s)) = PMap m 0"
    using ok by (auto simp: copying_ok_def)
  have "Shm_len (Dbl_cur (th_reader s)) = Shm_len (db_bufferA (th_reader s))"
    using dbl_pair_self_len [OF pair, of _ BufA] by (simp add: Dbl_cur_def)
  then have get: "ptr_read (th_px s) (PMap m i) 1 = Inr [dbl_view s (length (th_got s)) ! i]"
    using dbl_pair_load [OF pair m, of i] dbl_pair_same_view [OF pair, of "slot (length (th_got s))" "th_px s"]
      i n by (simp add: dbl_view_def cur)
  have byte: "dbl_view s (length (th_got s)) ! i = (th_written s ! length (th_got s)) ! i"
    using i by (simp add: held [symmetric] mem_read_def)
  let ?s = "s\<lparr>th_reading := Some (p, bytes[i := (th_written s ! length (th_got s)) ! i], i # is)\<rparr>"
  have "length bytes = n" using ok by (simp add: copying_ok_def)
  then have res: "res = Inr ?s"
    using step get i by (simp add: r p byte mem_write_one)
  have view_s: "dbl_view ?s k = dbl_view s k" for k by (simp add: dbl_view_def)
  have "copying_ok n (th_reader s) (th_written s ! length (th_got s))
      (p, bytes[i := (th_written s ! length (th_got s)) ! i], i # is)"
    using ok i by (auto simp: copying_ok_def nth_list_update)
  then show ?thesis
    using inv by (simp add: threads_ok_def res r view_s)
qed

lemma prefix_next:
  assumes "prefix xs ys" and "length xs < length ys"
  shows "prefix (xs @ [ys ! length xs]) ys"
  using assms by (auto simp: prefix_def nth_append neq_Nil_conv)

lemma step_read_ends:
  assumes inv: "threads_ok n s" and step: "dbl_step n ahead Read_ends s = Some res"
  shows "\<exists>s'. res = Inr s' \<and> threads_ok n s'"
proof -
  obtain p bytes "is" where r: "th_reading s = Some (p, bytes, is)" and all: "copied n is"
    using step by (auto split: option.splits if_splits)
  have pre: "prefix (th_got s) (th_written s)" and next_msg: "length (th_got s) < length (th_written s)"
    and len: "length (th_written s ! length (th_got s)) = n"
    and ok: "copying_ok n (th_reader s) (th_written s ! length (th_got s)) (p, bytes, is)"
    using inv by (simp_all add: threads_ok_def r)
  have bytes: "bytes = th_written s ! length (th_got s)"
    using copied_all [OF all ok] len by simp
  let ?s = "s\<lparr>th_reader := Dbl_swap (th_reader s), th_reading := None, th_got := th_got s @ [bytes]\<rparr>"
  have res: "res = Inr ?s" using step all by (simp add: r)
  have view_s: "dbl_view ?s k = dbl_view s k" for k by (simp add: dbl_view_def)
  have "prefix (th_got ?s) (th_written s)" using prefix_next [OF pre next_msg] by (simp add: bytes)
  moreover have "Shm_len (db_bufferA (Dbl_swap (th_reader s))) = Shm_len (db_bufferA (th_reader s))"
    by (simp add: Dbl_swap_def)
  ultimately show ?thesis
    using inv next_msg by (auto simp: res threads_ok_def view_s r)
qed

lemmas steps_ok = step_write_begins step_write_copies step_write_ends
  step_read_begins step_read_copies step_read_ends

lemma dbl_step_ok:
  "threads_ok n s \<Longrightarrow> ahead \<le> 2 \<Longrightarrow> dbl_step n ahead m s = Some res \<Longrightarrow> \<exists>s'. res = Inr s' \<and> threads_ok n s'"
  by (cases m) (blast intro: steps_ok)+

lemma dbl_steps_ok:
  "threads_ok n s \<Longrightarrow> ahead \<le> 2 \<Longrightarrow> dbl_steps n ahead ms s = Some res \<Longrightarrow>
    \<exists>s'. res = Inr s' \<and> threads_ok n s'"
proof (induction ms arbitrary: s)
  case Nil
  then show ?case by auto
next
  case (Cons m ms)
  then show ?case
    using dbl_step_ok [OF Cons.prems(1,2), of m] by (fastforce split: option.splits sum.splits)
qed

section \<open>A call that is not interrupted\<close>

lemma dbl_steps_append:
  "dbl_steps n ahead (xs @ ys) s =
    (case dbl_steps n ahead xs s of Some (Inr s') \<Rightarrow> dbl_steps n ahead ys s' | x \<Rightarrow> x)"
  by (induction xs arbitrary: s) (auto split: option.splits sum.splits)

lemma copied_in_order: "copied n (rev [0..<n])"
  by (simp add: list_all_iff)

lemma mem_write_take_Suc:
  assumes "k < length xs" and "length xs \<le> length old"
  shows "mem_write k [xs ! k] (mem_write 0 (take k xs) old) = mem_write 0 (take (Suc k) xs) old"
  using mem_write_adjacent [of 0 "take k xs" "[xs ! k]" old] assms by (simp add: take_Suc_conv_app_nth)

text \<open>The bytes of \<open>memcpy\<close>, one after the other, are the piece of memory that it writes or reads.\<close>

lemma write_copies_all:
  assumes map: "px_maps (th_px s) m = Some mp" and ob: "px_objs (th_px s) (mp_obj mp) = Some old"
    and size: "k \<le> region_size m (th_px s)" and len: "length bytes = n" "n \<le> length old" and k: "k \<le> n"
    and first: "mp_first mp = 0"
  shows "dbl_steps n ahead (map Write_copies [0..<k]) (s\<lparr>th_writing := Some (PMap m 0, bytes, [])\<rparr>) =
    Some (Inr (s\<lparr>th_px := th_px s\<lparr>px_objs := (px_objs (th_px s))
        (mp_obj mp \<mapsto> mem_write 0 (take k bytes) old)\<rparr>,
      th_writing := Some (PMap m 0, bytes, rev [0..<k])\<rparr>))"
  using size k
proof (induction k)
  case 0
  then show ?case using ob by (cases s) (simp add: mem_write_def fun_upd_idem)
next
  case (Suc k)
  note IH = Suc.IH [OF Suc_leD [OF Suc.prems(1)] Suc_leD [OF Suc.prems(2)]]
  let ?px = "th_px s\<lparr>px_objs := (px_objs (th_px s))(mp_obj mp \<mapsto> mem_write 0 (take k bytes) old)\<rparr>"
  have "length (mem_write 0 (take k bytes) old) = length old"
    using Suc.prems len by (simp add: memory_simps)
  then have "Suc k \<le> region_size m ?px"
    using Suc.prems(1) map ob first by (simp add: region_size_def)
  then have "shm_write m ?px k [bytes ! k] =
      Inr (th_px s\<lparr>px_objs := (px_objs (th_px s))(mp_obj mp \<mapsto> mem_write 0 (take (Suc k) bytes) old)\<rparr>)"
    using map first Suc.prems len mem_write_take_Suc [of k bytes old]
    by (simp add: shm_write_def region_bytes_def)
  then have step: "dbl_step n ahead (Write_copies k)
      (s\<lparr>th_px := ?px, th_writing := Some (PMap m 0, bytes, rev [0..<k])\<rparr>) =
    Some (Inr (s\<lparr>th_px := th_px s\<lparr>px_objs := (px_objs (th_px s))
        (mp_obj mp \<mapsto> mem_write 0 (take (Suc k) bytes) old)\<rparr>,
      th_writing := Some (PMap m 0, bytes, rev [0..<Suc k])\<rparr>))"
    using Suc.prems by (simp add: ptr_write_def)
  then show ?case
    by (simp only: upt_Suc le0 if_True list.map map_append dbl_steps_append IH step option.case
        sum.case dbl_steps.simps)
qed

lemma read_copies_all:
  assumes att: "Shm_attached (Dbl_cur (th_reader s)) (th_px s)"
    and buf: "shm_buffer (Dbl_cur (th_reader s)) = PMap m 0"
    and len: "n \<le> Shm_len (Dbl_cur (th_reader s))" "length bytes = n" and k: "k \<le> n"
  shows "dbl_steps n ahead (map Read_copies [0..<k]) (s\<lparr>th_reading := Some (PMap m 0, bytes, [])\<rparr>) =
    Some (Inr (s\<lparr>th_reading := Some (PMap m 0,
      mem_write 0 (mem_read 0 k (Shm_view (Dbl_cur (th_reader s)) (th_px s))) bytes, rev [0..<k])\<rparr>))"
  using k
proof (induction k)
  case 0
  then show ?case by (simp add: mem_write_def mem_read_def)
next
  case (Suc k)
  let ?v = "take n (Shm_view (Dbl_cur (th_reader s)) (th_px s))"
  have "shm_read m (th_px s) k (Suc 0) = Inr [?v ! k]"
    using Shm_attached_read [OF att buf, of k 1] Suc.prems len by (simp add: mem_read_one)
  moreover have "mem_write k [?v ! k] (mem_write 0 (take k ?v) bytes) = mem_write 0 (take (Suc k) ?v) bytes"
    using Suc.prems len by (intro mem_write_take_Suc) simp_all
  ultimately show ?case
    using Suc by (simp add: dbl_steps_append ptr_read_def mem_read_def)
qed

lemma not_writing: "th_writing s = None \<Longrightarrow>
    s\<lparr>th_px := px, th_writer := w, th_writing := None, th_written := l\<rparr> =
    s\<lparr>th_writer := w, th_px := px, th_written := l\<rparr>"
  by (cases s) simp

lemma not_reading: "th_reading s = None \<Longrightarrow>
    s\<lparr>th_px := px, th_reader := r, th_reading := None, th_got := l\<rparr> =
    s\<lparr>th_reader := r, th_px := px, th_got := l\<rparr>"
  by (cases s) simp

text \<open>
  \<open>Dbl_Write\<close> and \<open>Dbl_Read\<close>, in which a call is one step, are these steps without an interruption.
\<close>

lemma dbl_write_alone:
  assumes inv: "threads_ok n s" and none: "th_writing s = None" and len: "length bytes = n" "n < 2 ^ 63"
    and room: "length (th_written s) < length (th_got s) + ahead"
  shows "\<exists>w' px'. Dbl_Write (th_writer s) bytes (of_nat n) (th_px s) = Inr (True, w', px') \<and>
    dbl_steps n ahead (Write_begins bytes # map Write_copies [0..<n] @ [Write_ends]) s =
      Some (Inr (s\<lparr>th_writer := w', th_px := px', th_written := th_written s @ [bytes]\<rparr>))"
proof -
  have pair: "dbl_pair (th_writer s) (th_reader s) (th_px s)"
    and n: "n \<le> Shm_len (db_bufferA (th_reader s))" using inv by (simp_all add: threads_ok_def)
  obtain m x px where get: "Shm_GetBuffer (Dbl_cur (th_writer s)) (th_px s) = (PMap m 0, x, px)"
    and x: "shm_buffer x = PMap m 0" and pair': "dbl_pair (Dbl_set_cur x (th_writer s)) (th_reader s) px"
    using dbl_pair_get [OF pair] by blast
  have "n \<le> Shm_len x"
    using n dbl_pair_len [OF pair', of "db_current (th_writer s)" BufA] Dbl_cur_set_cur [of x "th_writer s"]
    by (simp add: Dbl_cur_def)
  then obtain mp old where mp: "px_maps px m = Some mp" "px_objs px (mp_obj mp) = Some old"
      "mp_first mp = 0" "n \<le> length old" "n \<le> region_size m px"
    using dbl_pair_attached [OF pair'] x by (auto simp: Shm_attached_def region_size_def)
  let ?w = "Dbl_set_cur x (th_writer s)"
  let ?s = "s\<lparr>th_writer := ?w, th_px := px\<rparr>"
  let ?px = "px\<lparr>px_objs := (px_objs px)(mp_obj mp \<mapsto> mem_write 0 bytes old)\<rparr>"
  have "shm_write m px 0 bytes = Inr ?px"
    using mp len by (simp add: shm_write_def region_bytes_def)
  then have call: "Dbl_Write (th_writer s) bytes (of_nat n) (th_px s) = Inr (True, Dbl_swap ?w, ?px)"
    using len by (simp add: Dbl_Write_def Shm_Write_def get memcpy_to_def ptr_write_def)
  have begins: "dbl_step n ahead (Write_begins bytes) s =
      Some (Inr (?s\<lparr>th_writing := Some (PMap m 0, bytes, [])\<rparr>))"
    using none len(1) room by (simp add: get)
  have copies: "dbl_steps n ahead (map Write_copies [0..<n]) (?s\<lparr>th_writing := Some (PMap m 0, bytes, [])\<rparr>) =
      Some (Inr (?s\<lparr>th_px := ?px, th_writing := Some (PMap m 0, bytes, rev [0..<n])\<rparr>))"
    using write_copies_all [of ?s m mp old n bytes n ahead] mp len(1) by simp
  have "dbl_steps n ahead (Write_begins bytes # map Write_copies [0..<n] @ [Write_ends]) s =
      Some (Inr (s\<lparr>th_writer := Dbl_swap ?w, th_px := ?px, th_written := th_written s @ [bytes]\<rparr>))"
    using copied_in_order [of n] not_writing [OF none]
    by (simp add: begins copies dbl_steps_append del: dbl_step.simps(1,2))
  then show ?thesis using call by blast
qed

lemma dbl_read_alone:
  assumes inv: "threads_ok n s" and none: "th_reading s = None" and len: "length bytes = n" "n < 2 ^ 63"
    and room: "length (th_got s) < length (th_written s)"
  shows "\<exists>got r' px'.
    Dbl_Read (th_reader s) bytes (of_nat n) nread (th_px s) = Inr (True, got, nread, r', px') \<and>
    dbl_steps n ahead (Read_begins bytes # map Read_copies [0..<n] @ [Read_ends]) s =
      Some (Inr (s\<lparr>th_reader := r', th_px := px', th_got := th_got s @ [got]\<rparr>))"
proof -
  have pair: "dbl_pair (th_reader s) (th_writer s) (th_px s)"
    and n: "n \<le> Shm_len (db_bufferA (th_reader s))" using inv by (simp_all add: threads_ok_def dbl_pair_sym)
  obtain m x px where get: "Shm_GetBuffer (Dbl_cur (th_reader s)) (th_px s) = (PMap m 0, x, px)"
    and x: "shm_buffer x = PMap m 0" and pair': "dbl_pair (Dbl_set_cur x (th_reader s)) (th_writer s) px"
    using dbl_pair_get [OF pair] by blast
  let ?r = "Dbl_set_cur x (th_reader s)"
  let ?s = "s\<lparr>th_reader := ?r, th_px := px\<rparr>"
  let ?got = "mem_write 0 (mem_read 0 n (Shm_view x px)) bytes"
  have att: "Shm_attached x px" using dbl_pair_attached [OF pair', of m] x by simp
  have size: "n \<le> Shm_len x"
    using n dbl_pair_len [OF pair', of "db_current (th_reader s)" BufA] dbl_pair_len [OF pair, of BufA BufA]
      Dbl_cur_set_cur [of x "th_reader s"] by (simp add: Dbl_cur_def)
  have call: "Dbl_Read (th_reader s) bytes (of_nat n) nread (th_px s) = Inr (True, ?got, nread, Dbl_swap ?r, px)"
    using len Shm_attached_read [OF att x, of 0 n] size
    by (simp add: Dbl_Read_def Shm_Read_def get memcpy_from_def ptr_read_def)
  have begins: "dbl_step n ahead (Read_begins bytes) s =
      Some (Inr (?s\<lparr>th_reading := Some (PMap m 0, bytes, [])\<rparr>))"
    using none len(1) room by (simp add: get)
  have copies: "dbl_steps n ahead (map Read_copies [0..<n]) (?s\<lparr>th_reading := Some (PMap m 0, bytes, [])\<rparr>) =
      Some (Inr (?s\<lparr>th_reading := Some (PMap m 0, ?got, rev [0..<n])\<rparr>))"
    using read_copies_all [of ?s m n bytes n ahead] att x size len(1) by simp
  have "dbl_steps n ahead (Read_begins bytes # map Read_copies [0..<n] @ [Read_ends]) s =
      Some (Inr (s\<lparr>th_reader := Dbl_swap ?r, th_px := px, th_got := th_got s @ [?got]\<rparr>))"
    using copied_in_order [of n] not_reading [OF none]
    by (simp add: begins copies dbl_steps_append del: dbl_step.simps(4,5))
  then show ?thesis using call by blast
qed

section \<open>Properties of the two threads\<close>

text \<open>
  C7. Two threads may use the double buffer at the same time, with their copying interleaved byte by
  byte in any order, as long as the writer stays at most two messages ahead: no access to memory
  fails, and the messages read are the messages written, whole, once and in order.
\<close>

theorem dbl_no_torn_reads:
  assumes "wf_posix px" and "n \<le> unat len" and "ahead \<le> 2"
    and "Shm_openable 4 (Shm_new (id0 @ ''_A'') len) px" and "Shm_openable 4 (Shm_new (id0 @ ''_B'') len) px"
    and "dbl_steps n ahead ms (dbl_start id0 len px) = Some res"
  shows "\<exists>s. res = Inr s \<and> prefix (th_got s) (th_written s) \<and> length (th_written s) \<le> length (th_got s) + 2"
proof -
  have "\<exists>s. res = Inr s \<and> threads_ok n s"
    using dbl_steps_ok [OF dbl_start_ok [OF assms(1,2,4,5)] assms(3,6)] .
  then show ?thesis by (auto simp: threads_ok_def)
qed

lemma copied_two: "copied 2 is \<longleftrightarrow> 0 \<in> set is \<and> 1 \<in> set is"
  by (simp add: upt_rec)

lemmas run_simps = copied_two dbl_start_def Dbl_new_def Dbl_cur_def Dbl_set_cur_def Dbl_swap_def
  Shm_new_def Shm_GetBuffer_def Shm_Init_def shm_open_def ftruncate_def mmap_def posix_init_def
  valid_shm_name_def ptr_write_def ptr_read_def shm_write_def shm_read_def region_size_def
  region_bytes_def mem_write_def mem_read_def resize_def Let_def

lemma map_sum_InrD: "map_sum id f x = Inr y \<longleftrightarrow> (\<exists>z. x = Inr z \<and> f z = y)"
  by (cases x) auto

text \<open>
  Two messages go through the buffers; the second is written while the first is read, and neither
  \<open>memcpy\<close> copies in ascending order.
\<close>

definition overlapping_calls :: "dbl_move list" where
  "overlapping_calls = [Write_begins [1, 2], Write_copies 1, Write_copies 0, Write_ends,
     Write_begins [3, 4], Read_begins [0, 0], Write_copies 1, Read_copies 1, Write_copies 0,
     Read_copies 0, Write_ends, Read_ends, Read_begins [0, 0], Read_copies 0, Read_copies 1, Read_ends]"

theorem dbl_no_torn_reads_witness:
  "\<exists>s. dbl_steps 2 2 overlapping_calls (dbl_start ''X'' 2 (posix_init 16 4096 4096)) = Some (Inr s) \<and>
    th_got s = [[1, 2], [3, 4]] \<and> prefix (th_got s) (th_written s)"
proof -
  let ?s0 = "dbl_start ''X'' 2 (posix_init 16 4096 4096)"
  have open_ok: "Shm_openable 4 (Shm_new (''X'' @ ''_A'') 2) (posix_init 16 4096 4096)"
    "Shm_openable 4 (Shm_new (''X'' @ ''_B'') 2) (posix_init 16 4096 4096)"
    by (simp_all add: Shm_openable_def Shm_new_def posix_init_def valid_shm_name_def Shm_path_def)
  have "map_option (map_sum id th_got) (dbl_steps 2 2 overlapping_calls ?s0) = Some (Inr [[1, 2], [3, 4]])"
    by (simp add: overlapping_calls_def run_simps)
  then have "\<exists>s. dbl_steps 2 2 overlapping_calls ?s0 = Some (Inr s) \<and> th_got s = [[1, 2], [3, 4]]"
    by (auto simp: map_sum_InrD)
  then obtain s where s: "dbl_steps 2 2 overlapping_calls ?s0 = Some (Inr s)" "th_got s = [[1, 2], [3, 4]]"
    by blast
  then show ?thesis
    using dbl_no_torn_reads [OF wf_posix_init _ _ open_ok s(1)] by simp
qed

text \<open>
  With three messages the third is written to the buffer that the first is still read from: the read returns
  a mixture of the two, which nobody wrote.
\<close>

lemma dbl_torn_read:
  "map_option (map_sum id (\<lambda>s. (th_got s, th_written s)))
    (dbl_steps 2 3 [Write_begins [1, 2], Write_copies 0, Write_copies 1, Write_ends,
      Write_begins [3, 4], Write_copies 0, Write_copies 1, Write_ends,
      Read_begins [0, 0], Read_copies 0,
      Write_begins [5, 6], Write_copies 0, Write_copies 1, Write_ends,
      Read_copies 1, Read_ends] (dbl_start ''X'' 2 (posix_init 16 4096 4096))) =
    Some (Inr ([[1, 6]], [[1, 2], [3, 4], [5, 6]]))"
  by (simp add: run_simps)

end
