(* ===== verification/ThreadAffinity.thy ===== *)
theory ThreadAffinity
  imports MonikerService
begin

text \<open>
  The processors that the threads of the data moniker service may run on. \<open>RunSidebandReadWriteLoop\<close> and
  \<open>StreamWrite\<close> (\<^verbatim>\<open>moniker_src/moniker_service.cc\<close>, Linux) bind the thread they run on to one
  processor and never undo it. A sideband loop has a thread of its own; a gRPC call runs on a thread of the pool,
  which serves other calls later and starts the threads of the loops.
\<close>

section \<open>The scheduler\<close>

type_synonym thread = nat

text \<open>The processors that are online, and the processors that each thread may use.\<close>

record scheduler =
  sc_online :: "nat set"
  sc_affinity :: "thread \<Rightarrow> nat set"

text \<open>The kernel ignores processors that are not online and refuses a set of which nothing is left. Thread 0 is the caller.\<close>

definition sched_setaffinity :: "thread \<Rightarrow> thread \<Rightarrow> nat set \<Rightarrow> scheduler \<Rightarrow> int \<times> scheduler" where
  "sched_setaffinity caller threadId cpuSet sc =
     (let target = if threadId = 0 then caller else threadId in
      if cpuSet \<inter> sc_online sc = {} then (- 1, sc)
      else (0, sc\<lparr>sc_affinity := (sc_affinity sc)(target := cpuSet \<inter> sc_online sc)\<rparr>))"

text \<open>A new thread may use the processors of the thread that starts it.\<close>

definition start_thread :: "thread \<Rightarrow> thread \<Rightarrow> scheduler \<Rightarrow> scheduler" where
  "start_thread parent child sc = sc\<lparr>sc_affinity := (sc_affinity sc)(child := sc_affinity sc parent)\<rparr>"

section \<open>What the service asks for\<close>

text \<open>The results of the calls are ignored.\<close>

definition RunSidebandReadWriteLoop_affinity :: "SidebandStrategy \<Rightarrow> thread \<Rightarrow> scheduler \<Rightarrow> scheduler" where
  "RunSidebandReadWriteLoop_affinity strategy gettid sc =
     (if strategy = RDMA_LOW_LATENCY \<or> strategy = SOCKETS_LOW_LATENCY
      then snd (sched_setaffinity gettid gettid {10} sc) else sc)"

definition StreamWrite_affinity :: "thread \<Rightarrow> scheduler \<Rightarrow> scheduler" where
  "StreamWrite_affinity caller sc = snd (sched_setaffinity caller 0 {3} sc)"

text \<open>\<open>BeginSidebandStream\<close> on the thread \<open>caller\<close> starts the thread \<open>loop\<close>, whose first statements these are.\<close>

definition BeginSidebandStream_affinity :: "SidebandStrategy \<Rightarrow> thread \<Rightarrow> thread \<Rightarrow> scheduler \<Rightarrow> scheduler" where
  "BeginSidebandStream_affinity strategy caller loop sc =
     RunSidebandReadWriteLoop_affinity strategy loop (start_thread caller loop sc)"

text \<open>The calls of the service, by the thread that serves them; the other calls ask for nothing.\<close>

datatype served_call = BeginsStream SidebandStrategy thread thread | WritesStream thread | OtherCall thread

fun call_affinity :: "served_call \<Rightarrow> scheduler \<Rightarrow> scheduler" where
  "call_affinity (BeginsStream strategy caller loop) sc = BeginSidebandStream_affinity strategy caller loop sc"
| "call_affinity (WritesStream caller) sc = StreamWrite_affinity caller sc"
| "call_affinity (OtherCall caller) sc = sc"

fun starts :: "served_call \<Rightarrow> thread option" where
  "starts (BeginsStream strategy caller loop) = Some loop"
| "starts _ = None"

section \<open>Property\<close>

lemma setaffinity_others:
  "t \<noteq> (if threadId = 0 then caller else threadId) \<Longrightarrow> sc_affinity (snd (sched_setaffinity caller threadId cpus sc)) t = sc_affinity sc t"
  "sc_online (snd (sched_setaffinity caller threadId cpus sc)) = sc_online sc"
  by (simp_all add: sched_setaffinity_def Let_def)

lemma call_keeps_online: "sc_online (call_affinity c sc) = sc_online sc"
  by (cases c) (simp_all add: BeginSidebandStream_affinity_def RunSidebandReadWriteLoop_affinity_def
      StreamWrite_affinity_def start_thread_def setaffinity_others)

lemma call_keeps_pinned:
  assumes "3 \<in> sc_online sc" and "sc_affinity sc t = {3}" and "starts c \<noteq> Some t" and "t \<noteq> 0"
    and "starts c \<noteq> Some 0"
  shows "sc_affinity (call_affinity c sc) t = {3}"
proof (cases c)
  case (WritesStream caller)
  then show ?thesis using assms(1,2) by (simp add: StreamWrite_affinity_def sched_setaffinity_def Let_def)
qed (use assms in \<open>simp_all add: BeginSidebandStream_affinity_def RunSidebandReadWriteLoop_affinity_def
      start_thread_def setaffinity_others\<close>)

lemma calls_keep_pinned:
  assumes "3 \<in> sc_online sc" and "sc_affinity sc t = {3}" and "t \<noteq> 0"
    and "\<forall>c \<in> set calls. starts c \<noteq> Some t \<and> starts c \<noteq> Some 0"
  shows "sc_affinity (fold call_affinity calls sc) t = {3} \<and> sc_online (fold call_affinity calls sc) = sc_online sc"
  using assms
proof (induction calls arbitrary: sc)
  case Nil
  then show ?case by simp
next
  case (Cons c calls)
  then show ?case
    using Cons.IH [of "call_affinity c sc"] call_keeps_pinned [of sc t c] by (simp add: call_keeps_online)
qed

text \<open>
  A thread of the pool that has once served \<open>StreamWrite\<close> stays on processor 3 for good, whatever the service is
  called for, and so do all sideband loops that it starts later, except the low-latency ones where there is a
  processor 10.
\<close>

theorem stream_write_pins_thread:
  assumes "3 \<in> sc_online sc" and "t \<noteq> 0" and "loop \<noteq> 0" and "loop \<noteq> t"
    and "\<forall>c \<in> set calls. starts c \<noteq> Some t \<and> starts c \<noteq> Some 0"
  shows "sc_affinity (fold call_affinity (WritesStream t # calls) sc) t = {3} \<and>
    sc_affinity (fold call_affinity (WritesStream t # calls @ [BeginsStream strategy t loop]) sc) loop =
      (if (strategy = RDMA_LOW_LATENCY \<or> strategy = SOCKETS_LOW_LATENCY) \<and> 10 \<in> sc_online sc then {10} else {3})"
proof -
  let ?sc = "call_affinity (WritesStream t) sc"
  have "3 \<in> sc_online ?sc" "sc_affinity ?sc t = {3}" "sc_online ?sc = sc_online sc"
    using assms(1) call_keeps_online [of "WritesStream t" sc]
    by (simp_all add: StreamWrite_affinity_def sched_setaffinity_def Let_def)
  then have "sc_affinity (fold call_affinity calls ?sc) t = {3}" "sc_online (fold call_affinity calls ?sc) = sc_online sc"
    using calls_keep_pinned [OF _ _ assms(2,5), of ?sc] by simp_all
  then show ?thesis
    using assms(3,4)
    by (auto simp: BeginSidebandStream_affinity_def RunSidebandReadWriteLoop_affinity_def start_thread_def
        sched_setaffinity_def Let_def)
qed

theorem stream_write_pins_thread_witness:
  "sc_affinity (fold call_affinity (WritesStream 1 # [OtherCall 1, BeginsStream SOCKETS 2 7])
      \<lparr>sc_online = {0, 1, 2, 3}, sc_affinity = \<lambda>t. {0, 1, 2, 3}\<rparr>) 1 = {3} \<and>
    sc_affinity (fold call_affinity (WritesStream 1 # [OtherCall 1, BeginsStream SOCKETS 2 7] @ [BeginsStream RDMA_LOW_LATENCY 1 8])
      \<lparr>sc_online = {0, 1, 2, 3}, sc_affinity = \<lambda>t. {0, 1, 2, 3}\<rparr>) 8 = {3}"
  using stream_write_pins_thread [of "\<lparr>sc_online = {0, 1, 2, 3}, sc_affinity = \<lambda>t. {0, 1, 2, 3}\<rparr>" 1 8
      "[OtherCall 1, BeginsStream SOCKETS 2 7]" RDMA_LOW_LATENCY] by simp

end
