(* ===== verification/Spec2Isabelle.thy ===== *)
theory Spec2Isabelle
  imports SocketStream RdmaSession MachineInvariant OwnerThreads DoubleBufferBytes ThreadAffinity
begin

text \<open>
  A verification development for the gRPC sideband library of National Instruments, which moves data
  beside a gRPC connection through shared memory, sockets or RDMA, and for the data moniker service
  built on it.

  \<^bold>\<open>The program and its parts.\<close> A server hands out the identifier of a connection
  (\<open>InitOwnerSidebandData\<close>), announces that a client will come (\<open>QueueSidebandConnection\<close>), accepts it
  in a loop of another thread and enters the object for the connection into a registry, where
  \<open>GetOwnerSidebandDataToken\<close> waits for it. The client makes its own object from the server's URL and
  the identifier (\<open>InitClientSidebandData\<close>). Both then use their object through a token, with one set of
  functions for all transports. The service exchanges protobuf messages over such a connection.

  \<^bold>\<open>From the code to the theories.\<close>

  \<^item> \<^verbatim>\<open>SidebandPrelude\<close>, \<^verbatim>\<open>ByteRegion\<close>: machine types, calls that do not return (type \<open>stop\<close>), sequencing,
    pieces of memory.
  \<^item> \<^verbatim>\<open>PosixShm\<close>, \<^verbatim>\<open>NetSockets\<close>, \<^verbatim>\<open>EasyRdma\<close>: the platform. The first two model the Linux calls that
    the code makes; the third describes the easyrdma library, which is no part of the repository, as a
    record of functions, states what it promises, and gives a concrete instance that keeps the promises.
  \<^item> \<^verbatim>\<open>SidebandBase\<close> (class \<open>SidebandData\<close>, \<^verbatim>\<open>src/sideband_internal.h\<close>), \<^verbatim>\<open>SharedMemory\<close> and \<^verbatim>\<open>DoubleBuffer\<close>
    (\<^verbatim>\<open>src/sideband_shared_memory.cc\<close>), \<^verbatim>\<open>SocketTransport\<close> (\<^verbatim>\<open>src/sideband_sockets.cc\<close>), \<^verbatim>\<open>RdmaTransport\<close>
    (\<^verbatim>\<open>src/sideband_rdma.cc\<close>): one record per class, one definition per method, named by the class
    (\<open>Shm_\<close>, \<open>Dbl_\<close>, \<open>So_\<close>, \<open>Imp_\<close> and \<open>Rdma_\<close>) and the method.
  \<^item> \<^verbatim>\<open>DoubleBufferBytes\<close>: the double buffer under a writing and a reading thread, byte by byte.
  \<^item> \<^verbatim>\<open>SidebandObjects\<close>: the heap of objects, the virtual calls and the functions \<open>SidebandData_\<dots>\<close> of
    \<^verbatim>\<open>src/sideband_data.cc\<close>, for each transport.
  \<^item> \<^verbatim>\<open>ConnectionId\<close>, \<^verbatim>\<open>Addresses\<close>, \<^verbatim>\<open>SidebandRegistry\<close>, \<^verbatim>\<open>SidebandApi\<close>: identifiers, URLs, the globals of a
    process (record \<open>program\<close>) with the registry, and the functions that choose a transport.
  \<^item> \<^verbatim>\<open>Semaphores\<close>: the class of \<^verbatim>\<open>src/sideband_semaphore.h\<close>, its operations as one step each and statement
    by statement for any number of threads. \<^verbatim>\<open>OwnerThreads\<close>: threads that wait for a connection to be
    registered.
  \<^item> \<^verbatim>\<open>Handshake\<close>, \<^verbatim>\<open>ConnectQueues\<close>, \<^verbatim>\<open>SocketHandshake\<close>, \<^verbatim>\<open>RdmaHandshake\<close>: queueing and accepting connections.
  \<^item> \<^verbatim>\<open>SidebandMessages\<close>: \<open>ReadSidebandMessage\<close> and \<open>WriteSidebandMessage\<close> (\<^verbatim>\<open>src/sideband_grpc.h\<close>),
    over sockets and shared memory; \<^verbatim>\<open>RdmaMessages\<close> over RDMA, in one direction, and \<^verbatim>\<open>RdmaPort\<close> in both, with
    the service's loop over it.
  \<^item> \<^verbatim>\<open>StreamTurns\<close>: the client and the service's loop taking turns (\<open>stream_step\<close>), an abstract machine for them
    (\<open>exchange_step\<close>) and the interface that makes the code a refinement of it. \<^verbatim>\<open>SocketStream\<close> and \<^verbatim>\<open>RdmaStream\<close>
    interpret it for the two transports; \<^verbatim>\<open>SocketStream\<close> and \<^verbatim>\<open>RdmaSession\<close> hold whole sessions, from making the
    connection to the close.
  \<^item> \<^verbatim>\<open>MachineInvariant\<close>: the processes of a machine in any interleaving of their calls, and which of their
    objects holds which mapping of shared memory.
  \<^item> \<^verbatim>\<open>MonikerService\<close>: \<^verbatim>\<open>moniker_src/moniker_service.cc\<close> with the messages of
    \<^verbatim>\<open>moniker_src/data_moniker.proto\<close>. \<^verbatim>\<open>MonikerLoop\<close>, \<^verbatim>\<open>SocketPort\<close>, \<^verbatim>\<open>MonikerSideband\<close>, \<^verbatim>\<open>MonikerStreams\<close> and
    \<^verbatim>\<open>MonikerSession\<close> hold its properties; \<^verbatim>\<open>ThreadAffinity\<close> the processors that its threads are bound to.

  \<^bold>\<open>State, errors, threads.\<close> State is passed explicitly: \<open>posix_shm\<close> and \<open>net\<close> are shared by the processes
  of a machine, \<open>program\<close> is one process. A function returns \<open>Inr\<close> of its results and the new state, or
  \<open>Inl\<close> of the way in which it does not return: a failed \<open>assert\<close> (as in a build without \<open>NDEBUG\<close>), a null
  pointer, an access outside the program's memory, a C++ exception, or waiting for ever. Out parameters
  are returned; a buffer of the caller is passed in with its old content. A function that holds the
  registry's mutex is one step; threads are orders of such steps, given by inductive relations
  (\<open>Dbl_session\<close>, \<open>served\<close>, \<open>api_history\<close>, \<open>machine_history\<close>, \<open>owner_run\<close>) or lists of steps (\<open>stream_steps\<close>). Where the code relies on finer steps they are
  modelled: the statements inside the semaphore (\<open>sem_run\<close>, which justifies the one-step operations), the
  two halves of \<open>InitFromConnection\<close> in the RDMA threads (\<open>Imp_Init_store\<close>, \<open>Imp_Init_rest\<close>), and the bytes of
  the two copies on a double buffer (\<open>dbl_step\<close>, shown to be \<open>Dbl_Write\<close> and \<open>Dbl_Read\<close> when a call is not
  interrupted). 64-bit and 32-bit integers keep their width.

  \<^bold>\<open>Interfaces.\<close> The locale \<open>byte_region\<close> is what the accesses to mapped memory share; \<open>message_channel\<close> is the
  contract between two ends of a connection, interpreted for sockets and for RDMA, in both of its modes;
  \<open>connection_queue\<close> is the protocol of queueing and accepting, interpreted for sockets and for RDMA;
  \<open>message_source\<close>, \<open>message_sink\<close>, \<open>message_port\<close> and \<open>service_port\<close> are a connection as the users of
  messages see it, all interpreted for sockets and for RDMA, so that the service's loop is verified once; \<open>stream_ends\<close> is both ends
  of a connection, with what the environment still grants and what a close leaves, interpreted for both.

  \<^bold>\<open>What is shown.\<close> Messages arrive whole, once and in order over sockets and RDMA, and through shared
  memory as long as the writer does not run ahead, also when the two sides copy at the same time; what
  a kernel that moves any number of bytes per call can do to a transfer; bounds that the transfers do not check; that the two sides of a handshake end
  with objects over one connection, in whatever order RDMA sessions arrive, that requests are
  served one at a time and the next one is let in when the connections of one are complete, and that the port a
  server reports is the one it is bound to; that over every history of calls a token of the registry is null or a live
  object with the identifier asked for, that in every interleaving of processes the intact mappings of shared
  memory are in one-to-one correspondence with the buffers of live objects, and that no thread misses a registration that it waits for and
  that is notified; that the semaphore is atomic and leaves nobody asleep who could pass; that
  identifiers are distinct;
  that messages are read as they were written; and that the service's loops carry out a reference
  function, up to whole sessions from the request for a stream to the close, in every order of the two ends in which
  nobody has to wait, and over RDMA for streams of any length although a session has two buffers. The theorems
  about failures show what the code does where it departs from what it means to do.

  \<^bold>\<open>Bounds and loops.\<close> The loops over \<open>send\<close> and \<open>recv\<close> end because each call consumes one of the kernel's
  decisions, of which there is a finite list; a call for which there is none waits for ever. The
  theorems about transfers ask for enough of them (\<open>grants_sends\<close>, \<open>grants_recvs\<close>: one that moves at
  least a byte for every byte). Over RDMA the receiver's buffers bound what can be under way: the
  theorems count them (\<open>lk_credits\<close>), and the abstract machine has no step that would need more (the parameter \<open>k\<close>
  of \<open>exchange_step\<close>; for sockets any \<open>k\<close> will do). The service may close a connection over RDMA only when the client has
  taken all responses (\<open>may_close\<close>): nothing is assumed of what a closed session still holds. Loops that may run for ever are \<open>partial_function (option)\<close>, with \<open>None\<close>
  for the run that does not end; that the loops of the service return, and when, is proved (\<open>stream_read_returns_iff\<close>,
  \<open>moniker_stream_serves\<close>). The two accepting loops of RDMA have no exit of their own: what is proved of them is
  about their turns (\<open>accept_rdma_turn\<close>).

  \<^bold>\<open>Parameters.\<close> The easyrdma library, protobuf's encoding (record \<open>codec\<close>), the endpoint functions of an
  application, what a gRPC client sends and when it cancels, the addresses of the machine, name
  resolution, and the decisions of the kernel.

  \<^bold>\<open>Not modelled.\<close> The branches for Windows; console output and the text of socket errors, which no
  result depends on; how the scheduler's choices affect the time that calls take; the order of memory accesses of two processes inside
  one call on shared memory, apart from the double buffer (elsewhere a call is one step), and memory that
  is not sequentially consistent; the signal or reset that a \<open>send\<close> to a closed connection brings (here it succeeds and
  the bytes are gone); \<open>std::map\<close> and \<open>std::string\<close> running out of
  memory; \<open>GRPC\<close> and \<open>HYPERVISOR_SOCKETS\<close>, which are strategies without code; build files; the generated
  gRPC and protobuf code.
\<close>

end
